(* ===== verification/Prelude.thy ===== *)
theory Prelude
  imports Main "HOL-Library.Char_ord" "HOL-Library.List_Lexorder" "HOL-Library.Word" "HOL-Library.Sublist"
begin

text \<open>
  Shared vocabulary of the supergraph development.

  Go strings are byte strings; a \<open>char\<close> of Isabelle is a byte, so \<open>string\<close> is
  exactly Go's \<open>string\<close> and \<open>length\<close> is Go's \<open>len\<close>. The byte-lexicographic order of
  \<open>List_Lexorder\<close> over \<open>Char_ord\<close> is the order of \<open>sort.Strings\<close> and of SQLite's
  BINARY collation. This theory models the functions of Go's packages \<open>strings\<close> and
  \<open>strconv\<close> that the sources call, the 64-bit \<open>int\<close>, the keyed SQL tables the
  plugins keep (lists of rows with a primary key), and the schedule of statement
  failures a database handle may show.
\<close>

named_theorems str_simps \<open>rewriting for the modelled functions of package strings\<close>
named_theorems tbl_simps \<open>rewriting for keyed tables\<close>
named_theorems step_simps \<open>unfolding of the operations of a component\<close>

subsection \<open>The 64-bit int\<close>

text \<open>Two's complement wrap-around of Go's \<open>int\<close> and \<open>int64\<close>.\<close>

definition wrap64 :: "int \<Rightarrow> int" where
  "wrap64 x = (x + 2 ^ 63) mod 2 ^ 64 - 2 ^ 63"

definition in64 :: "int \<Rightarrow> bool" where
  "in64 x \<longleftrightarrow> - (2 ^ 63) \<le> x \<and> x < 2 ^ 63"

lemma wrap64_in64 [simp]: "in64 (wrap64 x)"
proof -
  have "0 \<le> (x + 2 ^ 63) mod 2 ^ 64" "(x + 2 ^ 63) mod 2 ^ 64 < (2 ^ 64 :: int)"
    by simp_all
  then show ?thesis by (simp add: wrap64_def in64_def)
qed

lemma wrap64_id: "in64 x \<Longrightarrow> wrap64 x = x"
  by (simp add: wrap64_def in64_def)

lemma wrap64_sint: "wrap64 x = sint (word_of_int x :: 64 word)"
  by (simp add: wrap64_def signed_take_bit_eq_take_bit_shift take_bit_eq_mod
      sint_word_ariths add.commute signed_of_int)

subsection \<open>Package strings\<close>

definition hasPrefix :: "string \<Rightarrow> string \<Rightarrow> bool" where
  "hasPrefix s p \<longleftrightarrow> take (length p) s = p"

definition hasSuffix :: "string \<Rightarrow> string \<Rightarrow> bool" where
  "hasSuffix s p \<longleftrightarrow> hasPrefix (rev s) (rev p)"

definition trimPrefix :: "string \<Rightarrow> string \<Rightarrow> string" where
  "trimPrefix s p = (if hasPrefix s p then drop (length p) s else s)"

definition trimSuffix :: "string \<Rightarrow> string \<Rightarrow> string" where
  "trimSuffix s p = (if hasSuffix s p then take (length s - length p) s else s)"

text \<open>\<open>strings.Cut\<close> at a one-byte separator: the text before, the text after, and whether
  the separator was found.\<close>

fun cut :: "char \<Rightarrow> string \<Rightarrow> string \<times> string \<times> bool" where
  "cut c [] = ([], [], False)"
| "cut c (x # xs) =
     (if x = c then ([], xs, True)
      else let (a, b, ok) = cut c xs in (x # a, b, ok))"

text \<open>\<open>strings.IndexByte\<close> and \<open>strings.LastIndexByte\<close>; \<open>None\<close> is Go's \<open>-1\<close>.\<close>

fun indexByte :: "string \<Rightarrow> char \<Rightarrow> nat option" where
  "indexByte [] c = None"
| "indexByte (x # xs) c = (if x = c then Some 0 else map_option Suc (indexByte xs c))"

fun indexAny :: "string \<Rightarrow> char list \<Rightarrow> nat option" where
  "indexAny [] cs = None"
| "indexAny (x # xs) cs = (if x \<in> set cs then Some 0 else map_option Suc (indexAny xs cs))"

definition lastIndexByte :: "string \<Rightarrow> char \<Rightarrow> nat option" where
  "lastIndexByte s c = map_option (\<lambda>i. length s - 1 - i) (indexByte (rev s) c)"

fun containsStr :: "string \<Rightarrow> string \<Rightarrow> bool" where
  "containsStr [] p = (p = [])"
| "containsStr (x # xs) p = (hasPrefix (x # xs) p \<or> containsStr xs p)"

text \<open>\<open>strings.Split\<close> at a one-byte separator: never the empty list.\<close>

fun splitOn :: "char \<Rightarrow> string \<Rightarrow> string list" where
  "splitOn c [] = [[]]"
| "splitOn c (x # xs) =
     (if x = c then [] # splitOn c xs
      else case splitOn c xs of [] \<Rightarrow> [[x]] | y # ys \<Rightarrow> (x # y) # ys)"

fun joinStr :: "string \<Rightarrow> string list \<Rightarrow> string" where
  "joinStr sep [] = []"
| "joinStr sep [x] = x"
| "joinStr sep (x # y # ys) = x @ sep @ joinStr sep (y # ys)"

text \<open>White space of \<open>strings.TrimSpace\<close> and \<open>strings.Fields\<close>: the ASCII bytes and the
  UTF-8 encodings of the code points for which \<open>unicode.IsSpace\<close> holds.\<close>

definition wsSeqs :: "string list" where
  "wsSeqs = map (\<lambda>bs. map (char_of :: nat \<Rightarrow> char) bs)
     ([[9], [10], [11], [12], [13], [32], [194, 133], [194, 160], [225, 154, 128]]
      @ map (\<lambda>i. [226, 128, 128 + i]) [0..<11]
      @ [[226, 128, 168], [226, 128, 169], [226, 128, 175], [226, 129, 159], [227, 128, 128]])"

function stripSeqs :: "string list \<Rightarrow> string \<Rightarrow> string" where
  "stripSeqs ws s =
     (case find (\<lambda>w. w \<noteq> [] \<and> hasPrefix s w) ws of
        None \<Rightarrow> s
      | Some w \<Rightarrow> stripSeqs ws (drop (length w) s))"
  by pat_completeness auto
termination
proof (relation "measure (\<lambda>(ws, s). length s)")
  fix ws s w
  assume "find (\<lambda>w. w \<noteq> [] \<and> hasPrefix s w) ws = Some w"
  then have "w \<noteq> []" "hasPrefix s w" by (auto simp: find_Some_iff)
  then have "s \<noteq> []" by (auto simp: hasPrefix_def)
  with \<open>w \<noteq> []\<close> show "((ws, drop (length w) s), ws, s) \<in> measure (\<lambda>(ws, s). length s)"
    by (cases w; cases s) auto
qed simp

declare stripSeqs.simps [simp del]

definition trimLeftSpace :: "string \<Rightarrow> string" where
  "trimLeftSpace s = stripSeqs wsSeqs s"

definition trimRightSpace :: "string \<Rightarrow> string" where
  "trimRightSpace s = rev (stripSeqs (map rev wsSeqs) (rev s))"

definition trimSpace :: "string \<Rightarrow> string" where
  "trimSpace s = trimRightSpace (trimLeftSpace s)"

text \<open>\<open>strings.TrimRight\<close> with a one-byte cutset.\<close>

definition trimRightByte :: "char \<Rightarrow> string \<Rightarrow> string" where
  "trimRightByte c s = rev (dropWhile (\<lambda>x. x = c) (rev s))"

definition trimByte :: "char \<Rightarrow> string \<Rightarrow> string" where
  "trimByte c s = trimRightByte c (dropWhile (\<lambda>x. x = c) s)"

text \<open>\<open>strings.Fields\<close>: the maximal runs without white space. The second argument
  is the current field, reversed.\<close>

function fieldsAux :: "string \<Rightarrow> string \<Rightarrow> string list" where
  "fieldsAux acc s =
     (case s of
        [] \<Rightarrow> (if acc = [] then [] else [rev acc])
      | x # xs \<Rightarrow>
          (case find (\<lambda>w. w \<noteq> [] \<and> hasPrefix s w) wsSeqs of
             None \<Rightarrow> fieldsAux (x # acc) xs
           | Some w \<Rightarrow> (if acc = [] then [] else [rev acc]) @ fieldsAux [] (drop (length w) s)))"
  by pat_completeness auto
termination
proof (relation "measure (\<lambda>(acc, s). length s)")
  fix acc s x xs w
  assume "s = x # xs" "find (\<lambda>w. w \<noteq> [] \<and> hasPrefix s w) wsSeqs = Some w"
  then have "w \<noteq> []" by (auto simp: find_Some_iff)
  with \<open>s = x # xs\<close> show "(([], drop (length w) s), acc, s) \<in> measure (\<lambda>(acc, s). length s)"
    by (cases w) auto
qed auto

declare fieldsAux.simps [simp del]

definition strFields :: "string \<Rightarrow> string list" where
  "strFields s = fieldsAux [] s"

subsection \<open>Case folding\<close>

definition lowerByte :: "char \<Rightarrow> char" where
  "lowerByte c =
     (let n = (of_char c :: nat) in if 65 \<le> n \<and> n \<le> 90 then char_of (n + 32) else c)"

text \<open>\<open>strings.ToLower\<close> as far as a search for an ASCII phrase can see it: the ASCII
  letters and the two non-ASCII code points with an ASCII lower case (U+0130 and
  U+212A). Every other code point keeps a non-ASCII encoding.\<close>

fun toLower :: "string \<Rightarrow> string" where
  "toLower [] = []"
| "toLower (a # b # c # xs) =
     (if map of_char [a, b] = [196, 176 :: nat] then CHR ''i'' # toLower (c # xs)
      else if map of_char [a, b, c] = [226, 132, 170 :: nat] then CHR ''k'' # toLower xs
      else lowerByte a # toLower (b # c # xs))"
| "toLower [a, b] =
     (if map of_char [a, b] = [196, 176 :: nat] then ''i'' else [lowerByte a, lowerByte b])"
| "toLower [a] = [lowerByte a]"

text \<open>\<open>strings.EqualFold\<close> against an ASCII lower-case word: simple folding identifies the
  ASCII cases, U+017F with \<open>s\<close> and U+212A with \<open>k\<close>.\<close>

fun foldWord :: "string \<Rightarrow> string" where
  "foldWord [] = []"
| "foldWord (a # b # c # xs) =
     (if map of_char [a, b] = [197, 191 :: nat] then CHR ''s'' # foldWord (c # xs)
      else if map of_char [a, b, c] = [226, 132, 170 :: nat] then CHR ''k'' # foldWord xs
      else lowerByte a # foldWord (b # c # xs))"
| "foldWord [a, b] =
     (if map of_char [a, b] = [197, 191 :: nat] then ''s'' else [lowerByte a, lowerByte b])"
| "foldWord [a] = [lowerByte a]"

definition equalFold :: "string \<Rightarrow> string \<Rightarrow> bool" where
  "equalFold s w \<longleftrightarrow> foldWord s = w"

subsection \<open>Package strconv\<close>

definition isDigit :: "char \<Rightarrow> bool" where
  "isDigit c \<longleftrightarrow> 48 \<le> (of_char c :: nat) \<and> (of_char c :: nat) \<le> 57"

definition digitChar :: "nat \<Rightarrow> char" where
  "digitChar n = char_of (48 + n)"

definition digitVal :: "char \<Rightarrow> nat" where
  "digitVal c = of_char c - 48"

fun showNat :: "nat \<Rightarrow> string" where
  "showNat n = (if n < 10 then [digitChar n] else showNat (n div 10) @ [digitChar (n mod 10)])"

declare showNat.simps [simp del]

definition itoa :: "int \<Rightarrow> string" where
  "itoa i = (if i < 0 then CHR ''-'' # showNat (nat (- i)) else showNat (nat i))"

definition digitsVal :: "string \<Rightarrow> nat" where
  "digitsVal ds = foldl (\<lambda>n c. 10 * n + digitVal c) 0 ds"

text \<open>\<open>strconv.Atoi\<close> (and \<open>ParseInt\<close> in base 10): the parsed value, a syntax error, or a
  range error, which also returns the nearest representable value.\<close>

datatype atoi_result = AtoiOk int | AtoiSyntax | AtoiRange int

definition atoi :: "string \<Rightarrow> atoi_result" where
  "atoi s =
     (let (neg, ds) = (case s of [] \<Rightarrow> (False, [])
                       | c # cs \<Rightarrow> if c = CHR ''-'' then (True, cs)
                                  else if c = CHR ''+'' then (False, cs) else (False, s))
      in if ds = [] \<or> \<not> list_all isDigit ds then AtoiSyntax
         else let v = (if neg then - int (digitsVal ds) else int (digitsVal ds))
              in if in64 v then AtoiOk v
                 else AtoiRange (if neg then - (2 ^ 63) else 2 ^ 63 - 1))"

text \<open>The value a caller gets when it drops the error: \<open>n, _ = strconv.Atoi(s)\<close>.\<close>

fun atoiVal :: "atoi_result \<Rightarrow> int" where
  "atoiVal (AtoiOk n) = n"
| "atoiVal AtoiSyntax = 0"
| "atoiVal (AtoiRange n) = n"

subsection \<open>Results, statement failures and keyed tables\<close>

text \<open>A Go \<open>(T, error)\<close> result: \<open>Inl\<close> carries the prefix the source wraps the error in.\<close>

type_synonym 'a res = "string + 'a"

text \<open>Every SQL statement a store executes may fail (a cancelled context, a locked or
  full database). A database handle therefore carries a schedule with one entry per
  statement still to be run: \<open>True\<close> fails it; when the schedule is used up every
  statement succeeds. A failed statement changes no table.\<close>

record dbh =
  faults :: "bool list"

definition stmt :: "'a dbh_scheme \<Rightarrow> bool \<times> 'a dbh_scheme" where
  "stmt s = (case faults s of [] \<Rightarrow> (True, s) | f # fs \<Rightarrow> (\<not> f, s\<lparr>faults := fs\<rparr>))"

definition tblGet :: "('r \<Rightarrow> 'k) \<Rightarrow> 'k \<Rightarrow> 'r list \<Rightarrow> 'r option" where
  "tblGet key k t = find (\<lambda>r. key r = k) t"

definition tblHas :: "('r \<Rightarrow> 'k) \<Rightarrow> 'k \<Rightarrow> 'r list \<Rightarrow> bool" where
  "tblHas key k t \<longleftrightarrow> k \<in> set (map key t)"

text \<open>\<open>INSERT ... ON CONFLICT(key) DO UPDATE\<close>: a fresh key is appended, an existing row is
  rewritten in place.\<close>

definition tblMerge :: "('r \<Rightarrow> 'k) \<Rightarrow> ('r \<Rightarrow> 'r \<Rightarrow> 'r) \<Rightarrow> 'r \<Rightarrow> 'r list \<Rightarrow> 'r list" where
  "tblMerge key m r t =
     (if tblHas key (key r) t then map (\<lambda>x. if key x = key r then m x r else x) t else t @ [r])"

definition tblUpsert :: "('r \<Rightarrow> 'k) \<Rightarrow> 'r \<Rightarrow> 'r list \<Rightarrow> 'r list" where
  "tblUpsert key r t = tblMerge key (\<lambda>_ r'. r') r t"

text \<open>\<open>INSERT OR IGNORE\<close>.\<close>

definition tblInsertIgnore :: "('r \<Rightarrow> 'k) \<Rightarrow> 'r \<Rightarrow> 'r list \<Rightarrow> 'r list" where
  "tblInsertIgnore key r t = (if tblHas key (key r) t then t else t @ [r])"

definition tblUpdate :: "('r \<Rightarrow> bool) \<Rightarrow> ('r \<Rightarrow> 'r) \<Rightarrow> 'r list \<Rightarrow> 'r list" where
  "tblUpdate P f t = map (\<lambda>x. if P x then f x else x) t"

definition tblDelete :: "('r \<Rightarrow> bool) \<Rightarrow> 'r list \<Rightarrow> 'r list" where
  "tblDelete P t = filter (\<lambda>x. \<not> P x) t"

definition tblInv :: "('r \<Rightarrow> 'k) \<Rightarrow> 'r list \<Rightarrow> bool" where
  "tblInv key t \<longleftrightarrow> distinct (map key t)"

text \<open>\<open>LIMIT n\<close>: a negative limit is no limit in SQLite.\<close>

definition sqlLimit :: "int \<Rightarrow> 'r list \<Rightarrow> 'r list" where
  "sqlLimit n rs = (if n < 0 then rs else take (nat n) rs)"

subsection \<open>Lemmas: strings\<close>

lemma hasPrefix_iff [str_simps]: "hasPrefix s p \<longleftrightarrow> (\<exists>t. s = p @ t)"
  by (metis append_eq_conv_conj append_take_drop_id hasPrefix_def)

lemma hasPrefix_append [simp]: "hasPrefix (p @ t) p"
  by (simp add: hasPrefix_def)

lemma hasSuffix_iff [str_simps]: "hasSuffix s p \<longleftrightarrow> (\<exists>t. s = t @ p)"
  unfolding hasSuffix_def hasPrefix_iff
  by (metis rev_append rev_rev_ident)

lemma trimPrefix_append [simp]: "trimPrefix (p @ t) p = t"
  by (simp add: trimPrefix_def)

lemma cut_absent [simp]: "c \<notin> set s \<Longrightarrow> cut c s = (s, [], False)"
  by (induction s) auto

lemma cut_append [simp]: "c \<notin> set a \<Longrightarrow> cut c (a @ c # b) = (a, b, True)"
  by (induction a) auto

lemma cut_found: "cut c s = (a, b, True) \<Longrightarrow> s = a @ c # b \<and> c \<notin> set a"
  by (induction s arbitrary: a) (auto split: if_splits prod.splits)

lemma cut_not_found: "cut c s = (a, b, False) \<Longrightarrow> a = s \<and> b = [] \<and> c \<notin> set s"
  by (induction s arbitrary: a) (auto split: if_splits prod.splits)

lemma cut_fst_notin: "cut c s = (a, b, ok) \<Longrightarrow> c \<notin> set a"
  by (cases ok) (auto dest: cut_found cut_not_found)

lemma indexByte_absent [simp]: "c \<notin> set s \<Longrightarrow> indexByte s c = None"
  by (induction s) auto

lemma indexByte_append [simp]: "c \<notin> set a \<Longrightarrow> indexByte (a @ c # b) c = Some (length a)"
  by (induction a) auto

lemma indexByte_None_iff: "indexByte s c = None \<longleftrightarrow> c \<notin> set s"
  by (induction s) auto

lemma indexByte_SomeD: "indexByte s c = Some i \<Longrightarrow> s = take i s @ c # drop (Suc i) s \<and> c \<notin> set (take i s) \<and> i < length s"
  by (induction s arbitrary: i) (auto split: if_splits)

lemma indexAny_absent [simp]: "set s \<inter> set cs = {} \<Longrightarrow> indexAny s cs = None"
  by (induction s) auto

lemma indexAny_append [simp]:
  "set a \<inter> set cs = {} \<Longrightarrow> x \<in> set cs \<Longrightarrow> indexAny (a @ x # b) cs = Some (length a)"
  by (induction a) auto

lemma lastIndexByte_absent [simp]: "c \<notin> set s \<Longrightarrow> lastIndexByte s c = None"
  by (simp add: lastIndexByte_def)

lemma lastIndexByte_append [simp]:
  "c \<notin> set b \<Longrightarrow> lastIndexByte (a @ c # b) c = Some (length a)"
  by (simp add: lastIndexByte_def)

lemma lastIndexByte_None_iff: "lastIndexByte s c = None \<longleftrightarrow> c \<notin> set s"
  by (simp add: lastIndexByte_def indexByte_None_iff)

lemma splitOn_nonempty [simp]: "splitOn c s \<noteq> []"
  by (induction s) (auto split: list.splits)

lemma splitOn_absent [simp]: "c \<notin> set s \<Longrightarrow> splitOn c s = [s]"
  by (induction s) auto

lemma splitOn_append [simp]: "c \<notin> set a \<Longrightarrow> splitOn c (a @ c # b) = a # splitOn c b"
  by (induction a) (auto split: list.splits)

lemma splitOn_join:
  "xs \<noteq> [] \<Longrightarrow> \<forall>x \<in> set xs. c \<notin> set x \<Longrightarrow> splitOn c (joinStr [c] xs) = xs"
proof (induction xs rule: list_nonempty_induct)
  case (single x)
  then show ?case by simp
next
  case (cons x xs)
  then show ?case by (cases xs) auto
qed

lemma splitOn_parts: "\<forall>x \<in> set (splitOn c s). c \<notin> set x"
  by (induction s) (auto split: list.splits)

lemma containsStr_iff [str_simps]: "containsStr s p \<longleftrightarrow> (\<exists>a b. s = a @ p @ b)"
proof (induction s)
  case Nil
  then show ?case by auto
next
  case (Cons x xs)
  have "(\<exists>a b. x # xs = a @ p @ b) \<longleftrightarrow> (\<exists>b. x # xs = p @ b) \<or> (\<exists>a b. xs = a @ p @ b)"
    by (metis append_Cons append_Nil list.inject neq_Nil_conv)
  with Cons show ?case by (simp add: hasPrefix_iff)
qed

subsection \<open>Lemmas: decimal numerals\<close>

lemma digitChar_digit [simp]: "n < 10 \<Longrightarrow> isDigit (digitChar n)"
  by (simp add: isDigit_def digitChar_def)

lemma digitVal_digitChar [simp]: "n < 10 \<Longrightarrow> digitVal (digitChar n) = n"
  by (simp add: digitVal_def digitChar_def)

lemma isDigit_neq [simp]:
  "isDigit c \<Longrightarrow> c \<noteq> CHR ''-''" "isDigit c \<Longrightarrow> c \<noteq> CHR ''+''" "isDigit c \<Longrightarrow> c \<noteq> CHR ''.''"
  "isDigit c \<Longrightarrow> c \<noteq> CHR '':''" "isDigit c \<Longrightarrow> c \<noteq> CHR ''/''" "isDigit c \<Longrightarrow> c \<noteq> CHR ''#''"
  "isDigit c \<Longrightarrow> c \<noteq> CHR ''@''" "isDigit c \<Longrightarrow> c \<noteq> CHR ''Z''" "isDigit c \<Longrightarrow> c \<noteq> CHR ''T''"
  "isDigit c \<Longrightarrow> c \<noteq> CHR ''|''"
  by (auto simp: isDigit_def)

lemma showNat_digits: "list_all isDigit (showNat n)"
proof (induction n rule: showNat.induct)
  case (1 n)
  then show ?case by (subst showNat.simps) (auto simp: not_less)
qed

lemma showNat_nonempty [simp]: "showNat n \<noteq> []"
  by (subst showNat.simps) simp

lemma digitsVal_snoc: "digitsVal (ds @ [c]) = 10 * digitsVal ds + digitVal c"
  by (simp add: digitsVal_def)

lemma digitsVal_showNat [simp]: "digitsVal (showNat n) = n"
proof (induction n rule: showNat.induct)
  case (1 n)
  show ?case
  proof (cases "n < 10")
    case True
    then show ?thesis by (subst showNat.simps) (simp add: digitsVal_def)
  next
    case False
    with 1 show ?thesis by (subst showNat.simps) (simp add: digitsVal_snoc)
  qed
qed

lemma set_showNat: "c \<in> set (showNat n) \<Longrightarrow> isDigit c"
  using showNat_digits [of n] by (simp add: list_all_iff)

lemma set_itoa: "c \<in> set (itoa i) \<Longrightarrow> isDigit c \<or> c = CHR ''-''"
  by (auto simp: itoa_def dest: set_showNat split: if_splits)

lemma itoa_nonempty [simp]: "itoa i \<noteq> []"
  by (simp add: itoa_def)

lemma atoi_showNat: "int n < 2 ^ 63 \<Longrightarrow> atoi (showNat n) = AtoiOk (int n)"
proof -
  assume n: "int n < 2 ^ 63"
  obtain c cs where cc: "showNat n = c # cs" by (cases "showNat n") auto
  then have "isDigit c" using set_showNat [of c n] by simp
  with cc n showNat_digits [of n] digitsVal_showNat [of n] show ?thesis
    by (simp add: atoi_def in64_def)
qed

lemma atoi_itoa [simp]: "in64 i \<Longrightarrow> atoi (itoa i) = AtoiOk i"
proof (cases "i < 0")
  case True
  assume "in64 i"
  with True showNat_digits [of "nat (- i)"] show ?thesis
    by (simp add: atoi_def itoa_def in64_def)
next
  case False
  assume "in64 i"
  with False atoi_showNat [of "nat i"] show ?thesis by (simp add: itoa_def in64_def)
qed

lemma itoa_inj: "in64 i \<Longrightarrow> in64 j \<Longrightarrow> itoa i = itoa j \<Longrightarrow> i = j"
  by (metis atoi_itoa atoi_result.inject(1))

lemma atoiVal_in64 [simp]: "in64 (atoiVal (atoi s))"
  by (auto simp: atoi_def Let_def in64_def split: prod.splits)

subsection \<open>Lemmas: tables\<close>

lemma stmt_no_faults [simp]: "faults s = [] \<Longrightarrow> stmt s = (True, s)"
  by (simp add: stmt_def)

text \<open>A statement changes nothing but the schedule.\<close>

lemma stmt_alt:
  "stmt s = (case faults s of [] \<Rightarrow> (True, s\<lparr>faults := []\<rparr>) | f # fs \<Rightarrow> (\<not> f, s\<lparr>faults := fs\<rparr>))"
  by (cases "faults s") (simp_all add: stmt_def)

lemma stmt_obtain:
  obtains b fs where "stmt s = (b, s\<lparr>faults := fs\<rparr>)"
  by (cases "faults s") (auto simp: stmt_alt)

lemma tblGet_Nil [simp]: "tblGet key k [] = None"
  by (simp add: tblGet_def)

lemma tblGet_Cons [simp]: "tblGet key k (r # t) = (if key r = k then Some r else tblGet key k t)"
  by (simp add: tblGet_def)

lemma tblHas_Nil [simp]: "\<not> tblHas key k []"
  by (simp add: tblHas_def)

lemma tblHas_Cons [simp]: "tblHas key k (r # t) \<longleftrightarrow> key r = k \<or> tblHas key k t"
  by (auto simp: tblHas_def)

lemma tblGet_append: "tblGet key k (t @ u) = (case tblGet key k t of None \<Rightarrow> tblGet key k u | Some r \<Rightarrow> Some r)"
  by (induction t) auto

lemma tblGet_None_iff: "tblGet key k t = None \<longleftrightarrow> \<not> tblHas key k t"
  by (induction t) auto

lemma tblGet_SomeD: "tblGet key k t = Some r \<Longrightarrow> r \<in> set t \<and> key r = k"
  by (induction t) (auto split: if_splits)

lemma tblInv_get: "tblInv key t \<Longrightarrow> tblGet key k t = Some r \<longleftrightarrow> r \<in> set t \<and> key r = k"
  by (induction t) (auto simp: tblInv_def dest: tblGet_SomeD)

lemma tblGet_map:
  "(\<And>x. key (f x) = key x) \<Longrightarrow> tblGet key k (map f t) = map_option f (tblGet key k t)"
  by (induction t) auto

lemma tblGet_merge:
  assumes "\<And>x. key x = key r \<Longrightarrow> key (m x r) = key r"
  shows "tblGet key k (tblMerge key m r t) =
    (if k = key r then Some (case tblGet key k t of None \<Rightarrow> r | Some x \<Rightarrow> m x r) else tblGet key k t)"
proof -
  have "tblGet key k (map (\<lambda>x. if key x = key r then m x r else x) t) =
      map_option (\<lambda>x. if key x = key r then m x r else x) (tblGet key k t)"
    using assms by (intro tblGet_map) simp
  then show ?thesis
    using tblGet_None_iff [of key "key r" t]
    by (auto simp: tblMerge_def tblGet_append split: option.splits dest: tblGet_SomeD)
qed

lemma tblGet_upsert [tbl_simps]:
  "tblGet key k (tblUpsert key r t) = (if k = key r then Some r else tblGet key k t)"
  by (auto simp: tblUpsert_def tblGet_merge split: option.splits)

lemma tblGet_insertIgnore [tbl_simps]:
  "tblGet key k (tblInsertIgnore key r t) =
     (if k = key r then Some (case tblGet key k t of None \<Rightarrow> r | Some x \<Rightarrow> x) else tblGet key k t)"
  using tblGet_None_iff [of key "key r" t]
  by (auto simp: tblInsertIgnore_def tblGet_append split: option.splits)

lemma tblGet_delete [tbl_simps]:
  "tblGet key k (tblDelete (\<lambda>r. key r = k') t) = (if k = k' then None else tblGet key k t)"
  by (induction t) (auto simp: tblDelete_def)

lemma tblGet_update [tbl_simps]:
  "(\<And>x. key (f x) = key x) \<Longrightarrow>
     tblGet key k (tblUpdate P f t) = map_option (\<lambda>x. if P x then f x else x) (tblGet key k t)"
  unfolding tblUpdate_def by (rule tblGet_map) simp

lemma tblInv_Nil [simp]: "tblInv key []"
  by (simp add: tblInv_def)

lemma tblInv_merge:
  assumes "\<And>x. key x = key r \<Longrightarrow> key (m x r) = key r" and "tblInv key t"
  shows "tblInv key (tblMerge key m r t)"
proof -
  have "map key (map (\<lambda>x. if key x = key r then m x r else x) t) = map key t"
    using assms(1) by simp
  with assms(2) show ?thesis
    by (auto simp: tblInv_def tblMerge_def tblHas_def simp del: map_map)
qed

lemma tblInv_upsert [simp]: "tblInv key t \<Longrightarrow> tblInv key (tblUpsert key r t)"
  by (simp add: tblUpsert_def tblInv_merge)

lemma tblInv_insertIgnore [simp]: "tblInv key t \<Longrightarrow> tblInv key (tblInsertIgnore key r t)"
  by (auto simp: tblInv_def tblInsertIgnore_def tblHas_def)

lemma tblInv_delete [simp]: "tblInv key t \<Longrightarrow> tblInv key (tblDelete P t)"
  by (simp add: tblInv_def tblDelete_def distinct_map_filter)

lemma tblInv_update [simp]:
  "(\<And>x. key (f x) = key x) \<Longrightarrow> tblInv key t \<Longrightarrow> tblInv key (tblUpdate P f t)"
  by (simp add: tblInv_def tblUpdate_def comp_def if_distrib cong: if_cong)

lemma set_tblDelete [simp]: "set (tblDelete P t) = {x \<in> set t. \<not> P x}"
  by (simp add: tblDelete_def)

lemma set_tblUpsert:
  "set (tblUpsert key r t) = insert r {x \<in> set t. key x \<noteq> key r}"
  by (auto simp: tblUpsert_def tblMerge_def tblHas_def intro: rev_image_eqI)

lemma set_tblUpdate: "set (tblUpdate P f t) = (\<lambda>x. if P x then f x else x) ` set t"
  by (simp add: tblUpdate_def)

lemma tblHas_insertIgnore: "tblHas key k (tblInsertIgnore key r t) \<longleftrightarrow> k = key r \<or> tblHas key k t"
  by (auto simp: tblInsertIgnore_def tblHas_def)

lemma insertIgnore_idem [simp]:
  "tblInsertIgnore key r (tblInsertIgnore key r t) = tblInsertIgnore key r t"
  by (auto simp: tblInsertIgnore_def tblHas_def)

lemma tblGet_fst: "tblGet fst i cs = Some p \<Longrightarrow> \<exists>ch. p = (i, ch)"
  by (cases p) (auto dest: tblGet_SomeD)

lemma tblHas_Some: "tblHas key k t \<longleftrightarrow> (\<exists>r. tblGet key k t = Some r)"
  using tblGet_None_iff [of key k t] by auto

lemma tblHas_get: "tblHas fst i cs \<longleftrightarrow> (\<exists>ch. tblGet fst i cs = Some (i, ch))"
  by (auto simp: tblHas_Some dest: tblGet_fst)

lemma tblHas_upsert: "tblHas key k (tblUpsert key r t) \<longleftrightarrow> k = key r \<or> tblHas key k t"
  by (auto simp: tblHas_Some tblGet_upsert)

lemma find_SomeD: "find P xs = Some x \<Longrightarrow> x \<in> set xs \<and> P x"
  by (induction xs) (auto split: if_splits)

end
