(* ===== verification/Interfaces.thy ===== *)
theory Interfaces
  imports Prelude
begin

text \<open>
  The contracts the components share, each as a locale: a keyed store (what a read
  returns after a write), an injective key format (a printer and a parser), the
  stale mark of a watched entity (set once, cleared only when the entity is seen)
  and a capped exponential backoff. Every locale is interpreted on the definitions
  of the components that provide it.
\<close>

subsection \<open>Keyed stores\<close>

text \<open>A table of rows with a primary key: \<open>lookup\<close> is the read and \<open>put\<close> the upsert.\<close>

locale keyed_table =
  fixes lookup :: "'s \<Rightarrow> 'k \<Rightarrow> 'v option"
    and put :: "'v \<Rightarrow> 's \<Rightarrow> 's"
    and vkey :: "'v \<Rightarrow> 'k"
    and inv :: "'s \<Rightarrow> bool"
  assumes lookup_put: "lookup (put v s) k = (if k = vkey v then Some v else lookup s k)"
    and inv_put: "inv s \<Longrightarrow> inv (put v s)"
begin

lemma lookup_put_same [simp]: "lookup (put v s) (vkey v) = Some v"
  by (simp add: lookup_put)

lemma fold_put_other: "k \<notin> vkey ` set vs \<Longrightarrow> lookup (fold put vs s) k = lookup s k"
  by (induction vs arbitrary: s) (auto simp: lookup_put)

lemma fold_put_last:
  "k \<notin> vkey ` set vs \<Longrightarrow> k = vkey v \<Longrightarrow> lookup (fold put (us @ v # vs) s) k = Some v"
  by (simp add: fold_put_other lookup_put)

lemma fold_put_distinct:
  "distinct (map vkey vs) \<Longrightarrow> v \<in> set vs \<Longrightarrow> lookup (fold put vs s) (vkey v) = Some v"
proof (induction vs arbitrary: s)
  case Nil
  then show ?case by simp
next
  case (Cons w vs)
  then show ?case
    by (cases "v = w") (auto simp: fold_put_other lookup_put image_iff)
qed

lemma inv_fold_put: "inv s \<Longrightarrow> inv (fold put vs s)"
  by (induction vs arbitrary: s) (auto simp: inv_put)

end

text \<open>A store whose rows can also be deleted by key.\<close>

locale keyed_store = keyed_table lookup put vkey inv
  for lookup :: "'s \<Rightarrow> 'k \<Rightarrow> 'v option"
    and put :: "'v \<Rightarrow> 's \<Rightarrow> 's"
    and vkey :: "'v \<Rightarrow> 'k"
    and inv :: "'s \<Rightarrow> bool" +
  fixes del :: "'k \<Rightarrow> 's \<Rightarrow> 's"
  assumes lookup_del: "lookup (del k' s) k = (if k = k' then None else lookup s k)"
    and inv_del: "inv s \<Longrightarrow> inv (del k s)"
begin

lemma fold_del: "lookup (fold del ks s) k = (if k \<in> set ks then None else lookup s k)"
  by (induction ks arbitrary: s) (auto simp: lookup_del)

lemma inv_fold_del: "inv s \<Longrightarrow> inv (fold del ks s)"
  by (induction ks arbitrary: s) (auto simp: inv_del)

lemma del_put: "lookup (del (vkey v) (put v s)) k = lookup (del (vkey v) s) k"
  by (simp add: lookup_del lookup_put)

end

subsection \<open>Key formats\<close>

text \<open>A printer and a parser that agree on the well-formed values.\<close>

locale key_format =
  fixes print_key :: "'a \<Rightarrow> string"
    and parse_key :: "string \<Rightarrow> 'a option"
    and wf :: "'a \<Rightarrow> bool"
  assumes parse_print: "wf x \<Longrightarrow> parse_key (print_key x) = Some x"
begin

lemma print_inj: "wf x \<Longrightarrow> wf y \<Longrightarrow> print_key x = print_key y \<Longrightarrow> x = y"
  by (metis option.inject parse_print)

lemma print_distinct: "distinct xs \<Longrightarrow> \<forall>x \<in> set xs. wf x \<Longrightarrow> distinct (map print_key xs)"
  by (simp add: distinct_map inj_on_def print_inj)

end

subsection \<open>Stale marks\<close>

text \<open>An entity that is watched: \<open>mark\<close> records the time of a failure, \<open>seen\<close> clears it.
  Marking never moves a mark that is already set.\<close>

locale stale_marks =
  fixes stale :: "'s \<Rightarrow> 'k \<Rightarrow> 't option"
    and tracked :: "'s \<Rightarrow> 'k \<Rightarrow> bool"
    and mark :: "'k \<Rightarrow> 't \<Rightarrow> 's \<Rightarrow> 's"
    and seen :: "'k \<Rightarrow> 't \<Rightarrow> 's \<Rightarrow> 's"
  assumes stale_mark: "tracked s k \<Longrightarrow>
      stale (mark k' t s) k = (if k = k' \<and> stale s k = None then Some t else stale s k)"
    and stale_seen: "tracked s k \<Longrightarrow> stale (seen k' t s) k = (if k = k' then None else stale s k)"
    and tracked_mark: "tracked s k \<Longrightarrow> tracked (mark k' t s) k"
    and tracked_seen: "tracked s k \<Longrightarrow> tracked (seen k' t s) k"
begin

lemma first_failure_kept:
  "tracked s k \<Longrightarrow> stale s k = Some t \<Longrightarrow> stale (fold (\<lambda>(k', t') u. mark k' t' u) ms s) k = Some t"
  by (induction ms arbitrary: s) (auto simp: stale_mark tracked_mark)

lemma outage_start:
  "tracked s k \<Longrightarrow> stale s k = None \<Longrightarrow> stale (fold (mark k) (t # ts) s) k = Some t"
proof -
  assume a: "tracked s k" "stale s k = None"
  have *: "stale (fold (mark k) ts u) k = Some t" if "tracked u k" "stale u k = Some t" for u
    using that by (induction ts arbitrary: u) (auto simp: stale_mark tracked_mark)
  show ?thesis using a by (simp add: * stale_mark tracked_mark)
qed

lemma recovery: "tracked s k \<Longrightarrow> stale (seen k t (fold (mark k) ts s)) k = None"
proof -
  assume a: "tracked s k"
  have "tracked (fold (mark k) ts s) k"
    using a by (induction ts arbitrary: s) (auto simp: tracked_mark)
  then show ?thesis by (simp add: stale_seen)
qed

end

subsection \<open>Capped exponential backoff\<close>

locale capped_backoff =
  fixes next_delay :: "int \<Rightarrow> int \<Rightarrow> int"
  assumes next_cap: "0 < b \<Longrightarrow> b \<le> m \<Longrightarrow> m < 2 ^ 62 \<Longrightarrow> next_delay b m = min (2 * b) m"
begin

lemma next_bounds: "0 < b \<Longrightarrow> b \<le> m \<Longrightarrow> m < 2 ^ 62 \<Longrightarrow> b \<le> next_delay b m \<and> next_delay b m \<le> m \<and> 0 < next_delay b m"
  by (simp add: next_cap)

lemma iterate: "0 < b \<Longrightarrow> b \<le> m \<Longrightarrow> m < 2 ^ 62 \<Longrightarrow> ((\<lambda>d. next_delay d m) ^^ n) b = min (b * 2 ^ n) m"
proof (induction n)
  case 0
  then show ?case by simp
next
  case (Suc n)
  have "0 < min (b * 2 ^ n) m" using Suc.prems by simp
  then have "next_delay (min (b * 2 ^ n) m) m = min (2 * min (b * 2 ^ n) m) m"
    using Suc.prems by (intro next_cap) auto
  with Suc show ?case by (auto simp: min_def)
qed

end

end
