(* ===== verification/GoTime.thy ===== *)
theory GoTime
  imports Interfaces
begin

text \<open>
  Instants and their text form. A \<open>time.Time\<close> in UTC is the number of nanoseconds since
  the Unix epoch, a \<open>time.Duration\<close> a number of nanoseconds. Package core and the plugins
  store instants as TEXT in the layout \<open>time.RFC3339Nano\<close> (\<open>core/time.go\<close>), so the layout
  and its parser are modelled: the proleptic Gregorian calendar by the 400/100/4/1-year
  cycles, the fraction with its trailing zeros dropped, and the parser's leniencies (a
  one-digit hour, a comma before the fraction, a numeric zone).
\<close>

type_synonym instant = int
type_synonym duration = int

definition nsPerSec :: int where "nsPerSec = 1000000000"

definition second :: duration where "second = nsPerSec"
definition millisecond :: duration where "millisecond = 1000000"
definition hour :: duration where "hour = 3600 * nsPerSec"

text \<open>\<open>time.Duration(n) * unit\<close>: int64 multiplication, which wraps.\<close>

definition durMul :: "int \<Rightarrow> duration \<Rightarrow> duration" where
  "durMul n unit = wrap64 (n * unit)"

text \<open>\<open>Time.Sub\<close> saturates at the ends of the int64 range.\<close>

definition timeSub :: "instant \<Rightarrow> instant \<Rightarrow> duration" where
  "timeSub a b = max (- (2 ^ 63)) (min (2 ^ 63 - 1) (a - b))"

subsection \<open>The calendar\<close>

definition leap :: "int \<Rightarrow> bool" where
  "leap y \<longleftrightarrow> y mod 4 = 0 \<and> (y mod 100 \<noteq> 0 \<or> y mod 400 = 0)"

definition monthLens :: "bool \<Rightarrow> int list" where
  "monthLens lp = [31, if lp then 29 else 28, 31, 30, 31, 30, 31, 31, 30, 31, 30, 31]"

fun findMonth :: "int \<Rightarrow> int list \<Rightarrow> int \<Rightarrow> int \<times> int" where
  "findMonth m [] d = (m, d)"
| "findMonth m (l # ls) d = (if d < l then (m, d) else findMonth (m + 1) ls (d - l))"

text \<open>Days before 1970-01-01 counted from 0001-01-01.\<close>

definition epochDays :: int where "epochDays = 719162"

definition civil :: "int \<Rightarrow> int \<times> int \<times> int" where
  "civil days =
     (let d0 = days + epochDays; era = d0 div 146097; d400 = d0 mod 146097;
          n1 = min 3 (d400 div 36524); d100 = d400 - 36524 * n1;
          n4 = d100 div 1461; d4 = d100 - 1461 * n4;
          n = min 3 (d4 div 365); yday = d4 - 365 * n;
          y = 400 * era + 100 * n1 + 4 * n4 + n + 1;
          (m, d) = findMonth 1 (monthLens (leap y)) yday
      in (y, m, d + 1))"

definition daysBefore :: "int \<Rightarrow> int \<Rightarrow> int" where
  "daysBefore y m = sum_list (take (nat (m - 1)) (monthLens (leap y)))"

definition daysFromCivil :: "int \<Rightarrow> int \<Rightarrow> int \<Rightarrow> int" where
  "daysFromCivil y m d =
     365 * (y - 1) + (y - 1) div 4 - (y - 1) div 100 + (y - 1) div 400 + daysBefore y m + (d - 1) - epochDays"

definition daysIn :: "int \<Rightarrow> int \<Rightarrow> int" where
  "daysIn y m = monthLens (leap y) ! nat (m - 1)"

subsection \<open>Formatting\<close>

fun padDigits :: "nat \<Rightarrow> nat \<Rightarrow> string" where
  "padDigits 0 n = []"
| "padDigits (Suc k) n = padDigits k (n div 10) @ [digitChar (n mod 10)]"

definition formatYear :: "int \<Rightarrow> string" where
  "formatYear y = (if y < 0 then CHR ''-'' # (if - y < 10000 then padDigits 4 (nat (- y)) else showNat (nat (- y)))
                   else if y < 10000 then padDigits 4 (nat y) else showNat (nat y))"

definition dropZeros :: "string \<Rightarrow> string" where
  "dropZeros ds = rev (dropWhile (\<lambda>c. c = CHR ''0'') (rev ds))"

definition formatFrac :: "int \<Rightarrow> string" where
  "formatFrac ns = (if ns = 0 then [] else CHR ''.'' # dropZeros (padDigits 9 (nat ns)))"

definition formatDateTime :: "instant \<Rightarrow> string" where
  "formatDateTime t =
     (let secs = t div nsPerSec; sod = secs mod 86400; (y, m, d) = civil (secs div 86400)
      in formatYear y @ ''-'' @ padDigits 2 (nat m) @ ''-'' @ padDigits 2 (nat d) @ ''T''
         @ padDigits 2 (nat (sod div 3600)) @ '':'' @ padDigits 2 (nat (sod mod 3600 div 60))
         @ '':'' @ padDigits 2 (nat (sod mod 60)))"

definition formatRFC3339 :: "instant \<Rightarrow> string" where
  "formatRFC3339 t = formatDateTime t @ ''Z''"

definition formatRFC3339Nano :: "instant \<Rightarrow> string" where
  "formatRFC3339Nano t = formatDateTime t @ formatFrac (t mod nsPerSec) @ ''Z''"

subsection \<open>Parsing\<close>

definition digits2 :: "string \<Rightarrow> (int \<times> string) option" where
  "digits2 s = (if 2 \<le> length s \<and> list_all isDigit (take 2 s) then Some (int (digitsVal (take 2 s)), drop 2 s) else None)"

definition digits4 :: "string \<Rightarrow> (int \<times> string) option" where
  "digits4 s = (if 4 \<le> length s \<and> list_all isDigit (take 4 s) then Some (int (digitsVal (take 4 s)), drop 4 s) else None)"

definition digits12 :: "string \<Rightarrow> (int \<times> string) option" where
  "digits12 s = (case digits2 s of Some r \<Rightarrow> Some r
     | None \<Rightarrow> (case s of c # cs \<Rightarrow> if isDigit c then Some (int (digitVal c), cs) else None | [] \<Rightarrow> None))"

definition expect :: "char \<Rightarrow> string \<Rightarrow> string option" where
  "expect c s = (case s of x # xs \<Rightarrow> if x = c then Some xs else None | [] \<Rightarrow> None)"

definition parseFrac :: "string \<Rightarrow> int \<times> string" where
  "parseFrac s =
     (case s of c # cs \<Rightarrow>
        let ds = takeWhile isDigit cs
        in if (c = CHR ''.'' \<or> c = CHR '','') \<and> ds \<noteq> []
           then (int (digitsVal (take 9 ds)) * 10 ^ (9 - length ds), dropWhile isDigit cs) else (0, s)
      | [] \<Rightarrow> (0, s))"

definition parseZone :: "string \<Rightarrow> (int \<times> string) option" where
  "parseZone s =
     (case s of [] \<Rightarrow> None
      | c # cs \<Rightarrow>
         if c = CHR ''Z'' then Some (0, cs)
         else if c = CHR ''+'' \<or> c = CHR ''-'' then
           Option.bind (digits2 cs) (\<lambda>(hr, r1). Option.bind (expect CHR '':'' r1) (\<lambda>r2.
             Option.bind (digits2 r2) (\<lambda>(mm, r3).
               if hr \<le> 24 \<and> mm \<le> 60
               then Some ((if c = CHR ''-'' then - 1 else 1) * (hr * 60 + mm) * 60, r3) else None)))
         else None)"

definition parseDate :: "string \<Rightarrow> ((int \<times> int \<times> int) \<times> string) option" where
  "parseDate s =
     Option.bind (digits4 s) (\<lambda>(y, s1). Option.bind (expect CHR ''-'' s1) (\<lambda>s2.
     Option.bind (digits2 s2) (\<lambda>(m, s3). if m < 1 \<or> 12 < m then None else
     Option.bind (expect CHR ''-'' s3) (\<lambda>s4. Option.bind (digits2 s4) (\<lambda>(d, s5).
     Some ((y, m, d), s5))))))"

definition parseClock :: "string \<Rightarrow> (int \<times> string) option" where
  "parseClock s =
     Option.bind (digits12 s) (\<lambda>(h, s1). if 23 < h then None else
     Option.bind (expect CHR '':'' s1) (\<lambda>s2. Option.bind (digits2 s2) (\<lambda>(mi, s3). if 59 < mi then None else
     Option.bind (expect CHR '':'' s3) (\<lambda>s4. Option.bind (digits2 s4) (\<lambda>(sc, s5). if 59 < sc then None else
     Some (h * 3600 + mi * 60 + sc, s5))))))"

text \<open>\<open>time.Parse\<close> with layout RFC3339 or RFC3339Nano: both accept a fraction.\<close>

definition parseRFC3339 :: "string \<Rightarrow> instant option" where
  "parseRFC3339 s =
     Option.bind (parseDate s) (\<lambda>((y, m, d), s1). Option.bind (expect CHR ''T'' s1) (\<lambda>s2.
     Option.bind (parseClock s2) (\<lambda>(sod, s3).
       let (ns, s4) = parseFrac s3 in
       Option.bind (parseZone s4) (\<lambda>(off, s5).
         if s5 \<noteq> [] \<or> d < 1 \<or> daysIn y m < d then None
         else Some ((daysFromCivil y m d * 86400 + sod - off) * nsPerSec + ns)))))"

text \<open>\<open>core/time.go\<close>.\<close>

definition timeLayout :: "instant \<Rightarrow> string" where
  "timeLayout t = formatRFC3339Nano t"

definition parseTime :: "string \<Rightarrow> instant option" where
  "parseTime s = parseRFC3339 s"

subsection \<open>Lemmas: the calendar\<close>


lemma div_bounds: "0 < (k::int) \<Longrightarrow> k * (x div k) \<le> x \<and> x < k * (x div k) + k"
  by (metis add.commute add_strict_left_mono le_add_same_cancel1 mult_div_mod_eq pos_mod_bound pos_mod_sign)

lemma div_unique_int: "k * q \<le> (x::int) \<Longrightarrow> x < k * q + k \<Longrightarrow> x div k = q"
  by (rule int_div_pos_eq [of x k q "x - k * q"]) simp_all

lemma cycle_ranges:
  fixes d400 q1 n1 d100 n4 d4 q n yd :: int
  assumes "0 \<le> d400" "d400 \<le> 146096"
    and "36524 * q1 \<le> d400" "d400 < 36524 * q1 + 36524" "n1 = min 3 q1" "d100 = d400 - 36524 * n1"
    and "1461 * n4 \<le> d100" "d100 < 1461 * n4 + 1461" "d4 = d100 - 1461 * n4"
    and "365 * q \<le> d4" "d4 < 365 * q + 365" "n = min 3 q" "yd = d4 - 365 * n"
  shows "0 \<le> n1" "n1 \<le> 3" "0 \<le> n4" "n4 \<le> 24" "0 \<le> n" "n \<le> 3" "0 \<le> yd" "yd \<le> 365"
    "yd = 365 \<Longrightarrow> n = 3 \<and> (n4 < 24 \<or> n1 = 3)"
proof -
  have r1: "0 \<le> n1" "n1 \<le> 3" "0 \<le> d100" "d100 \<le> 36524" "n1 < 3 \<Longrightarrow> d100 \<le> 36523"
    using assms(1-6) by linarith+
  have r4: "0 \<le> n4" "n4 \<le> 24" "0 \<le> d4" "d4 \<le> 1460" using r1(3,4) assms(7-9) by linarith+
  have rn: "0 \<le> n" "n \<le> 3" "0 \<le> yd" "yd \<le> 365" "n < 3 \<Longrightarrow> yd < 365" "yd = 365 \<Longrightarrow> d4 = 1460"
    using r4 assms(10-13) by linarith+
  show "0 \<le> n1" "n1 \<le> 3" "0 \<le> n4" "n4 \<le> 24" "0 \<le> n" "n \<le> 3" "0 \<le> yd" "yd \<le> 365"
    by (fact r1 r4 rn)+
  assume 365: "yd = 365"
  then have "n = 3" "d4 = 1460" using rn by linarith+
  moreover have "n4 < 24 \<or> n1 = 3" using r1 r4 \<open>d4 = 1460\<close> assms(9) by linarith
  ultimately show "n = 3 \<and> (n4 < 24 \<or> n1 = 3)" by simp
qed

lemma leap_last:
  fixes era n1 n4 :: int
  assumes "0 \<le> n1" "n1 \<le> 3" "0 \<le> n4" "n4 \<le> 24" "n4 < 24 \<or> n1 = 3"
  shows "leap (400 * era + 100 * n1 + 4 * n4 + 3 + 1)"
proof (cases "n4 = 24")
  case True
  with assms have "400 * era + 100 * n1 + 4 * n4 + 3 + 1 = 400 * (era + 1)" by simp
  then show ?thesis by (simp only: leap_def) (simp add: mod_mult_left_eq)
next
  case False
  have "400 * era + 100 * n1 + 4 * n4 + 3 + 1 = (4 * n4 + 4) + 100 * (4 * era + n1)" by simp
  then have "(400 * era + 100 * n1 + 4 * n4 + 3 + 1) mod 100 = 4 * n4 + 4"
    using assms False by (simp only: mod_mult_self2) simp
  moreover have "400 * era + 100 * n1 + 4 * n4 + 3 + 1 = 4 * (100 * era + 25 * n1 + n4 + 1)" by simp
  then have "(400 * era + 100 * n1 + 4 * n4 + 3 + 1) mod 4 = 0" by (simp only: mod_mult_self1_is_0)
  ultimately show ?thesis using assms by (simp add: leap_def)
qed

lemma cycle_year:
  fixes era n1 n4 n :: int
  assumes "0 \<le> n1" "n1 \<le> 3" "0 \<le> n4" "n4 \<le> 24" "0 \<le> n" "n \<le> 3" and y0: "y0 = 400 * era + 100 * n1 + 4 * n4 + n"
  shows "365 * y0 + y0 div 4 - y0 div 100 + y0 div 400 = 146097 * era + 36524 * n1 + 1461 * n4 + 365 * n"
proof -
  have "y0 div 4 = 100 * era + 25 * n1 + n4" by (rule div_unique_int) (use assms(1-6) in \<open>simp_all add: y0\<close>)
  moreover have "y0 div 100 = 4 * era + n1" by (rule div_unique_int) (use assms(1-6) in \<open>simp_all add: y0\<close>)
  moreover have "y0 div 400 = era" by (rule div_unique_int) (use assms(1-6) in \<open>simp_all add: y0\<close>)
  ultimately show ?thesis using y0 by simp
qed

lemma findMonth_spec:
  assumes "0 \<le> d" "d < sum_list ls" "\<forall>l \<in> set ls. 0 < l" "findMonth m ls d = (m', d')"
  shows "\<exists>k < length ls. m' = m + int k \<and> 0 \<le> d' \<and> d' < ls ! k \<and> d = sum_list (take k ls) + d'"
  using assms
proof (induction m ls d arbitrary: m' d' rule: findMonth.induct)
  case (1 m d)
  then show ?case by simp
next
  case (2 m l ls d)
  show ?case
  proof (cases "d < l")
    case True
    with 2 show ?thesis by (intro exI [of _ 0]) auto
  next
    case False
    with 2 obtain k where "k < length ls" "m' = m + 1 + int k" "0 \<le> d'" "d' < ls ! k"
      "d - l = sum_list (take k ls) + d'" by force
    then show ?thesis by (intro exI [of _ "Suc k"]) auto
  qed
qed

lemma civil_inverse:
  assumes "civil days = (y, m, d)"
  shows "daysFromCivil y m d = days \<and> 1 \<le> m \<and> m \<le> 12 \<and> 1 \<le> d \<and> d \<le> daysIn y m"
proof -
  define d0 where "d0 = days + epochDays"
  define d400 where "d400 = d0 mod 146097"
  define n1 where "n1 = min 3 (d400 div 36524)"
  define d100 where "d100 = d400 - 36524 * n1"
  define d4 where "d4 = d100 - 1461 * (d100 div 1461)"
  define n where "n = min 3 (d4 div 365)"
  define yd where "yd = d4 - 365 * n"
  define y0 where "y0 = 400 * (d0 div 146097) + 100 * n1 + 4 * (d100 div 1461) + n"
  note ds = d0_def d400_def n1_def d100_def d4_def n_def yd_def y0_def
  have d400: "0 \<le> d400" "d400 \<le> 146096" "d0 = 146097 * (d0 div 146097) + d400"
    using pos_mod_bound [of 146097 d0] unfolding d400_def by simp_all
  note rg = cycle_ranges [OF d400(1,2) div_bounds [THEN conjunct1] div_bounds [THEN conjunct2] n1_def d100_def
      div_bounds [THEN conjunct1] div_bounds [THEN conjunct2] d4_def
      div_bounds [THEN conjunct1] div_bounds [THEN conjunct2] n_def yd_def, simplified]
  have core: "0 \<le> yd" "yd < (if leap (y0 + 1) then 366 else 365)"
    "365 * y0 + y0 div 4 - y0 div 100 + y0 div 400 + yd = d0"
  proof -
    show "0 \<le> yd" by (rule rg)
    show "yd < (if leap (y0 + 1) then 366 else 365)"
      using rg(8,9) leap_last [OF rg(1-4)] by (fastforce simp: y0_def)
    show "365 * y0 + y0 div 4 - y0 div 100 + y0 div 400 + yd = d0"
      using cycle_year [OF rg(1-6) y0_def] d400(3) by (simp add: yd_def d4_def d100_def)
  qed
  obtain m' d' where fm: "findMonth 1 (monthLens (leap (y0 + 1))) yd = (m', d')" by force
  have yy: "y = y0 + 1" "m = m'" "d = d' + 1"
    using assms fm unfolding civil_def Let_def ds [symmetric] by (auto simp: split_beta)
  let ?ls = "monthLens (leap y)"
  have "yd < sum_list ?ls" "\<forall>l \<in> set ?ls. 0 < l" using core yy by (auto simp: monthLens_def)
  from findMonth_spec [OF core(1) this] fm yy obtain k where k: "k < length ?ls"
    "m = 1 + int k" "0 \<le> d'" "d' < ?ls ! k" "yd = sum_list (take k ?ls) + d'" by blast
  have "length ?ls = 12" by (simp add: monthLens_def)
  with k yy core show ?thesis
    by (auto simp: daysFromCivil_def daysBefore_def daysIn_def d0_def)
qed

subsection \<open>Lemmas: format and parse\<close>

lemma length_padDigits [simp]: "length (padDigits k n) = k"
  by (induction k arbitrary: n) auto

lemma padDigits_digits: "list_all isDigit (padDigits k n)"
  by (induction k arbitrary: n) auto

lemma digitsVal_padDigits [simp]: "digitsVal (padDigits k n) = n mod 10 ^ k"
proof (induction k arbitrary: n)
  case 0
  then show ?case by (simp add: digitsVal_def)
next
  case (Suc k)
  then show ?case
    by (simp add: digitsVal_snoc mod_mult2_eq)
qed

lemma digits2_pad [simp]: "n < 100 \<Longrightarrow> digits2 (padDigits 2 n @ r) = Some (int n, r)"
  using padDigits_digits [of 2 n] by (simp add: digits2_def)

lemma digits4_pad [simp]: "n < 10000 \<Longrightarrow> digits4 (padDigits 4 n @ r) = Some (int n, r)"
  using padDigits_digits [of 4 n] by (simp add: digits4_def)

lemma expect_Cons [simp]: "expect c (c # r) = Some r"
  by (simp add: expect_def)

lemma dropZeros_snoc: "dropZeros (ds @ [c]) = (if c = CHR ''0'' then dropZeros ds else ds @ [c])"
  by (simp add: dropZeros_def)

lemma dropZeros_Nil [simp]: "dropZeros [] = []"
  by (simp add: dropZeros_def)

lemma length_dropZeros: "length (dropZeros ds) \<le> length ds"
  by (induction ds rule: rev_induct) (auto simp: dropZeros_snoc)

lemma digitVal_0 [simp]: "digitVal CHR ''0'' = 0"
  by (simp add: digitVal_def)

lemma digitsVal_dropZeros:
  "digitsVal (dropZeros ds) * 10 ^ (length ds - length (dropZeros ds)) = digitsVal ds"
proof (induction ds rule: rev_induct)
  case Nil
  then show ?case by simp
next
  case (snoc c ds)
  then show ?case
    using length_dropZeros [of ds]
    by (auto simp: dropZeros_snoc digitsVal_snoc Suc_diff_le)
qed

lemma dropZeros_digits: "list_all isDigit ds \<Longrightarrow> list_all isDigit (dropZeros ds)"
  by (induction ds rule: rev_induct) (auto simp: dropZeros_snoc)

lemma isDigit_Z [simp]: "\<not> isDigit CHR ''Z''"
  by (simp add: isDigit_def)

lemma parseFrac_format:
  assumes "0 \<le> ns" "ns < 1000000000"
  shows "parseFrac (formatFrac ns @ ''Z'') = (ns, ''Z'')"
proof (cases "ns = 0")
  case True
  then show ?thesis by (simp add: formatFrac_def parseFrac_def)
next
  case False
  let ?p = "padDigits 9 (nat ns)" and ?ds = "dropZeros (padDigits 9 (nat ns))"
  have v: "digitsVal ?ds * 10 ^ (9 - length ?ds) = nat ns"
    using digitsVal_dropZeros [of ?p] assms by (simp del: padDigits.simps)
  have dig: "list_all isDigit ?ds" by (rule dropZeros_digits [OF padDigits_digits])
  have ne: "?ds \<noteq> []" using v False assms by (auto simp: digitsVal_def simp del: padDigits.simps)
  have len: "length ?ds \<le> 9" using length_dropZeros [of ?p] by (simp del: padDigits.simps)
  have "takeWhile isDigit (?ds @ ''Z'') = ?ds" "dropWhile isDigit (?ds @ ''Z'') = ''Z''"
    using dig by (auto simp: list_all_iff takeWhile_append2 dropWhile_append2 simp del: padDigits.simps)
  then have "parseFrac (formatFrac ns @ ''Z'') = (int (digitsVal ?ds * 10 ^ (9 - length ?ds)), ''Z'')"
    using False ne len by (simp add: formatFrac_def parseFrac_def Let_def del: padDigits.simps)
  then show ?thesis unfolding v using assms by simp
qed

lemma parseDate_format:
  assumes "0 \<le> y" "y \<le> 9999" "1 \<le> m" "m \<le> 12" "1 \<le> d" "d \<le> 31"
  shows "parseDate (formatYear y @ ''-'' @ padDigits 2 (nat m) @ ''-'' @ padDigits 2 (nat d) @ r) = Some ((y, m, d), r)"
  using assms by (simp add: parseDate_def formatYear_def del: padDigits.simps)

lemma parseClock_format:
  assumes "0 \<le> h" "h < 24" "0 \<le> mi" "mi < 60" "0 \<le> sc" "sc < 60"
  shows "parseClock (padDigits 2 (nat h) @ '':'' @ padDigits 2 (nat mi) @ '':'' @ padDigits 2 (nat sc) @ r) =
    Some (h * 3600 + mi * 60 + sc, r)"
  using assms by (simp add: parseClock_def digits12_def del: padDigits.simps)

text \<open>The instants whose year has four digits, the range the layout can express.\<close>

definition fourDigitYear :: "instant \<Rightarrow> bool" where
  "fourDigitYear t \<longleftrightarrow> (case civil (t div nsPerSec div 86400) of (y, _) \<Rightarrow> 0 \<le> y \<and> y \<le> 9999)"

lemma daysIn_le_31: "1 \<le> m \<Longrightarrow> m \<le> 12 \<Longrightarrow> daysIn y m \<le> 31"
proof -
  assume "1 \<le> m" "m \<le> 12"
  then have "nat (m - 1) < length (monthLens (leap y))" by (simp add: monthLens_def)
  then have "daysIn y m \<in> set (monthLens (leap y))" unfolding daysIn_def by (rule nth_mem)
  then show ?thesis by (auto simp: monthLens_def split: if_splits)
qed

lemma parse_split:
  assumes "fourDigitYear t" and frac: "parseFrac f = (ns, ''Z'')"
  shows "parseRFC3339 (formatDateTime t @ f) = Some (t div nsPerSec * nsPerSec + ns)"
proof -
  define secs where "secs = t div nsPerSec"
  define sod where "sod = secs mod 86400"
  obtain y m d where c: "civil (secs div 86400) = (y, m, d)" by (metis prod_cases3)
  have y: "0 \<le> y" "y \<le> 9999" using assms(1) c by (simp_all add: fourDigitYear_def secs_def)
  have inv: "daysFromCivil y m d = secs div 86400" "1 \<le> m" "m \<le> 12" "1 \<le> d" "d \<le> daysIn y m"
    using civil_inverse [OF c] by auto
  have d31: "d \<le> 31" using daysIn_le_31 [OF inv(2,3), of y] inv(5) by simp
  have sr: "0 \<le> sod" "sod < 86400" unfolding sod_def by simp_all
  have "sod div 3600 < 24" "sod mod 3600 div 60 < 60"
    using sr by (simp_all add: div_less_iff_less_mult zdiv_mono1)
  moreover have "0 \<le> sod div 3600" using sr by (simp add: pos_imp_zdiv_nonneg_iff)
  ultimately have pc: "parseClock (padDigits 2 (nat (sod div 3600)) @ '':'' @ padDigits 2 (nat (sod mod 3600 div 60))
      @ '':'' @ padDigits 2 (nat (sod mod 60)) @ f) = Some (sod div 3600 * 3600 + sod mod 3600 div 60 * 60 + sod mod 60, f)"
    by (intro parseClock_format) (simp_all add: pos_imp_zdiv_nonneg_iff)
  have sod3: "sod div 3600 * 3600 + sod mod 3600 div 60 * 60 + sod mod 60 = sod"
  proof -
    have "sod mod 60 = sod mod 3600 mod 60" by (simp add: mod_mod_cancel)
    then show ?thesis using div_mult_mod_eq [of sod 3600] div_mult_mod_eq [of "sod mod 3600" 60] by linarith
  qed
  have secs: "secs div 86400 * 86400 + sod = secs" unfolding sod_def by simp
  have "parseRFC3339 (formatDateTime t @ f) =
      Some ((daysFromCivil y m d * 86400 + sod) * nsPerSec + ns)"
    using parseDate_format [OF y inv(2-4) d31] pc inv(4,5) frac
    by (simp add: parseRFC3339_def formatDateTime_def secs_def [symmetric] sod_def [symmetric] c sod3
        parseZone_def Let_def del: padDigits.simps)
  then show ?thesis using inv(1) secs by (simp add: secs_def)
qed

lemma parseRFC3339_formatNano: "fourDigitYear t \<Longrightarrow> parseRFC3339 (formatRFC3339Nano t) = Some t"
  using parse_split [OF _ parseFrac_format, of t "t mod nsPerSec"]
  by (simp add: formatRFC3339Nano_def nsPerSec_def)

lemma parseRFC3339_format:
  "fourDigitYear t \<Longrightarrow> parseRFC3339 (formatRFC3339 t) = Some (t div nsPerSec * nsPerSec)"
  using parse_split [of t "''Z''" 0] by (simp add: formatRFC3339_def parseFrac_def)

interpretation tm: key_format formatRFC3339Nano parseRFC3339 fourDigitYear
  by unfold_locales (rule parseRFC3339_formatNano)

lemma fourDigitYear_epoch [simp]: "fourDigitYear 0"
  by code_simp

end
