(* ===== verification/CoreStore.thy ===== *)
theory CoreStore
  imports GoTime
begin

text \<open>
  \<open>core/envelope.go\<close> and \<open>core/store.go\<close>: the event envelope and the per-plugin SQLite base,
  with its numbered migrations, the fixed-capacity event ring and the cursor table. The
  tables are lists of rows; every statement runs under the failure schedule of
  \<open>Prelude\<close>, and a failed transaction leaves the tables as they were.
\<close>

record envelope =
  TS :: instant
  Source :: string
  EType :: string
  V :: int
  Key :: string
  Payload :: string

text \<open>A row of table \<open>events\<close>; the id is the AUTOINCREMENT primary key.\<close>

record event_row =
  rowId :: int
  rowTs :: string
  rowSource :: string
  rowType :: string
  rowV :: int
  rowKey :: string
  rowPayload :: string

text \<open>A \<open>Store\<close>: the ring capacity and the database it owns. \<open>tables\<close> names the tables that
  exist, \<open>lastId\<close> is the AUTOINCREMENT sequence.\<close>

record core_db = dbh +
  ringCapacity :: int
  tables :: "string list"
  schemaVersions :: "(int \<times> string) list"
  events :: "event_row list"
  lastId :: int
  cursors :: "(string \<times> string) list"

text \<open>A database file that does not exist yet.\<close>

definition freshDb :: "bool list \<Rightarrow> core_db" where
  "freshDb fs = \<lparr>faults = fs, ringCapacity = 0, tables = [], schemaVersions = [], events = [], lastId = 0, cursors = []\<rparr>"

definition createTable :: "string \<Rightarrow> 'a core_db_scheme \<Rightarrow> 'a core_db_scheme" where
  "createTable n s = s\<lparr>tables := (if n \<in> set (tables s) then tables s else tables s @ [n])\<rparr>"

subsection \<open>Migrations\<close>

text \<open>The numbered steps; the SQL text of a step is its effect on the schema.\<close>

definition coreMigrations :: "(int \<times> string list) list" where
  "coreMigrations = [(1, [''events'', ''cursors''])]"

text \<open>One step: skipped when its version is stamped; otherwise the schema change and the
  stamp commit together or not at all.\<close>

definition applyMigration ::
  "instant \<Rightarrow> int \<times> string list \<Rightarrow> 'a core_db_scheme \<Rightarrow> unit res \<times> 'a core_db_scheme" where
  "applyMigration now m s0 =
     (let (ok1, s1) = stmt s0 in
      if \<not> ok1 then (Inl ''core: read schema_version'', s1)
      else if tblHas fst (fst m) (schemaVersions s1) then (Inr (), s1)
      else let (ok2, s2) = stmt s1 in
      if \<not> ok2 then (Inl ''core: begin migration'', s2)
      else let (ok3, s3) = stmt s2 in
      if \<not> ok3 then (Inl ''core: migration'', s3)
      else let (ok4, s4) = stmt s3 in
      if \<not> ok4 then (Inl ''core: stamp schema_version'', s4)
      else let (ok5, s5) = stmt s4 in
      if \<not> ok5 then (Inl ''core: commit migration'', s5)
      else (Inr (), (fold createTable (snd m) s5)
              \<lparr>schemaVersions := schemaVersions s5 @ [(fst m, timeLayout now)]\<rparr>))"

fun applyMigrations ::
  "instant \<Rightarrow> (int \<times> string list) list \<Rightarrow> 'a core_db_scheme \<Rightarrow> unit res \<times> 'a core_db_scheme" where
  "applyMigrations now [] s = (Inr (), s)"
| "applyMigrations now (m # ms) s =
     (case applyMigration now m s of
        (Inl e, s') \<Rightarrow> (Inl e, s')
      | (Inr _, s') \<Rightarrow> applyMigrations now ms s')"

definition applyCoreMigrations :: "instant \<Rightarrow> 'a core_db_scheme \<Rightarrow> unit res \<times> 'a core_db_scheme" where
  "applyCoreMigrations now s =
     (let (ok, s1) = stmt s in
      if \<not> ok then (Inl ''core: create schema_version'', s1)
      else applyMigrations now coreMigrations (createTable ''schema_version'' s1))"

text \<open>\<open>OpenStore\<close>: \<open>mkOk\<close> and \<open>openOk\<close> say whether creating the data directory and opening the
  driver succeed; \<open>disk\<close> is the database file as the last process left it.\<close>

definition OpenStore ::
  "bool \<Rightarrow> bool \<Rightarrow> instant \<Rightarrow> int \<Rightarrow> 'a core_db_scheme \<Rightarrow> ('a core_db_scheme) res \<times> 'a core_db_scheme" where
  "OpenStore mkOk openOk now cap disk =
     (if \<not> mkOk then (Inl ''core: create data dir'', disk)
      else if \<not> openOk then (Inl ''core: open sqlite'', disk)
      else case applyCoreMigrations now (disk\<lparr>ringCapacity := cap\<rparr>) of
             (Inl e, s) \<Rightarrow> (Inl e, s)
           | (Inr _, s) \<Rightarrow> (Inr s, s))"

subsection \<open>The event ring\<close>

definition envRow :: "int \<Rightarrow> envelope \<Rightarrow> event_row" where
  "envRow i e = \<lparr>rowId = i, rowTs = timeLayout (TS e), rowSource = Source e, rowType = EType e,
     rowV = V e, rowKey = Key e, rowPayload = Payload e\<rparr>"

text \<open>\<open>DELETE FROM events WHERE id NOT IN (SELECT id ... ORDER BY id DESC LIMIT cap)\<close>.\<close>

definition pruneRing :: "int \<Rightarrow> event_row list \<Rightarrow> event_row list" where
  "pruneRing cap evs =
     (let keep = sqlLimit cap (rev (sort (map rowId evs)))
      in filter (\<lambda>r. rowId r \<in> set keep) evs)"

definition AppendEvent :: "envelope \<Rightarrow> 'a core_db_scheme \<Rightarrow> unit res \<times> 'a core_db_scheme" where
  "AppendEvent e s0 =
     (let (ok1, s1) = stmt s0 in
      if \<not> ok1 then (Inl ''core: begin append tx'', s1)
      else let (ok2, s2) = stmt s1 in
      if \<not> ok2 then (Inl ''core: insert event'', s2)
      else let (ok3, s3) = stmt s2 in
      if \<not> ok3 then (Inl ''core: prune ring'', s3)
      else let (ok4, s4) = stmt s3 in
      if \<not> ok4 then (Inl ''core: commit append'', s4)
      else (Inr (), s4\<lparr>lastId := lastId s4 + 1,
              events := pruneRing (ringCapacity s4) (events s4 @ [envRow (lastId s4 + 1) e])\<rparr>))"

text \<open>Scanning a row fails only when its time does not parse.\<close>

definition scanEvent :: "event_row \<Rightarrow> envelope option" where
  "scanEvent r = map_option (\<lambda>t. \<lparr>TS = t, Source = rowSource r, EType = rowType r, V = rowV r,
     Key = rowKey r, Payload = rowPayload r\<rparr>) (parseTime (rowTs r))"

fun scanEvents :: "event_row list \<Rightarrow> envelope list res" where
  "scanEvents [] = Inr []"
| "scanEvents (r # rs) =
     (case scanEvent r of
        None \<Rightarrow> Inl ''core: parse event ts''
      | Some e \<Rightarrow> (case scanEvents rs of Inl x \<Rightarrow> Inl x | Inr es \<Rightarrow> Inr (e # es)))"

text \<open>Newest first: \<open>ORDER BY id DESC LIMIT limit\<close>.\<close>

definition Events :: "int \<Rightarrow> 'a core_db_scheme \<Rightarrow> envelope list res \<times> 'a core_db_scheme" where
  "Events limit s0 =
     (let (ok1, s1) = stmt s0 in
      if \<not> ok1 then (Inl ''core: query events'', s1)
      else case scanEvents (sqlLimit limit (rev (sort_key rowId (events s1)))) of
             Inl x \<Rightarrow> (Inl x, s1)
           | Inr es \<Rightarrow>
               let (ok2, s2) = stmt s1 in
               if \<not> ok2 then (Inl ''core: iterate events'', s2) else (Inr es, s2))"

subsection \<open>Cursors\<close>

definition SetCursor :: "string \<Rightarrow> string \<Rightarrow> 'a core_db_scheme \<Rightarrow> unit res \<times> 'a core_db_scheme" where
  "SetCursor name val s =
     (let (ok, s1) = stmt s in
      if \<not> ok then (Inl ''core: set cursor'', s1)
      else (Inr (), s1\<lparr>cursors := tblUpsert fst (name, val) (cursors s1)\<rparr>))"

definition Cursor :: "string \<Rightarrow> 'a core_db_scheme \<Rightarrow> string res \<times> 'a core_db_scheme" where
  "Cursor name s =
     (let (ok, s1) = stmt s in
      if \<not> ok then (Inl ''core: read cursor'', s1)
      else (Inr (case tblGet fst name (cursors s1) of None \<Rightarrow> [] | Some r \<Rightarrow> snd r), s1))"

subsection \<open>Lemmas: the ring\<close>

text \<open>The ids of the ring ascend and never pass the AUTOINCREMENT sequence.\<close>

definition coreInv :: "'a core_db_scheme \<Rightarrow> bool" where
  "coreInv s \<longleftrightarrow> sorted_wrt (<) (map rowId (events s)) \<and> (\<forall>r \<in> set (events s). rowId r \<le> lastId s)
     \<and> tblInv fst (cursors s) \<and> tblInv fst (schemaVersions s)"

text \<open>The specification of the ring: the last \<open>cap\<close> elements of a list.\<close>

definition lastN :: "int \<Rightarrow> 'r list \<Rightarrow> 'r list" where
  "lastN cap xs = (if cap < 0 then xs else drop (length xs - nat cap) xs)"

text \<open>The committed effect of an append.\<close>

definition ringPush :: "envelope \<Rightarrow> 'a core_db_scheme \<Rightarrow> 'a core_db_scheme" where
  "ringPush e s = s\<lparr>lastId := lastId s + 1,
     events := lastN (ringCapacity s) (events s @ [envRow (lastId s + 1) e])\<rparr>"

lemma filter_keys_drop:
  "distinct (map f xs) \<Longrightarrow> filter (\<lambda>x. f x \<in> f ` set (drop k xs)) xs = drop k xs"
proof (induction xs arbitrary: k)
  case Nil
  then show ?case by simp
next
  case (Cons x xs)
  show ?case
  proof (cases k)
    case 0
    then show ?thesis by simp
  next
    case (Suc j)
    have "f x \<notin> f ` set (drop j xs)"
      using Cons.prems by (auto dest: in_set_dropD)
    with Suc Cons show ?thesis by simp
  qed
qed

lemma sorted_wrt_less_distinct: "sorted_wrt (<) (xs :: int list) \<Longrightarrow> sorted xs \<and> distinct xs"
  by (simp add: strict_sorted_iff)

lemma pruneRing_lastN:
  assumes "sorted_wrt (<) (map rowId evs)"
  shows "pruneRing cap evs = lastN cap evs"
proof -
  have s: "sort (map rowId evs) = map rowId evs" and d: "distinct (map rowId evs)"
    using sorted_wrt_less_distinct [OF assms] by (auto simp: sorted_sort_id)
  have t: "take n (rev (map rowId evs)) = rev (map rowId (drop (length evs - n) evs))" for n
    by (simp add: take_rev drop_map)
  show ?thesis
    using filter_keys_drop [OF d, of "length evs - nat cap"]
    by (simp add: pruneRing_def lastN_def s sqlLimit_def t)
qed

lemma coreInv_snoc:
  "coreInv s \<Longrightarrow> sorted_wrt (<) (map rowId (events s @ [envRow (lastId s + 1) e]))"
  by (auto simp: coreInv_def sorted_wrt_append envRow_def)

lemma AppendEvent_outcome:
  assumes "coreInv s"
  shows "(\<exists>x fs. AppendEvent e s = (Inl x, s\<lparr>faults := fs\<rparr>)) \<or>
         (\<exists>fs. AppendEvent e s = (Inr (), ringPush e (s\<lparr>faults := fs\<rparr>)))"
  using pruneRing_lastN [OF coreInv_snoc [OF assms], of "ringCapacity s" e]
  by (auto simp: AppendEvent_def stmt_alt ringPush_def split: list.splits bool.splits)

lemma AppendEvent_no_faults [simp]:
  "coreInv s \<Longrightarrow> faults s = [] \<Longrightarrow> AppendEvent e s = (Inr (), ringPush e s)"
  using pruneRing_lastN [OF coreInv_snoc, of s "ringCapacity s" e]
  by (simp add: AppendEvent_def ringPush_def)

lemma set_lastN: "set (lastN cap xs) \<subseteq> set xs"
  by (auto simp: lastN_def dest: in_set_dropD)

lemma length_lastN: "0 \<le> cap \<Longrightarrow> int (length (lastN cap xs)) \<le> cap"
  by (simp add: lastN_def)

lemma map_lastN: "map f (lastN cap xs) = lastN cap (map f xs)"
  by (simp add: lastN_def drop_map)

lemma lastN_snoc: "lastN cap (lastN cap xs @ [x]) = lastN cap (xs @ [x])"
proof (cases "cap \<le> 0 \<or> length xs < nat cap")
  case True
  then show ?thesis by (auto simp: lastN_def)
next
  case False
  then have "Suc (length xs) - (length xs - nat cap + nat cap) + (length xs - nat cap) = Suc (length xs) - nat cap"
    by (simp add: Suc_diff_le)
  with False show ?thesis by (simp add: lastN_def)
qed

lemma sorted_wrt_lastN: "sorted_wrt P xs \<Longrightarrow> sorted_wrt P (lastN cap xs)"
  by (simp add: lastN_def sorted_wrt_drop)

lemma rev_lastN: "rev (lastN cap xs) = sqlLimit cap (rev xs)"
  by (simp add: lastN_def sqlLimit_def take_rev)

lemma coreInv_ringPush [simp]:
  assumes "coreInv s"
  shows "coreInv (ringPush e s)"
proof -
  let ?evs = "events s @ [envRow (lastId s + 1) e]"
  have "sorted_wrt (<) (map rowId (lastN (ringCapacity s) ?evs))"
    using sorted_wrt_lastN [OF coreInv_snoc [OF assms, of e]] by (simp add: map_lastN)
  moreover have "rowId r \<le> lastId s + 1" if "r \<in> set (lastN (ringCapacity s) ?evs)" for r
  proof -
    have "r \<in> set ?evs" using that set_lastN [of "ringCapacity s" ?evs] by blast
    with assms show ?thesis by (auto simp: coreInv_def envRow_def)
  qed
  ultimately show ?thesis using assms by (simp add: coreInv_def ringPush_def)
qed

lemma coreInv_faults [simp]: "coreInv (s\<lparr>faults := fs\<rparr>) = coreInv s"
  by (simp add: coreInv_def)

lemma AppendEvent_inv: "coreInv s \<Longrightarrow> coreInv (snd (AppendEvent e s))"
  using AppendEvent_outcome [of s e] by auto

subsection \<open>Lemmas: reading the ring\<close>

lemma scanEvent_envRow [simp]: "fourDigitYear (TS e) \<Longrightarrow> scanEvent (envRow i e) = Some e"
  by (simp add: scanEvent_def envRow_def parseTime_def timeLayout_def tm.parse_print)

text \<open>Every stored row is the row of an event whose time has a four-digit year.\<close>

definition ringOf :: "'a core_db_scheme \<Rightarrow> envelope list \<Rightarrow> bool" where
  "ringOf s es \<longleftrightarrow> map scanEvent (events s) = map Some es"

lemma scanEvents_map: "map scanEvent rs = map Some es \<Longrightarrow> scanEvents rs = Inr es"
proof (induction rs arbitrary: es)
  case Nil
  then show ?case by simp
next
  case (Cons r rs)
  then show ?case by (cases es) auto
qed

lemma ringOf_push:
  "ringOf s es \<Longrightarrow> fourDigitYear (TS e) \<Longrightarrow> ringOf (ringPush e s) (lastN (ringCapacity s) (es @ [e]))"
  by (simp add: ringOf_def ringPush_def map_lastN)

lemma Events_ringOf:
  assumes "coreInv s" "ringOf s es" "faults s = []"
  shows "Events limit s = (Inr (sqlLimit limit (rev es)), s)"
proof -
  have "sorted (map rowId (events s))"
    using assms(1) by (simp add: coreInv_def strict_sorted_iff)
  then have "sort_key rowId (events s) = events s"
    by (rule sort_key_id_if_sorted)
  moreover have "map scanEvent (sqlLimit limit (rev (events s))) = map Some (sqlLimit limit (rev es))"
    using assms(2) by (simp add: ringOf_def sqlLimit_def take_map [symmetric] rev_map [symmetric])
  ultimately show ?thesis
    using assms(3) by (simp add: Events_def scanEvents_map)
qed

lemma fold_push:
  assumes "coreInv s" "faults s = []" "ringOf s []" "\<forall>e \<in> set es. fourDigitYear (TS e)"
  defines "t \<equiv> fold (\<lambda>e s. snd (AppendEvent e s)) es s"
  shows "coreInv t \<and> faults t = [] \<and> ringCapacity t = ringCapacity s \<and> ringOf t (lastN (ringCapacity s) es)"
  using assms(4) unfolding t_def
proof (induction es rule: rev_induct)
  case Nil
  with assms(1-3) show ?case by (simp add: lastN_def)
next
  case (snoc e es)
  let ?u = "fold (\<lambda>e s. snd (AppendEvent e s)) es s"
  have u: "coreInv ?u" "faults ?u = []" "ringCapacity ?u = ringCapacity s"
    "ringOf ?u (lastN (ringCapacity s) es)" using snoc by auto
  have "ringOf (ringPush e ?u) (lastN (ringCapacity s) (es @ [e]))"
    using ringOf_push [OF u(4), of e] snoc.prems by (simp add: u(3) lastN_snoc)
  with u show ?case by (simp, simp add: ringPush_def)
qed

subsection \<open>Lemmas: cursors and migrations\<close>

definition putCursor :: "string \<times> string \<Rightarrow> 'a core_db_scheme \<Rightarrow> 'a core_db_scheme" where
  "putCursor c s = s\<lparr>cursors := tblUpsert fst c (cursors s)\<rparr>"

definition cursorRow :: "'a core_db_scheme \<Rightarrow> string \<Rightarrow> (string \<times> string) option" where
  "cursorRow s n = tblGet fst n (cursors s)"

interpretation cur: keyed_table cursorRow putCursor fst coreInv
  by unfold_locales (auto simp: cursorRow_def putCursor_def tbl_simps coreInv_def)

lemma SetCursor_outcome:
  "(\<exists>fs. SetCursor n v s = (Inl ''core: set cursor'', s\<lparr>faults := fs\<rparr>)) \<or>
   (\<exists>fs. SetCursor n v s = (Inr (), putCursor (n, v) (s\<lparr>faults := fs\<rparr>)))"
  by (auto simp: SetCursor_def stmt_alt putCursor_def split: list.splits bool.splits)

lemma SetCursor_no_faults [simp]: "faults s = [] \<Longrightarrow> SetCursor n v s = (Inr (), putCursor (n, v) s)"
  by (simp add: SetCursor_def putCursor_def)

lemma SetCursor_inv: "coreInv s \<Longrightarrow> coreInv (snd (SetCursor n v s))"
  using SetCursor_outcome [of n v s] by (auto simp: cur.inv_put)

lemma Cursor_no_faults [simp]:
  "faults s = [] \<Longrightarrow> Cursor n s = (Inr (case cursorRow s n of None \<Rightarrow> [] | Some r \<Rightarrow> snd r), s)"
  by (simp add: Cursor_def cursorRow_def)

lemma faults_putCursor [simp]: "faults (putCursor c s) = faults s"
  by (simp add: putCursor_def)

lemma applyMigration_outcome:
  "(\<exists>x fs. applyMigration now m s = (Inl x, s\<lparr>faults := fs\<rparr>)) \<or>
   (tblHas fst (fst m) (schemaVersions s) \<and> (\<exists>fs. applyMigration now m s = (Inr (), s\<lparr>faults := fs\<rparr>))) \<or>
   (\<not> tblHas fst (fst m) (schemaVersions s) \<and>
      (\<exists>fs. applyMigration now m s = (Inr (), (fold createTable (snd m) (s\<lparr>faults := fs\<rparr>))
              \<lparr>schemaVersions := schemaVersions s @ [(fst m, timeLayout now)]\<rparr>)))"
  by (auto simp: applyMigration_def stmt_alt split: list.splits bool.splits)

lemma createTable_fields [simp]:
  "schemaVersions (createTable n s) = schemaVersions s" "faults (createTable n s) = faults s"
  "events (createTable n s) = events s" "lastId (createTable n s) = lastId s"
  "cursors (createTable n s) = cursors s" "ringCapacity (createTable n s) = ringCapacity s"
  by (simp_all add: createTable_def)

lemma fold_createTable_fields [simp]:
  "schemaVersions (fold createTable ns s) = schemaVersions s" "faults (fold createTable ns s) = faults s"
  "events (fold createTable ns s) = events s" "lastId (fold createTable ns s) = lastId s"
  "cursors (fold createTable ns s) = cursors s" "ringCapacity (fold createTable ns s) = ringCapacity s"
  by (induction ns arbitrary: s) simp_all

lemma fold_createTable_tables: "set (tables (fold createTable ns s)) = set (tables s) \<union> set ns"
  by (induction ns arbitrary: s) (auto simp: createTable_def)

text \<open>A stamped version has its tables: the stamp and the schema change commit together.\<close>

definition migInv :: "'a core_db_scheme \<Rightarrow> bool" where
  "migInv s \<longleftrightarrow> (\<forall>(v, ns) \<in> set coreMigrations. tblHas fst v (schemaVersions s) \<longrightarrow> set ns \<subseteq> set (tables s))"

lemma createTable_tables: "set (tables (createTable n s)) = insert n (set (tables s))"
  by (auto simp: createTable_def)

lemma createTable_present [simp]: "n \<in> set (tables s) \<Longrightarrow> createTable n s = s"
  by (simp add: createTable_def)

lemma applyCoreMigrations_cases:
  "(\<exists>x fs. applyCoreMigrations now s = (Inl x, s\<lparr>faults := fs\<rparr>)) \<or>
   (\<exists>x fs. applyCoreMigrations now s = (Inl x, createTable ''schema_version'' (s\<lparr>faults := fs\<rparr>))) \<or>
   (tblHas fst 1 (schemaVersions s) \<and>
      (\<exists>fs. applyCoreMigrations now s = (Inr (), createTable ''schema_version'' (s\<lparr>faults := fs\<rparr>)))) \<or>
   (\<not> tblHas fst 1 (schemaVersions s) \<and>
      (\<exists>fs. applyCoreMigrations now s = (Inr (),
         (fold createTable [''schema_version'', ''events'', ''cursors''] (s\<lparr>faults := fs\<rparr>))
              \<lparr>schemaVersions := schemaVersions s @ [(1, timeLayout now)]\<rparr>)))"
proof -
  have upd: "createTable n s \<lparr>faults := fs\<rparr> = createTable n (s\<lparr>faults := fs\<rparr>)" for n fs and s :: "'a core_db_scheme"
    by (simp add: createTable_def)
  show ?thesis
  proof (cases "fst (stmt s)")
    case False
    then show ?thesis
      by (cases s rule: stmt_obtain) (auto simp: applyCoreMigrations_def)
  next
    case True
    then obtain fs where "stmt s = (True, s\<lparr>faults := fs\<rparr>)"
      by (metis fst_conv stmt_obtain)
    then show ?thesis
      using applyMigration_outcome [of now "(1, [''events'', ''cursors''])" "createTable ''schema_version'' (s\<lparr>faults := fs\<rparr>)"]
      by (auto simp: applyCoreMigrations_def coreMigrations_def upd)
  qed
qed

text \<open>C5. An append commits or does nothing, whichever of its statements fails: on an error
  the ring, the sequence, the cursors and the schema are as before; otherwise the ring is the
  last \<open>ringCapacity\<close> of the old rows followed by the new one, under a fresh id. The
  invariant of the database holds after both, and the ring is never over its capacity.\<close>

theorem append_atomic_ring:
  assumes "coreInv s" and "0 \<le> ringCapacity s" and "int (length (events s)) \<le> ringCapacity s"
  shows "let (r, t) = AppendEvent e s in
     coreInv t \<and> int (length (events t)) \<le> ringCapacity t \<and>
     (case r of
        Inl _ \<Rightarrow> t = s\<lparr>faults := faults t\<rparr>
      | Inr _ \<Rightarrow> t = s\<lparr>faults := faults t, lastId := lastId s + 1,
                 events := lastN (ringCapacity s) (events s @ [envRow (lastId s + 1) e])\<rparr>)"
proof -
  from AppendEvent_outcome [OF assms(1), of e] show ?thesis
  proof (elim disjE exE)
    fix x fs
    assume "AppendEvent e s = (Inl x, s\<lparr>faults := fs\<rparr>)"
    with assms show ?thesis by simp
  next
    fix fs
    assume a: "AppendEvent e s = (Inr (), ringPush e (s\<lparr>faults := fs\<rparr>))"
    have "coreInv (ringPush e (s\<lparr>faults := fs\<rparr>))" using assms(1) by simp
    moreover have "int (length (events (ringPush e (s\<lparr>faults := fs\<rparr>)))) \<le> ringCapacity s"
      using assms(2) by (simp add: ringPush_def length_lastN)
    ultimately show ?thesis by (simp add: a) (simp add: ringPush_def)
  qed
qed

definition demoEvent :: "string \<Rightarrow> envelope" where
  "demoEvent k = \<lparr>TS = 0, Source = ''fakeok'', EType = ''tick'', V = 1, Key = k, Payload = ''{}''\<rparr>"

text \<open>At a ring of one row that holds an event, with a prune that fails.\<close>

theorem append_atomic_ring_witness:
  "let s = (freshDb [False, False, True])\<lparr>ringCapacity := 1, lastId := 1, events := [envRow 1 (demoEvent ''a'')]\<rparr>;
       (r, t) = AppendEvent (demoEvent ''b'') s
   in coreInv s \<and> r = Inl ''core: prune ring'' \<and> t = s\<lparr>faults := faults t\<rparr> \<and> coreInv t"
proof -
  let ?s = "(freshDb [False, False, True])\<lparr>ringCapacity := 1, lastId := 1, events := [envRow 1 (demoEvent ''a'')]\<rparr>"
  have i: "coreInv ?s" by (simp add: coreInv_def freshDb_def envRow_def)
  have r: "fst (AppendEvent (demoEvent ''b'') ?s) = Inl ''core: prune ring''"
    by (simp add: AppendEvent_def freshDb_def stmt_def)
  from append_atomic_ring [OF i, of "demoEvent ''b''"] r i show ?thesis
    by (auto simp: freshDb_def split: prod.splits sum.splits)
qed

text \<open>What is appended is read back: after any sequence of appends on an empty ring,
  \<open>Events\<close> returns the newest events first, as many as the limit and the capacity allow,
  every field of every event unchanged (years 0 to 9999).\<close>

theorem events_read_back:
  assumes "coreInv s" and "faults s = []" and "events s = []"
    and "\<forall>e \<in> set es. fourDigitYear (TS e)"
  shows "fst (Events limit (fold (\<lambda>e s. snd (AppendEvent e s)) es s)) =
    Inr (sqlLimit limit (sqlLimit (ringCapacity s) (rev es)))"
proof -
  have "ringOf s []" using assms(3) by (simp add: ringOf_def)
  from fold_push [OF assms(1,2) this assms(4)] show ?thesis
    by (simp add: Events_ringOf [of _ "lastN (ringCapacity s) es"] rev_lastN)
qed

theorem events_read_back_witness:
  "fst (Events 5 (fold (\<lambda>e s. snd (AppendEvent e s)) [demoEvent ''a'', demoEvent ''b'', demoEvent ''c'']
     (freshDb [] \<lparr>ringCapacity := 2\<rparr>))) = Inr [demoEvent ''c'', demoEvent ''b'']"
  using events_read_back [of "freshDb [] \<lparr>ringCapacity := 2\<rparr>" "[demoEvent ''a'', demoEvent ''b'', demoEvent ''c'']" 5]
  by (simp add: coreInv_def freshDb_def demoEvent_def sqlLimit_def)

text \<open>A cursor reads back as the last value set under its name, through any number of
  writes to other names; a name never set reads as the empty string.\<close>

theorem cursor_last_write:
  assumes "faults s = []" and "n \<notin> fst ` set later"
  shows "fst (Cursor n (fold (\<lambda>(m, w) s. snd (SetCursor m w s)) later (snd (SetCursor n v s)))) = Inr v
    \<and> (cursors s = [] \<longrightarrow> fst (Cursor n (fold (\<lambda>(m, w) s. snd (SetCursor m w s)) later s)) = Inr [])"
proof (intro conjI impI)
  have f: "faults u = [] \<Longrightarrow> faults (fold putCursor cs u) = []
      \<and> fold (\<lambda>(m, w) s. snd (SetCursor m w s)) cs u = fold putCursor cs u" for cs and u :: "'a core_db_scheme"
    by (induction cs arbitrary: u) auto
  have "cursorRow (fold putCursor later (putCursor (n, v) s)) n = Some (n, v)"
    using cur.fold_put_other [OF assms(2), of "putCursor (n, v) s"] cur.lookup_put_same [of "(n, v)" s] by simp
  with f [of "putCursor (n, v) s" later] assms(1)
  show "fst (Cursor n (fold (\<lambda>(m, w) s. snd (SetCursor m w s)) later (snd (SetCursor n v s)))) = Inr v"
    by simp
  assume "cursors s = []"
  then have "cursorRow (fold putCursor later s) n = None"
    using cur.fold_put_other [OF assms(2), of s] by (simp add: cursorRow_def)
  with f [of s later] assms(1)
  show "fst (Cursor n (fold (\<lambda>(m, w) s. snd (SetCursor m w s)) later s)) = Inr []"
    by simp
qed

theorem cursor_last_write_witness:
  "fst (Cursor ''redeliver'' (fold (\<lambda>(m, w) s. snd (SetCursor m w s)) [(''x'', ''7'')]
     (snd (SetCursor ''redeliver'' ''3'' (freshDb []))))) = Inr ''3''"
  using cursor_last_write [of "freshDb []" "''redeliver''" "[(''x'', ''7'')]" "''3''"]
  by (simp add: freshDb_def)

text \<open>Opening is safe to repeat and to interrupt: whatever statement of the migrations
  fails, no version is stamped whose tables do not exist and no row is lost; a run that
  succeeds leaves the three tables of the base, and a further run changes nothing.\<close>

theorem migrations_resumable:
  assumes "migInv s"
  shows "let (r, t) = applyCoreMigrations now s in
     migInv t \<and> events t = events s \<and> cursors t = cursors s \<and>
     (r = Inr () \<longrightarrow> {''schema_version'', ''events'', ''cursors''} \<subseteq> set (tables t) \<and>
        (\<forall>now'. applyCoreMigrations now' (t\<lparr>faults := []\<rparr>) = (Inr (), t\<lparr>faults := []\<rparr>)))"
proof -
  have again: "applyCoreMigrations now' (t\<lparr>faults := []\<rparr>) = (Inr (), t\<lparr>faults := []\<rparr>)"
    if "tblHas fst 1 (schemaVersions t)" "''schema_version'' \<in> set (tables t)" for t :: "'a core_db_scheme" and now'
    using that by (simp add: applyCoreMigrations_def coreMigrations_def applyMigration_def)
  obtain r t where rt: "applyCoreMigrations now s = (r, t)" by (cases "applyCoreMigrations now s")
  have "migInv t \<and> events t = events s \<and> cursors t = cursors s \<and>
      (r = Inr () \<longrightarrow> {''schema_version'', ''events'', ''cursors''} \<subseteq> set (tables t) \<and> tblHas fst 1 (schemaVersions t))"
    using applyCoreMigrations_cases [of now s] assms
    by (auto simp: rt migInv_def coreMigrations_def createTable_tables tblHas_def)
  with again [of t] show ?thesis by (auto simp: rt)
qed

theorem migrations_resumable_witness:
  "let s = freshDb [False, False, False, True];
       (r, t) = applyCoreMigrations 0 s
   in migInv s \<and> r = Inl ''core: migration'' \<and> migInv t"
proof -
  have "migInv (freshDb [False, False, False, True])" by (simp add: migInv_def freshDb_def coreMigrations_def)
  from migrations_resumable [OF this, of 0] this show ?thesis
    by (simp add: freshDb_def applyCoreMigrations_def applyMigration_def coreMigrations_def stmt_def Let_def
        split: prod.splits)
qed

end
