(* ===== verification/CoreBus.thy ===== *)
theory CoreBus
  imports CoreStore
begin

text \<open>
  \<open>core/bus.go\<close>: the fan-out bus. Every subscription owns one buffered channel; channels
  are kept in a heap of their own because a subscriber still drains its channel after the
  subscription is removed from the bus. A send on a closed channel and a second close are
  panics, the value \<open>None\<close>. The goroutines that run under the lock interleave freely: the
  step relation \<open>busReach\<close> records the trace of what happened, newest first.
\<close>

definition subBuffer :: nat where
  "subBuffer = 256"

record chan =
  buf :: "envelope list"
  closed :: bool

text \<open>\<open>watchers\<close> are the goroutines that wait for the end of a subscription's context.\<close>

record bus =
  nextSub :: int
  subs :: "int list"
  chans :: "(int \<times> chan) list"
  watchers :: "int list"

definition NewBus :: bus where
  "NewBus = \<lparr>nextSub = 0, subs = [], chans = [], watchers = []\<rparr>"

definition Subscribe :: "bus \<Rightarrow> int \<times> bus" where
  "Subscribe b =
     (let i = nextSub b
      in (i, b\<lparr>nextSub := wrap64 (i + 1),
               subs := (if i \<in> set (subs b) then subs b else subs b @ [i]),
               chans := tblUpsert fst (i, \<lparr>buf = [], closed = False\<rparr>) (chans b),
               watchers := watchers b @ [i]\<rparr>))"

text \<open>The goroutine of subscription \<open>i\<close> once its context is done.\<close>

definition unsubscribe :: "int \<Rightarrow> bus \<Rightarrow> bus option" where
  "unsubscribe i b =
     (case tblGet fst i (chans b) of
        None \<Rightarrow> None
      | Some (_, ch) \<Rightarrow>
          if closed ch then None
          else Some (b\<lparr>subs := removeAll i (subs b), watchers := remove1 i (watchers b),
                       chans := tblUpsert fst (i, ch\<lparr>closed := True\<rparr>) (chans b)\<rparr>))"

text \<open>\<open>select { case ch <- e: default: }\<close>.\<close>

definition trySend :: "envelope \<Rightarrow> chan \<Rightarrow> chan option" where
  "trySend e ch =
     (if closed ch then None
      else Some (if length (buf ch) < subBuffer then ch\<lparr>buf := buf ch @ [e]\<rparr> else ch))"

fun sendAll :: "envelope \<Rightarrow> int list \<Rightarrow> (int \<times> chan) list \<Rightarrow> (int \<times> chan) list option" where
  "sendAll e [] cs = Some cs"
| "sendAll e (i # is) cs =
     (case tblGet fst i cs of
        None \<Rightarrow> None
      | Some (_, ch) \<Rightarrow>
          (case trySend e ch of
             None \<Rightarrow> None
           | Some ch' \<Rightarrow> sendAll e is (tblUpsert fst (i, ch') cs)))"

definition publish :: "envelope \<Rightarrow> bus \<Rightarrow> bus option" where
  "publish e b = map_option (\<lambda>cs. b\<lparr>chans := cs\<rparr>) (sendAll e (subs b) (chans b))"

text \<open>A subscriber takes the oldest buffered event; a closed channel is drained first.\<close>

definition receive :: "int \<Rightarrow> bus \<Rightarrow> (envelope \<times> bus) option" where
  "receive i b =
     (case tblGet fst i (chans b) of
        None \<Rightarrow> None
      | Some (_, ch) \<Rightarrow>
          (case buf ch of
             [] \<Rightarrow> None
           | e # es \<Rightarrow> Some (e, b\<lparr>chans := tblUpsert fst (i, ch\<lparr>buf := es\<rparr>) (chans b)\<rparr>)))"

datatype bus_ev = EvSubscribe int | EvCancel int | EvPublish envelope | EvReceive int envelope

inductive busReach :: "bus_ev list \<Rightarrow> bus \<Rightarrow> bool" where
  init: "busReach [] NewBus"
| subscribe: "busReach tr b \<Longrightarrow> Subscribe b = (i, b') \<Longrightarrow> busReach (EvSubscribe i # tr) b'"
| cancel: "busReach tr b \<Longrightarrow> i \<in> set (watchers b) \<Longrightarrow> unsubscribe i b = Some b' \<Longrightarrow>
    busReach (EvCancel i # tr) b'"
| publish: "busReach tr b \<Longrightarrow> publish e b = Some b' \<Longrightarrow> busReach (EvPublish e # tr) b'"
| receive: "busReach tr b \<Longrightarrow> receive i b = Some (e, b') \<Longrightarrow> busReach (EvReceive i e # tr) b'"

subsection \<open>What a trace says of a subscription\<close>

fun live :: "int \<Rightarrow> bus_ev list \<Rightarrow> bool" where
  "live i [] = False"
| "live i (EvSubscribe j # tr) = (j = i \<or> live i tr)"
| "live i (EvCancel j # tr) = (j \<noteq> i \<and> live i tr)"
| "live i (_ # tr) = live i tr"

fun offered :: "int \<Rightarrow> bus_ev list \<Rightarrow> envelope list" where
  "offered i [] = []"
| "offered i (EvPublish e # tr) = offered i tr @ (if live i tr then [e] else [])"
| "offered i (_ # tr) = offered i tr"

fun received :: "int \<Rightarrow> bus_ev list \<Rightarrow> envelope list" where
  "received i [] = []"
| "received i (EvReceive j e # tr) = received i tr @ (if j = i then [e] else [])"
| "received i (_ # tr) = received i tr"

subsection \<open>The invariant\<close>

text \<open>What holds of one channel: bounded, in order, and complete while it was never offered
  more than its buffer holds.\<close>

definition chanOk :: "bus_ev list \<Rightarrow> int \<Rightarrow> chan \<Rightarrow> bool" where
  "chanOk tr i ch \<longleftrightarrow> length (buf ch) \<le> subBuffer \<and> closed ch = (\<not> live i tr)
     \<and> subseq (received i tr @ buf ch) (offered i tr)
     \<and> (length (offered i tr) \<le> subBuffer \<longrightarrow> received i tr @ buf ch = offered i tr)"

definition busInv :: "bus_ev list \<Rightarrow> bus \<Rightarrow> bool" where
  "busInv tr b \<longleftrightarrow> 0 \<le> nextSub b \<and> nextSub b \<le> int (length tr)
     \<and> distinct (subs b) \<and> watchers b = subs b \<and> (\<forall>i. i \<in> set (subs b) \<longleftrightarrow> live i tr)
     \<and> (\<forall>i. tblHas fst i (chans b) \<longleftrightarrow> 0 \<le> i \<and> i < nextSub b)
     \<and> (\<forall>i. \<not> tblHas fst i (chans b) \<longrightarrow> \<not> live i tr \<and> offered i tr = [] \<and> received i tr = [])
     \<and> (\<forall>i ch. tblGet fst i (chans b) = Some (i, ch) \<longrightarrow> chanOk tr i ch)"

text \<open>Sending to a list of distinct open channels cannot fail and touches each once.\<close>

definition sent :: "envelope \<Rightarrow> chan \<Rightarrow> chan" where
  "sent e ch = (if length (buf ch) < subBuffer then ch\<lparr>buf := buf ch @ [e]\<rparr> else ch)"

lemma sendAll_spec:
  assumes "distinct is" and "\<forall>i \<in> set is. \<exists>ch. tblGet fst i cs = Some (i, ch) \<and> \<not> closed ch"
  shows "\<exists>cs'. sendAll e is cs = Some cs' \<and>
    (\<forall>k. tblGet fst k cs' = (if k \<in> set is then map_option (\<lambda>(j, ch). (j, sent e ch)) (tblGet fst k cs) else tblGet fst k cs))"
  using assms
proof (induction "is" arbitrary: cs)
  case Nil
  then show ?case by simp
next
  case (Cons i "is")
  then obtain ch where ch: "tblGet fst i cs = Some (i, ch)" "\<not> closed ch" by auto
  let ?cs = "tblUpsert fst (i, sent e ch) cs"
  have "\<forall>j \<in> set is. \<exists>ch. tblGet fst j ?cs = Some (j, ch) \<and> \<not> closed ch"
    using Cons.prems by (auto simp: tblGet_upsert)
  with Cons obtain cs' where
    "sendAll e is ?cs = Some cs'"
    "\<forall>k. tblGet fst k cs' = (if k \<in> set is then map_option (\<lambda>(j, ch). (j, sent e ch)) (tblGet fst k ?cs) else tblGet fst k ?cs)"
    by (metis distinct.simps(2))
  with ch Cons.prems(1) show ?case
    by (auto simp: trySend_def sent_def tblGet_upsert)
qed

lemma subseq_snoc: "subseq xs ys \<Longrightarrow> subseq (xs @ [e]) (ys @ [e])"
  by (simp add: list_emb_append_mono)

lemma subseq_weaken: "subseq xs ys \<Longrightarrow> subseq xs (ys @ zs)"
  using list_emb_append2 subseq_order.trans by (metis list_emb_append_mono list_emb_Nil append_Nil2)

lemma chanOk_sent:
  assumes "chanOk tr i ch" "live i tr"
  shows "chanOk (EvPublish e # tr) i (sent e ch)"
proof -
  have "length (buf ch) < subBuffer" if "Suc (length (offered i tr)) \<le> subBuffer"
  proof -
    have "received i tr @ buf ch = offered i tr" using assms(1) that by (simp add: chanOk_def)
    then have "length (received i tr) + length (buf ch) = length (offered i tr)"
      by (metis length_append)
    with that show ?thesis by simp
  qed
  with assms show ?thesis
    using subseq_snoc [of "received i tr @ buf ch" "offered i tr" e]
      subseq_weaken [of "received i tr @ buf ch" "offered i tr" "[e]"]
    by (auto simp: chanOk_def sent_def)
qed

lemma chanOk_dead: "chanOk tr i ch \<Longrightarrow> \<not> live i tr \<Longrightarrow> chanOk (EvPublish e # tr) i ch"
  by (simp add: chanOk_def)

lemma publish_inv:
  assumes "busInv tr b"
  shows "\<exists>b'. publish e b = Some b' \<and> busInv (EvPublish e # tr) b'"
proof -
  have "\<forall>i \<in> set (subs b). \<exists>ch. tblGet fst i (chans b) = Some (i, ch) \<and> \<not> closed ch"
    using assms by (metis busInv_def chanOk_def tblHas_get)
  moreover have "distinct (subs b)" using assms by (simp add: busInv_def)
  ultimately obtain cs' where cs: "sendAll e (subs b) (chans b) = Some cs'"
    "\<And>k. tblGet fst k cs' = (if k \<in> set (subs b) then map_option (\<lambda>(j, ch). (j, sent e ch)) (tblGet fst k (chans b)) else tblGet fst k (chans b))"
    using sendAll_spec by blast
  have has: "tblHas fst k cs' = tblHas fst k (chans b)" for k
    using cs(2) [of k] tblGet_None_iff [of fst k cs'] tblGet_None_iff [of fst k "chans b"]
    by (auto split: if_splits)
  have "chanOk (EvPublish e # tr) k ch" if "tblGet fst k cs' = Some (k, ch)" for k ch
  proof (cases "k \<in> set (subs b)")
    case True
    with that cs(2) [of k] obtain c where "tblGet fst k (chans b) = Some (k, c)" "ch = sent e c" by auto
    with True assms show ?thesis by (simp add: busInv_def chanOk_sent)
  next
    case False
    with that cs(2) [of k] assms show ?thesis by (auto simp: busInv_def intro!: chanOk_dead)
  qed
  with has cs(1) assms show ?thesis by (auto simp: publish_def busInv_def)
qed

lemma busInv_no_wrap: "busInv tr b \<Longrightarrow> int (length tr) < 2 ^ 63 - 1 \<Longrightarrow> wrap64 (nextSub b + 1) = nextSub b + 1"
  by (intro wrap64_id) (simp add: busInv_def in64_def)

lemma Subscribe_inv:
  assumes "busInv tr b" "Subscribe b = (i, b')" "int (length tr) < 2 ^ 63 - 1"
  shows "busInv (EvSubscribe i # tr) b'"
proof -
  have n: "wrap64 (nextSub b + 1) = nextSub b + 1" using busInv_no_wrap assms(1,3) by blast
  have i: "i = nextSub b" using assms(2) by (simp add: Subscribe_def Let_def)
  have fresh: "\<not> tblHas fst i (chans b)" using assms(1) i by (auto simp: busInv_def)
  then have tr: "\<not> live i tr" "offered i tr = []" "received i tr = []" using assms(1) by (auto simp: busInv_def)
  have "i \<notin> set (subs b)" using tr assms(1) by (auto simp: busInv_def)
  with assms tr fresh show ?thesis
    by (auto simp: busInv_def Subscribe_def Let_def n i tblHas_upsert tblGet_upsert chanOk_def split: if_splits)
qed

lemma unsubscribe_inv:
  assumes "busInv tr b" "i \<in> set (watchers b)"
  shows "\<exists>b'. unsubscribe i b = Some b' \<and> busInv (EvCancel i # tr) b'"
proof -
  have l: "live i tr" using assms by (auto simp: busInv_def)
  then obtain ch where ch: "tblGet fst i (chans b) = Some (i, ch)" using assms(1) tblHas_get by (metis busInv_def)
  then have "\<not> closed ch" "chanOk tr i ch" using assms(1) l by (auto simp: busInv_def chanOk_def)
  with ch assms l show ?thesis
    by (auto simp: unsubscribe_def busInv_def tblHas_upsert tblGet_upsert chanOk_def distinct_remove1_removeAll [symmetric] distinct_remove1 tblHas_get)
qed

lemma receive_inv:
  assumes "busInv tr b" "receive i b = Some (e, b')"
  shows "busInv (EvReceive i e # tr) b'"
proof -
  obtain ch es where ch: "tblGet fst i (chans b) = Some (i, ch)" "buf ch = e # es"
      "b' = b\<lparr>chans := tblUpsert fst (i, ch\<lparr>buf := es\<rparr>) (chans b)\<rparr>"
    using assms(2) by (auto simp: receive_def split: option.splits list.splits dest: tblGet_fst)
  moreover have "chanOk tr i ch" using assms(1) ch(1) by (simp add: busInv_def)
  moreover have "tblHas fst i (chans b)" using ch(1) tblHas_get by metis
  ultimately show ?thesis
    using assms(1) by (auto simp: busInv_def tblHas_upsert tblGet_upsert chanOk_def)
qed

lemma busInv_init: "busInv [] NewBus"
  by (simp add: busInv_def NewBus_def)

lemma busReach_inv:
  "busReach tr b \<Longrightarrow> int (length tr) < 2 ^ 63 \<Longrightarrow> busInv tr b"
proof (induction rule: busReach.induct)
  case init
  show ?case by (rule busInv_init)
next
  case (subscribe tr b i b')
  then show ?case by (intro Subscribe_inv) auto
next
  case (cancel tr b i b')
  then have "busInv tr b" by simp
  with unsubscribe_inv [of tr b i] cancel show ?case by auto
next
  case (publish tr b e b')
  then have "busInv tr b" by simp
  with publish_inv [of tr b e] publish show ?case by auto
next
  case (receive tr b i e b')
  then show ?case by (intro receive_inv) auto
qed

lemma busInv_live: "busInv tr b \<Longrightarrow> live i tr \<Longrightarrow> tblHas fst i (chans b)"
  unfolding busInv_def by blast

text \<open>However subscriptions, cancellations, publishes and reads interleave, a publish
  never blocks and never panics on a closed channel, and the goroutine that ends a
  subscription never closes a channel twice.\<close>

theorem bus_never_stuck:
  assumes "busReach tr b" and "int (length tr) < 2 ^ 63"
  shows "(\<exists>b'. publish e b = Some b') \<and> (\<forall>i \<in> set (watchers b). \<exists>b'. unsubscribe i b = Some b')"
  using busReach_inv [OF assms] publish_inv [of tr b e] unsubscribe_inv [of tr b] by blast

theorem bus_never_stuck_witness:
  "\<exists>b. busReach [EvCancel 0, EvPublish (demoEvent ''a''), EvSubscribe 0] b \<and> (\<exists>b'. publish (demoEvent ''b'') b = Some b')"
proof -
  obtain b1 where b1: "Subscribe NewBus = (0, b1)" by (simp add: Subscribe_def NewBus_def Let_def)
  then have r1: "busReach [EvSubscribe 0] b1" by (rule busReach.subscribe [OF busReach.init])
  obtain b2 where b2: "publish (demoEvent ''a'') b1 = Some b2"
    using publish_inv [OF busReach_inv [OF r1]] by fastforce
  then have r2: "busReach [EvPublish (demoEvent ''a''), EvSubscribe 0] b2" by (rule busReach.publish [OF r1])
  have w: "0 \<in> set (watchers b2)" using busReach_inv [OF r2] by (simp add: busInv_def)
  then obtain b3 where "unsubscribe 0 b2 = Some b3" using unsubscribe_inv [OF busReach_inv [OF r2]] by fastforce
  then have r3: "busReach [EvCancel 0, EvPublish (demoEvent ''a''), EvSubscribe 0] b3"
    by (rule busReach.cancel [OF r2 w])
  with bus_never_stuck [OF r3, of "demoEvent ''b''"] show ?thesis by auto
qed

text \<open>What a subscriber sees: at most \<open>subBuffer\<close> events wait for it; those it has read
  followed by those that wait are a subsequence, in publish order and without repetition of
  an offer, of what was published while it was subscribed; and one that was offered no more
  than \<open>subBuffer\<close> events has lost none.\<close>

theorem bus_delivery:
  assumes "busReach tr b" and "int (length tr) < 2 ^ 63" and "tblGet fst i (chans b) = Some (i, ch)"
  shows "length (buf ch) \<le> subBuffer \<and> subseq (received i tr @ buf ch) (offered i tr)
    \<and> (length (offered i tr) \<le> subBuffer \<longrightarrow> received i tr @ buf ch = offered i tr)"
  using busReach_inv [OF assms(1,2)] assms(3) by (simp add: busInv_def chanOk_def)

theorem bus_delivery_witness:
  "\<exists>b ch. busReach [EvPublish (demoEvent ''a''), EvSubscribe 0] b \<and> tblGet fst 0 (chans b) = Some (0, ch)
     \<and> buf ch = [demoEvent ''a'']"
proof -
  obtain b1 where b1: "Subscribe NewBus = (0, b1)" by (simp add: Subscribe_def NewBus_def Let_def)
  then have r1: "busReach [EvSubscribe 0] b1" by (rule busReach.subscribe [OF busReach.init])
  obtain b2 where b2: "publish (demoEvent ''a'') b1 = Some b2"
    using publish_inv [OF busReach_inv [OF r1]] by fastforce
  then have r2: "busReach [EvPublish (demoEvent ''a''), EvSubscribe 0] b2" by (rule busReach.publish [OF r1])
  have "live 0 [EvPublish (demoEvent ''a''), EvSubscribe 0]" by simp
  with busInv_live [OF busReach_inv [OF r2]] have "tblHas fst 0 (chans b2)" by simp
  then obtain ch where ch: "tblGet fst 0 (chans b2) = Some (0, ch)" unfolding tblHas_get by (rule exE)
  have "buf ch = [demoEvent ''a'']" using bus_delivery [OF r2 _ ch] by (simp add: subBuffer_def)
  with r2 ch show ?thesis by blast
qed

end
