(* ===== verification/CoreHealth.thy ===== *)
theory CoreHealth
  imports GoTime "HOL-Library.Multiset"
begin

text \<open>
  \<open>core/health.go\<close>, \<open>core/heartbeat.go\<close> and \<open>core/registry.go\<close>: the freshness signal of every
  plugin and the state derived from it, the emit counter of a plugin and the registry of
  factories. A cursor function reads the plugin's memory: it is a function of the \<open>'w\<close> the
  snapshot is taken in. Lags are exact nanoseconds; \<open>Seconds()\<close> orders distinct durations
  below \<open>2 ^ 23\<close> seconds as their nanoseconds.
\<close>

datatype HealthState = HealthStarting | HealthOK | HealthStale

record 'w pluginHealth =
  lastEventAt :: "instant option"
  cursorFn :: "('w \<Rightarrow> string) option"
  forcedStale :: bool

record 'w aggregator =
  threshold :: duration
  plugins :: "(string \<times> 'w pluginHealth) list"

record HealthStatus =
  hsPlugin :: string
  hsLastEventAt :: "instant option"
  hsCursor :: string
  hsLag :: duration
  hsState :: HealthState

definition NewHealthAggregator :: "duration \<Rightarrow> 'w aggregator" where
  "NewHealthAggregator d = \<lparr>threshold = d, plugins = []\<rparr>"

definition entry :: "string \<Rightarrow> 'w aggregator \<Rightarrow> 'w pluginHealth" where
  "entry name h = (case tblGet fst name (plugins h) of
     None \<Rightarrow> \<lparr>lastEventAt = None, cursorFn = None, forcedStale = False\<rparr> | Some (_, p) \<Rightarrow> p)"

definition setEntry :: "string \<Rightarrow> 'w pluginHealth \<Rightarrow> 'w aggregator \<Rightarrow> 'w aggregator" where
  "setEntry name p h = h\<lparr>plugins := tblUpsert fst (name, p) (plugins h)\<rparr>"

definition MarkStarting :: "string \<Rightarrow> 'w aggregator \<Rightarrow> 'w aggregator" where
  "MarkStarting name h = setEntry name ((entry name h)\<lparr>forcedStale := False\<rparr>) h"

definition Record :: "string \<Rightarrow> instant \<Rightarrow> 'w aggregator \<Rightarrow> 'w aggregator" where
  "Record name at h = setEntry name ((entry name h)\<lparr>lastEventAt := Some at\<rparr>) h"

definition MarkStale :: "string \<Rightarrow> 'w aggregator \<Rightarrow> 'w aggregator" where
  "MarkStale name h = setEntry name ((entry name h)\<lparr>forcedStale := True\<rparr>) h"

definition SetCursorFunc :: "string \<Rightarrow> ('w \<Rightarrow> string) \<Rightarrow> 'w aggregator \<Rightarrow> 'w aggregator" where
  "SetCursorFunc name fn h = setEntry name ((entry name h)\<lparr>cursorFn := Some fn\<rparr>) h"

definition statusOf :: "instant \<Rightarrow> 'w \<Rightarrow> duration \<Rightarrow> string \<times> 'w pluginHealth \<Rightarrow> HealthStatus" where
  "statusOf now w thr np =
     (let (name, p) = np;
          cursor = (case cursorFn p of None \<Rightarrow> [] | Some fn \<Rightarrow> fn w);
          (lag, st) =
            (if forcedStale p then (0, HealthStale)
             else case lastEventAt p of
                    None \<Rightarrow> (0, HealthStarting)
                  | Some t \<Rightarrow> let l = timeSub now t in (l, if l > thr then HealthStale else HealthOK))
      in \<lparr>hsPlugin = name, hsLastEventAt = lastEventAt p, hsCursor = cursor, hsLag = lag, hsState = st\<rparr>)"

definition Snapshot :: "instant \<Rightarrow> 'w \<Rightarrow> 'w aggregator \<Rightarrow> HealthStatus list" where
  "Snapshot now w h = sort_key hsPlugin (map (statusOf now w (threshold h)) (plugins h))"

subsection \<open>Heartbeat\<close>

text \<open>The zero \<open>time.Time\<close> of a heartbeat that never fired is \<open>None\<close>.\<close>

record heartbeat =
  count :: int
  last :: "instant option"

definition Mark :: "instant \<Rightarrow> heartbeat \<Rightarrow> (int \<times> instant) \<times> heartbeat" where
  "Mark now h = (let c = wrap64 (count h + 1) in ((c, now), \<lparr>count = c, last = Some now\<rparr>))"

subsection \<open>Registry\<close>

text \<open>\<open>None\<close> is the panic of a duplicate registration.\<close>

definition Register :: "string \<Rightarrow> 'f \<Rightarrow> (string \<times> 'f) list \<Rightarrow> (string \<times> 'f) list option" where
  "Register name f fs = (if tblHas fst name fs then None else Some (fs @ [(name, f)]))"

definition SortedFactoryNames :: "(string \<times> 'f) list \<Rightarrow> string list" where
  "SortedFactoryNames m = sort (map fst m)"

subsection \<open>Lemmas\<close>

lemma entry_setEntry [simp]: "entry n (setEntry m p h) = (if n = m then p else entry n h)"
  by (simp add: entry_def setEntry_def tblGet_upsert)

lemma threshold_setEntry [simp]: "threshold (setEntry m p h) = threshold h"
  by (simp add: setEntry_def)

lemma inv_setEntry [simp]: "tblInv fst (plugins h) \<Longrightarrow> tblInv fst (plugins (setEntry m p h))"
  by (simp add: setEntry_def)

lemma has_setEntry [simp]: "tblHas fst n (plugins (setEntry m p h)) \<longleftrightarrow> n = m \<or> tblHas fst n (plugins h)"
  by (simp add: setEntry_def tblHas_upsert)

lemmas health_ops = MarkStarting_def Record_def MarkStale_def SetCursorFunc_def

interpretation ht: keyed_table "\<lambda>h n. tblGet fst n (plugins h)" "\<lambda>(n, p). setEntry n p" fst "\<lambda>h. tblInv fst (plugins h)"
  by unfold_locales (auto simp: setEntry_def tblGet_upsert split: prod.splits)

text \<open>The operations of the aggregator, as the supervisor and the emit path call them.\<close>

datatype 'w health_op = HStarting string | HRecord string instant | HStale string | HCursor string "'w \<Rightarrow> string"

fun healthStep :: "'w health_op \<Rightarrow> 'w aggregator \<Rightarrow> 'w aggregator" where
  "healthStep (HStarting n) = MarkStarting n"
| "healthStep (HRecord n t) = Record n t"
| "healthStep (HStale n) = MarkStale n"
| "healthStep (HCursor n f) = SetCursorFunc n f"

lemma healthStep_inv: "tblInv fst (plugins h) \<Longrightarrow> tblInv fst (plugins (healthStep op h))"
  by (cases op) (simp_all add: health_ops)

lemma healthSteps_inv: "tblInv fst (plugins h) \<Longrightarrow> tblInv fst (plugins (fold healthStep ops h))"
  by (induction ops arbitrary: h) (simp_all add: healthStep_inv)

lemma healthStep_stale:
  "op \<noteq> HStarting n \<Longrightarrow> forcedStale (entry n h) \<Longrightarrow> forcedStale (entry n (healthStep op h))"
  by (cases op) (auto simp: health_ops)

lemma healthSteps_stale:
  "HStarting n \<notin> set ops \<Longrightarrow> forcedStale (entry n h) \<Longrightarrow> forcedStale (entry n (fold healthStep ops h))"
  by (induction ops arbitrary: h) (auto simp: healthStep_stale)

lemma healthStep_has: "tblHas fst n (plugins h) \<Longrightarrow> tblHas fst n (plugins (healthStep op h))"
  by (cases op) (auto simp: health_ops)

lemma healthSteps_has: "tblHas fst n (plugins h) \<Longrightarrow> tblHas fst n (plugins (fold healthStep ops h))"
  by (induction ops arbitrary: h) (auto simp: healthStep_has)

lemma tracked_entry: "tblHas fst n (plugins h) \<Longrightarrow> (n, entry n h) \<in> set (plugins h)"
  by (auto simp: entry_def tblHas_get dest: tblGet_SomeD)

lemma set_Snapshot: "set (Snapshot now w h) = statusOf now w (threshold h) ` set (plugins h)"
  by (simp add: Snapshot_def)

lemma hsPlugin_statusOf [simp]: "hsPlugin (statusOf now w thr np) = fst np"
  by (auto simp: statusOf_def split: prod.splits)

lemma names_Snapshot: "map hsPlugin (Snapshot now w h) = sort (map fst (plugins h))"
proof -
  have c: "hsPlugin \<circ> statusOf now w (threshold h) = fst" by auto
  have "mset (map hsPlugin (Snapshot now w h)) = mset (map fst (plugins h))"
    by (simp add: Snapshot_def mset_map image_mset.compositionality c)
  moreover have "sorted (map hsPlugin (Snapshot now w h))"
    by (simp add: Snapshot_def)
  ultimately show ?thesis
    by (metis properties_for_sort)
qed

lemma inv_entry: "tblInv fst (plugins h) \<Longrightarrow> (n, p) \<in> set (plugins h) \<Longrightarrow> p = entry n h"
  using tblInv_get [of fst "plugins h" n "(n, p)"] by (simp add: entry_def)

lemma statusOf_state:
  "hsState (statusOf now w thr (n, p)) =
     (if forcedStale p then HealthStale
      else case lastEventAt p of None \<Rightarrow> HealthStarting
           | Some t \<Rightarrow> if timeSub now t > thr then HealthStale else HealthOK)"
  by (auto simp: statusOf_def Let_def split: option.splits)

text \<open>A snapshot lists every plugin exactly once in name order, and its state follows the
  precedence forced-stale, then no event yet, then lag over the threshold, then ok.\<close>

theorem snapshot_precedence:
  assumes "tblInv fst (plugins h)"
  shows "sorted (map hsPlugin (Snapshot now w h)) \<and> distinct (map hsPlugin (Snapshot now w h))
    \<and> set (map hsPlugin (Snapshot now w h)) = fst ` set (plugins h)
    \<and> (\<forall>s \<in> set (Snapshot now w h). let p = entry (hsPlugin s) h in
         hsState s = (if forcedStale p then HealthStale
                      else case lastEventAt p of None \<Rightarrow> HealthStarting
                           | Some t \<Rightarrow> if timeSub now t > threshold h then HealthStale else HealthOK))"
proof (intro conjI ballI)
  show "sorted (map hsPlugin (Snapshot now w h))" "distinct (map hsPlugin (Snapshot now w h))"
    "set (map hsPlugin (Snapshot now w h)) = fst ` set (plugins h)"
    using assms unfolding names_Snapshot by (simp_all add: tblInv_def)
  fix s
  assume "s \<in> set (Snapshot now w h)"
  then obtain n p where s: "(n, p) \<in> set (plugins h)" "s = statusOf now w (threshold h) (n, p)"
    by (auto simp: set_Snapshot)
  then have p: "p = entry n h" using inv_entry [OF assms] by blast
  show "let p = entry (hsPlugin s) h in
         hsState s = (if forcedStale p then HealthStale
                      else case lastEventAt p of None \<Rightarrow> HealthStarting
                           | Some t \<Rightarrow> if timeSub now t > threshold h then HealthStale else HealthOK)"
    unfolding s(2) statusOf_state hsPlugin_statusOf Let_def fst_conv p by (rule refl)
qed

theorem snapshot_precedence_witness:
  "map (\<lambda>s. (hsPlugin s, hsState s)) (Snapshot 10 () (fold healthStep
      [HStarting ''tmux'', HRecord ''tmux'' 1, HStarting ''git'', HStale ''git''] (NewHealthAggregator 5)))
    = [(''git'', HealthStale), (''tmux'', HealthStale)]
   \<and> sorted (map hsPlugin (Snapshot 10 () (fold healthStep
      [HStarting ''tmux'', HRecord ''tmux'' 1, HStarting ''git'', HStale ''git''] (NewHealthAggregator 5))))"
proof -
  have "tblInv fst (plugins (fold healthStep
      [HStarting ''tmux'', HRecord ''tmux'' 1, HStarting ''git'', HStale ''git''] (NewHealthAggregator 5)))"
    by (rule healthSteps_inv) (simp add: NewHealthAggregator_def)
  from snapshot_precedence [OF this, of 10 "()"] show ?thesis
    by (elim conjE, intro conjI) (code_simp, assumption)
qed

text \<open>A crashed plugin is never laundered back to ok: once \<open>MarkStale\<close> ran, every later
  snapshot shows the plugin stale, whatever events it or others record, until the next
  \<open>MarkStarting\<close> of that plugin.\<close>

theorem crash_never_laundered:
  assumes "HStarting n \<notin> set ops" and "tblInv fst (plugins h)"
  shows "\<exists>s \<in> set (Snapshot now w (fold healthStep ops (MarkStale n h))). hsPlugin s = n \<and> hsState s = HealthStale
    \<and> (\<forall>s' \<in> set (Snapshot now w (fold healthStep ops (MarkStale n h))). hsPlugin s' = n \<longrightarrow> s' = s)"
proof -
  let ?h = "fold healthStep ops (MarkStale n h)"
  have st: "forcedStale (entry n ?h)"
    by (rule healthSteps_stale [OF assms(1)]) (simp add: health_ops)
  have inv: "tblInv fst (plugins ?h)"
    by (rule healthSteps_inv) (simp add: health_ops assms(2))
  have mem: "(n, entry n ?h) \<in> set (plugins ?h)"
    by (intro tracked_entry healthSteps_has) (simp add: health_ops)
  show ?thesis
    using st mem
    by (intro bexI [of _ "statusOf now w (threshold ?h) (n, entry n ?h)"])
      (auto simp: set_Snapshot statusOf_state dest: inv_entry [OF inv])
qed

theorem crash_never_laundered_witness:
  "\<exists>s \<in> set (Snapshot 3 () (fold healthStep [HRecord ''git'' 3, HStarting ''tmux''] (MarkStale ''git'' (NewHealthAggregator 5)))).
     hsPlugin s = ''git'' \<and> hsState s = HealthStale"
proof -
  have a: "HStarting ''git'' \<notin> set [HRecord ''git'' 3, HStarting ''tmux'' :: unit health_op]" by simp
  have "tblInv fst (plugins (NewHealthAggregator 5 :: unit aggregator))" by (simp add: NewHealthAggregator_def)
  from crash_never_laundered [OF a this, of 3 "()"] show ?thesis by blast
qed

text \<open>The registry holds one factory per name: registering a taken name panics and
  registering a new one adds it and keeps the others, and the startup order is the
  ascending order of exactly the registered names.\<close>

theorem registry_unique:
  assumes "tblInv fst fs"
  shows "(tblHas fst n fs \<longrightarrow> Register n f fs = None)
    \<and> (\<not> tblHas fst n fs \<longrightarrow> (\<exists>fs'. Register n f fs = Some fs' \<and> tblInv fst fs'
          \<and> (\<forall>k. tblGet fst k fs' = (if k = n then Some (n, f) else tblGet fst k fs))
          \<and> sorted (SortedFactoryNames fs') \<and> distinct (SortedFactoryNames fs')
          \<and> set (SortedFactoryNames fs') = insert n (fst ` set fs)))"
proof (intro conjI impI)
  assume "tblHas fst n fs"
  then show "Register n f fs = None" by (simp add: Register_def)
next
  assume a: "\<not> tblHas fst n fs"
  then have g: "tblGet fst k (fs @ [(n, f)]) = (if k = n then Some (n, f) else tblGet fst k fs)" for k
    by (auto simp: tblGet_append tblGet_None_iff [symmetric] split: option.splits)
  show "\<exists>fs'. Register n f fs = Some fs' \<and> tblInv fst fs'
          \<and> (\<forall>k. tblGet fst k fs' = (if k = n then Some (n, f) else tblGet fst k fs))
          \<and> sorted (SortedFactoryNames fs') \<and> distinct (SortedFactoryNames fs')
          \<and> set (SortedFactoryNames fs') = insert n (fst ` set fs)"
    using a assms g by (auto simp: Register_def tblInv_def SortedFactoryNames_def tblHas_def)
qed

theorem registry_unique_witness:
  "Register ''git'' () [(''tmux'', ())] = Some [(''tmux'', ()), (''git'', ())]
   \<and> SortedFactoryNames [(''tmux'', ()), (''git'', ())] = [''git'', ''tmux'']
   \<and> Register ''tmux'' () [(''tmux'', ())] = None"
  using registry_unique [of "[(''tmux'', ())]" "''tmux''" "()"]
  by (simp add: tblInv_def Register_def SortedFactoryNames_def)

end
