(* ===== verification/GoValue.thy ===== *)
theory GoValue
  imports GoTime
begin

text \<open>
  Dynamically typed values (Go's \<open>any\<close>, as \<open>encoding/json\<close> and the TOML decoder produce
  them) and the coercions over them: package \<open>plugins/internal/pluginconfig\<close>, the one
  instance pointer of \<open>plugins/internal/single\<close>, and \<open>coerce\<close> of
  \<open>plugins/github/executor.go\<close>. A \<open>float64\<close> is the decimal \<open>AFloat m k\<close>, the number \<open>m / 10^k\<close>:
  the numbers that JSON and TOML literals of at most 15 significant digits denote, on
  which Go's shortest rendering is the decimal itself.
\<close>

datatype any =
    ANil
  | AStr string
  | AInt int
  | AInt64 int
  | AFloat int nat
  | ABool bool
  | AArr "any list"
  | AObj "(string \<times> any) list"

type_synonym obj = "(string \<times> any) list"

text \<open>\<open>m[k]\<close> on a \<open>map[string]any\<close>: an absent key reads as nil.\<close>

definition at :: "obj \<Rightarrow> string \<Rightarrow> any" where
  "at m k = (case map_of m k of None \<Rightarrow> ANil | Some v \<Rightarrow> v)"

text \<open>The type assertions \<open>v.(string)\<close>, \<open>v.(map[string]any)\<close>, \<open>v.([]any)\<close>, \<open>v.(bool)\<close>.\<close>

fun asStr :: "any \<Rightarrow> string option" where
  "asStr (AStr s) = Some s" | "asStr _ = None"

fun asObj :: "any \<Rightarrow> obj option" where
  "asObj (AObj m) = Some m" | "asObj _ = None"

fun asArr :: "any \<Rightarrow> any list option" where
  "asArr (AArr xs) = Some xs" | "asArr _ = None"

fun asBool :: "any \<Rightarrow> bool option" where
  "asBool (ABool b) = Some b" | "asBool _ = None"

subsection \<open>Numbers\<close>

text \<open>Conversion of a float64 to int truncates towards zero; out of range it is the
  smallest int64 (the amd64 instruction).\<close>

definition floatTrunc :: "int \<Rightarrow> nat \<Rightarrow> int" where
  "floatTrunc m k = (let z = sgn m * (\<bar>m\<bar> div 10 ^ k) in if in64 z then z else - (2 ^ 63))"

definition formatFloat :: "int \<Rightarrow> nat \<Rightarrow> string" where
  "formatFloat m k =
     (let q = \<bar>m\<bar> div 10 ^ k; r = \<bar>m\<bar> mod 10 ^ k
      in (if m < 0 then ''-'' else []) @ showNat (nat q)
         @ (if r = 0 then [] else CHR ''.'' # dropZeros (padDigits k (nat r))))"

subsection \<open>JSON into structs\<close>

text \<open>Decoding an object into a struct: a key matches a field's name up to case and the last
  match counts; a value of another type than the field's, and \<open>null\<close>, leave the field zero.\<close>

definition jsonField :: "obj \<Rightarrow> string \<Rightarrow> any" where
  "jsonField m name = (case filter (\<lambda>(k, v). foldWord k = foldWord name) m of [] \<Rightarrow> ANil | xs \<Rightarrow> snd (List.last xs))"

definition jsonInt :: "any \<Rightarrow> int" where
  "jsonInt v = (case v of AFloat a b \<Rightarrow> if floatTrunc a b * 10 ^ b = a then floatTrunc a b else 0 | _ \<Rightarrow> 0)"

definition jsonStr :: "any \<Rightarrow> string" where
  "jsonStr v = (case asStr v of None \<Rightarrow> [] | Some s \<Rightarrow> s)"

definition jsonBool :: "any \<Rightarrow> bool" where
  "jsonBool v = (asBool v = Some True)"

definition jsonArr :: "any \<Rightarrow> any list" where
  "jsonArr v = (case asArr v of None \<Rightarrow> [] | Some xs \<Rightarrow> xs)"

text \<open>The same where the caller looks at the error: \<open>None\<close> when a value has another type.\<close>

definition jsonMatches :: "obj \<Rightarrow> string \<Rightarrow> any list" where
  "jsonMatches m name = map snd (filter (\<lambda>(k, v). foldWord k = foldWord name) m)"

definition strictStr :: "obj \<Rightarrow> string \<Rightarrow> string option" where
  "strictStr m name =
     (let vs = filter (\<lambda>v. v \<noteq> ANil) (jsonMatches m name) in
      if list_all (\<lambda>v. asStr v \<noteq> None) vs then Some (if vs = [] then [] else jsonStr (List.last vs)) else None)"

definition strictInt :: "obj \<Rightarrow> string \<Rightarrow> int option" where
  "strictInt m name =
     (let vs = filter (\<lambda>v. v \<noteq> ANil) (jsonMatches m name) in
      if list_all (\<lambda>v. case v of AFloat a b \<Rightarrow> floatTrunc a b * 10 ^ b = a | _ \<Rightarrow> False) vs
      then Some (if vs = [] then 0 else jsonInt (List.last vs)) else None)"

text \<open>A pointer field: \<open>null\<close> sets it to nil.\<close>

definition strictIntPtr :: "obj \<Rightarrow> string \<Rightarrow> int option option" where
  "strictIntPtr m name =
     (let vs = jsonMatches m name in
      if list_all (\<lambda>v. case v of AFloat a b \<Rightarrow> floatTrunc a b * 10 ^ b = a | ANil \<Rightarrow> True | _ \<Rightarrow> False) vs
      then Some (if vs = [] \<or> List.last vs = ANil then None else Some (jsonInt (List.last vs))) else None)"

fun fieldsOf :: "any \<Rightarrow> obj" where
  "fieldsOf (AObj m) = m" | "fieldsOf _ = []"

subsection \<open>Package pluginconfig\<close>

definition cfgStr :: "obj option \<Rightarrow> string \<Rightarrow> string \<Rightarrow> string" where
  "cfgStr raw k def =
     (case raw of None \<Rightarrow> def
      | Some m \<Rightarrow> (case asStr (at m k) of Some v \<Rightarrow> if v \<noteq> [] then v else def | None \<Rightarrow> def))"

definition cfgInt :: "obj option \<Rightarrow> string \<Rightarrow> int \<Rightarrow> int" where
  "cfgInt raw k def =
     (case raw of None \<Rightarrow> def
      | Some m \<Rightarrow> (case at m k of AInt n \<Rightarrow> n | AInt64 n \<Rightarrow> n | AFloat a b \<Rightarrow> floatTrunc a b | _ \<Rightarrow> def))"

definition cfgNum :: "obj option \<Rightarrow> string \<Rightarrow> int \<times> nat \<Rightarrow> int \<times> nat" where
  "cfgNum raw k def =
     (case raw of None \<Rightarrow> def
      | Some m \<Rightarrow> (case at m k of AFloat a b \<Rightarrow> (a, b) | AInt64 n \<Rightarrow> (n, 0) | AInt n \<Rightarrow> (n, 0) | _ \<Rightarrow> def))"

definition cfgBool :: "obj option \<Rightarrow> string \<Rightarrow> bool \<Rightarrow> bool" where
  "cfgBool raw k def =
     (case raw of None \<Rightarrow> def
      | Some m \<Rightarrow> (case asBool (at m k) of Some v \<Rightarrow> v | None \<Rightarrow> def))"

text \<open>\<open>Strs\<close>: \<open>None\<close> is the nil slice.\<close>

definition cfgStrs :: "obj option \<Rightarrow> string \<Rightarrow> string list option" where
  "cfgStrs raw k =
     (case raw of None \<Rightarrow> None
      | Some m \<Rightarrow> map_option (List.map_filter asStr) (asArr (at m k)))"

fun ToInt :: "any \<Rightarrow> int" where
  "ToInt (AInt n) = n"
| "ToInt (AInt64 n) = n"
| "ToInt (AFloat a b) = floatTrunc a b"
| "ToInt _ = 0"

text \<open>A request-body read error: the \<open>MaxBytesReader\<close> cap tripped, or anything else.\<close>

datatype read_err = MaxBytesError | OtherReadError

fun ReadErrStatus :: "read_err \<Rightarrow> int" where
  "ReadErrStatus MaxBytesError = 413"
| "ReadErrStatus OtherReadError = 400"

definition subMap :: "obj option \<Rightarrow> string \<Rightarrow> obj option" where
  "subMap raw k = (case raw of None \<Rightarrow> None | Some m \<Rightarrow> asObj (at m k))"

subsection \<open>Package single\<close>

type_synonym 'a single_ptr = "'a option"

definition singleSet :: "'a \<Rightarrow> 'a single_ptr \<Rightarrow> 'a single_ptr" where
  "singleSet v p = Some v"

definition singleGet :: "'a single_ptr \<Rightarrow> 'a option" where
  "singleGet p = p"

subsection \<open>coerce\<close>

text \<open>\<open>fmt.Sprint\<close> on the values that are not scalars; map keys are printed sorted.\<close>

fun sprint :: "any \<Rightarrow> string" where
  "sprint ANil = ''<nil>''"
| "sprint (AStr s) = s"
| "sprint (AInt n) = itoa n"
| "sprint (AInt64 n) = itoa n"
| "sprint (AFloat a b) = formatFloat a b"
| "sprint (ABool b) = (if b then ''true'' else ''false'')"
| "sprint (AArr xs) = ''['' @ joinStr '' '' (map sprint xs) @ '']''"
| "sprint (AObj m) = ''map['' @ joinStr '' '' (map snd (sort_key fst (map (\<lambda>(k, v). (k, k @ '':'' @ sprint v)) m))) @ '']''"

fun coerce :: "any \<Rightarrow> string" where
  "coerce (AStr s) = s"
| "coerce (AFloat a b) = (if floatTrunc a b * 10 ^ b = a then itoa (floatTrunc a b) else formatFloat a b)"
| "coerce (AInt n) = itoa n"
| "coerce (ABool b) = (if b then ''true'' else ''false'')"
| "coerce ANil = []"
| "coerce v = sprint v"

subsection \<open>Lemmas\<close>

lemma at_simps [simp]:
  "at [] k = ANil" "at ((k', v) # m) k = (if k = k' then v else at m k)"
  by (simp_all add: at_def)

lemma cfgStr_nonempty: "def \<noteq> [] \<Longrightarrow> cfgStr raw k def \<noteq> []"
  by (auto simp: cfgStr_def split: option.splits)

lemma asObj_Some [simp]: "asObj v = Some m \<longleftrightarrow> v = AObj m"
  by (cases v) auto

lemma asStr_Some [simp]: "asStr v = Some s \<longleftrightarrow> v = AStr s"
  by (cases v) auto

lemma floatTrunc_integral:
  assumes "in64 n"
  shows "floatTrunc n 0 = n"
  using assms by (simp add: floatTrunc_def abs_mult_sgn mult.commute)

lemma floatTrunc_in64 [simp]: "in64 (floatTrunc a b)"
  by (simp add: floatTrunc_def Let_def in64_def)

lemma jsonInt_in64 [simp]: "in64 (jsonInt v)"
proof -
  have "in64 0" by (simp add: in64_def)
  then show ?thesis by (cases v) (auto simp: jsonInt_def)
qed

text \<open>An integral JSON number renders as its decimal numeral.\<close>

lemma coerce_number: "in64 n \<Longrightarrow> coerce (AFloat n 0) = itoa n"
  by (simp add: floatTrunc_integral)

end
