(* ===== verification/GoNet.thy ===== *)
theory GoNet
  imports GoValue
begin

text \<open>
  The parts of \<open>net\<close>, \<open>net/netip\<close> and \<open>path/filepath\<close> the program calls: splitting a listen
  address, parsing an IP address, deciding whether it is loopback, and joining cleaned paths.
\<close>

subsection \<open>net.SplitHostPort\<close>

definition SplitHostPort :: "string \<Rightarrow> (string \<times> string) option" where
  "SplitHostPort hp =
     (case lastIndexByte hp CHR '':'' of
        None \<Rightarrow> None
      | Some i \<Rightarrow>
          if hp ! 0 = CHR ''['' then
            (case indexByte hp CHR '']'' of
               None \<Rightarrow> None
             | Some e \<Rightarrow>
                 if e + 1 = length hp \<or> e + 1 \<noteq> i then None
                 else if CHR ''['' \<in> set (drop 1 hp) \<or> CHR '']'' \<in> set (drop (e + 1) hp) then None
                 else Some (take (e - 1) (drop 1 hp), drop (i + 1) hp))
          else let host = take i hp in
            if CHR '':'' \<in> set host then None
            else if CHR ''['' \<in> set hp \<or> CHR '']'' \<in> set hp then None
            else Some (host, drop (i + 1) hp))"

subsection \<open>netip.ParseAddr\<close>

definition octet :: "string \<Rightarrow> nat option" where
  "octet s =
     (if s = [] \<or> \<not> list_all isDigit s \<or> (1 < length s \<and> hd s = CHR ''0'') \<or> 255 < digitsVal s
      then None else Some (digitsVal s))"

definition parseIPv4 :: "string \<Rightarrow> nat list option" where
  "parseIPv4 s =
     (case map octet (splitOn CHR ''.'' s) of
        [Some a, Some b, Some c, Some d] \<Rightarrow> Some [a, b, c, d]
      | _ \<Rightarrow> None)"

definition hexVal :: "char \<Rightarrow> nat option" where
  "hexVal c = (let n = of_char c :: nat in
     if isDigit c then Some (n - 48)
     else if 97 \<le> n \<and> n \<le> 102 then Some (n - 87)
     else if 65 \<le> n \<and> n \<le> 70 then Some (n - 55) else None)"

definition hexGroup :: "string \<Rightarrow> nat" where
  "hexGroup ds = foldl (\<lambda>a c. 16 * a + (case hexVal c of None \<Rightarrow> 0 | Some v \<Rightarrow> v)) 0 ds"

text \<open>The loop over the groups of an IPv6 address: \<open>ip\<close> are the bytes so far, \<open>ell\<close> the position
  of the ellipsis. The result is what is left of the string, the bytes and the ellipsis.\<close>

function v6Groups :: "string \<Rightarrow> nat list \<Rightarrow> nat option \<Rightarrow> (string \<times> nat list \<times> nat option) option" where
  "v6Groups s ip ell =
     (if 16 \<le> length ip then Some (s, ip, ell)
      else let ds = takeWhile (\<lambda>c. hexVal c \<noteq> None) s; rest = dropWhile (\<lambda>c. hexVal c \<noteq> None) s in
      if ds = [] \<or> 4 < length ds then None
      else if rest \<noteq> [] \<and> hd rest = CHR ''.'' then
        (if ell = None \<and> length ip \<noteq> 12 \<or> 16 < length ip + 4 then None
         else map_option (\<lambda>v4. ([], ip @ v4, ell)) (parseIPv4 s))
      else let ip' = ip @ [hexGroup ds div 256, hexGroup ds mod 256] in
      if rest = [] then Some ([], ip', ell)
      else if hd rest \<noteq> CHR '':'' \<or> tl rest = [] then None
      else let s1 = tl rest in
      if hd s1 = CHR '':'' then
        (if ell \<noteq> None then None
         else if tl s1 = [] then Some ([], ip', Some (length ip'))
         else v6Groups (tl s1) ip' (Some (length ip')))
      else v6Groups s1 ip' ell)"
  by pat_completeness auto
termination
  by (relation "measure (\<lambda>(s, ip, ell). 16 - length ip)") auto

definition parseIPv6 :: "string \<Rightarrow> nat list option" where
  "parseIPv6 s0 =
     (let (s, ell) = (if hasPrefix s0 ''::'' then (drop 2 s0, Some 0) else (s0, None)) in
      if ell = Some 0 \<and> s = [] then Some (replicate 16 0)
      else case v6Groups s [] ell of
             None \<Rightarrow> None
           | Some (rest, ip, e) \<Rightarrow>
               if rest \<noteq> [] then None
               else if length ip < 16 then
                 (case e of None \<Rightarrow> None
                  | Some k \<Rightarrow> Some (take k ip @ replicate (16 - length ip) 0 @ drop k ip))
               else if e \<noteq> None then None else Some ip)"

text \<open>\<open>net.ParseIP\<close>: the 16-byte form; an address with a zone is no IP.\<close>

definition ParseIP :: "string \<Rightarrow> nat list option" where
  "ParseIP s =
     (case indexAny s ''.:%'' of
        None \<Rightarrow> None
      | Some i \<Rightarrow>
          if s ! i = CHR ''.'' then map_option (\<lambda>v4. replicate 10 0 @ [255, 255] @ v4) (parseIPv4 s)
          else if s ! i = CHR '':'' then (if CHR ''%'' \<in> set s then None else parseIPv6 s)
          else None)"

definition IsLoopback :: "nat list \<Rightarrow> bool" where
  "IsLoopback ip \<longleftrightarrow>
     (if take 12 ip = replicate 10 0 @ [255, 255] then ip ! 12 = 127
      else ip = replicate 15 0 @ [1])"

subsection \<open>filepath.Clean and filepath.Join\<close>

fun cleanParts :: "bool \<Rightarrow> string list \<Rightarrow> string list \<Rightarrow> string list" where
  "cleanParts rooted [] stack = rev stack"
| "cleanParts rooted (p # ps) stack =
     (if p = [] \<or> p = ''.'' then cleanParts rooted ps stack
      else if p = ''..'' then
        (case stack of
           [] \<Rightarrow> cleanParts rooted ps (if rooted then [] else [''..''])
         | q # qs \<Rightarrow> if q = ''..'' then cleanParts rooted ps (''..'' # stack) else cleanParts rooted ps qs)
      else cleanParts rooted ps (p # stack))"

definition pathClean :: "string \<Rightarrow> string" where
  "pathClean p =
     (let rooted = hasPrefix p ''/'';
          s = (if rooted then ''/'' else []) @ joinStr ''/'' (cleanParts rooted (splitOn CHR ''/'' p) [])
      in if s = [] then ''.'' else s)"

definition pathJoin :: "string list \<Rightarrow> string" where
  "pathJoin ps = (let qs = dropWhile (\<lambda>p. p = []) ps in if qs = [] then [] else pathClean (joinStr ''/'' qs))"

end
