(* ===== verification/CoreConfig.thy ===== *)
theory CoreConfig
  imports GoNet
begin

text \<open>
  \<open>core/config.go\<close>: loading and validating the configuration. The TOML decoder is not part of
  the repository: it is the argument \<open>unmarshal\<close> of \<open>LoadConfig\<close>. The file and the home
  directory are read through the arguments \<open>file\<close> and \<open>home\<close> (\<open>None\<close> is the error).
\<close>

record Peer =
  peerHost :: string
  peerURL :: string
  peerToken :: string

text \<open>\<open>LagThresholdSeconds\<close> is the decimal \<open>(m, k)\<close>, the number \<open>m / 10 ^ k\<close>.\<close>

record Config =
  HostID :: string
  Listen :: string
  DataDir :: string
  LagThresholdSeconds :: "int \<times> nat"
  Peers :: "Peer list"
  Tokens :: "(string \<times> string) list"
  Plugins :: "(string \<times> obj) list"

record PluginConfig =
  pcHostID :: string
  pcDataDir :: string
  pcRaw :: "obj option"

definition defaultListen :: string where
  "defaultListen = ''127.0.0.1:7788''"

definition defaultLagThresholdSeconds :: "int \<times> nat" where
  "defaultLagThresholdSeconds = (300, 0)"

definition defaultDataDir :: "string option \<Rightarrow> string" where
  "defaultDataDir home =
     (case home of
        None \<Rightarrow> pathJoin [''.local'', ''share'', ''supergraph'']
      | Some h \<Rightarrow> pathJoin [h, ''.local'', ''share'', ''supergraph''])"

definition DefaultConfigPath :: "string option \<Rightarrow> string" where
  "DefaultConfigPath home =
     (case home of
        None \<Rightarrow> pathJoin [''.config'', ''supergraph'', ''config.toml'']
      | Some h \<Rightarrow> pathJoin [h, ''.config'', ''supergraph'', ''config.toml''])"

definition ListenIsLoopback :: "string \<Rightarrow> bool" where
  "ListenIsLoopback listen =
     (let host = (case SplitHostPort listen of None \<Rightarrow> listen | Some (h, _) \<Rightarrow> h) in
      if host = [] then False
      else if host = ''localhost'' then True
      else case ParseIP host of None \<Rightarrow> False | Some ip \<Rightarrow> IsLoopback ip)"

definition applyDefaults :: "string option \<Rightarrow> Config \<Rightarrow> Config" where
  "applyDefaults home c =
     (let c1 = (if Listen c = [] then c\<lparr>Listen := defaultListen\<rparr> else c);
          c2 = (if DataDir c1 = [] then c1\<lparr>DataDir := defaultDataDir home\<rparr> else c1)
      in if fst (LagThresholdSeconds c2) = 0 then c2\<lparr>LagThresholdSeconds := defaultLagThresholdSeconds\<rparr> else c2)"

definition LoadConfig ::
  "(string \<Rightarrow> Config option) \<Rightarrow> string option \<Rightarrow> string option \<Rightarrow> Config res" where
  "LoadConfig unmarshal home file =
     (case file of
        None \<Rightarrow> Inl ''core: read config''
      | Some b \<Rightarrow>
          (case unmarshal b of
             None \<Rightarrow> Inl ''core: parse config''
           | Some c0 \<Rightarrow>
               if trimSpace (HostID c0) = [] then Inl ''core: config: hostId is required (no default allowed)''
               else let c = applyDefaults home c0 in
               if \<not> ListenIsLoopback (Listen c) \<and> Tokens c = []
               then Inl ''core: config: listen is not loopback, so tokens must be set''
               else Inr c))"

definition PluginConfigFor :: "Config \<Rightarrow> string \<Rightarrow> PluginConfig" where
  "PluginConfigFor c name =
     \<lparr>pcHostID = HostID c, pcDataDir = DataDir c, pcRaw = map_option snd (tblGet fst name (Plugins c))\<rparr>"

subsection \<open>Lemmas\<close>

lemma applyDefaults_fields [simp]:
  "HostID (applyDefaults home c) = HostID c" "Tokens (applyDefaults home c) = Tokens c"
  "Plugins (applyDefaults home c) = Plugins c" "Peers (applyDefaults home c) = Peers c"
  "Listen (applyDefaults home c) = (if Listen c = [] then defaultListen else Listen c)"
  "DataDir (applyDefaults home c) = (if DataDir c = [] then defaultDataDir home else DataDir c)"
  "LagThresholdSeconds (applyDefaults home c) =
     (if fst (LagThresholdSeconds c) = 0 then defaultLagThresholdSeconds else LagThresholdSeconds c)"
  by (simp_all add: applyDefaults_def Let_def)

lemma defaultListen_loopback [simp]: "ListenIsLoopback defaultListen"
  by code_simp

lemma ListenIsLoopback_bare_port: "CHR '':'' \<notin> set p \<Longrightarrow> CHR ''['' \<notin> set p \<Longrightarrow> CHR '']'' \<notin> set p
    \<Longrightarrow> \<not> ListenIsLoopback (CHR '':'' # p)"
  using lastIndexByte_append [of "CHR '':''" p "[]"]
  by (simp add: ListenIsLoopback_def SplitHostPort_def)

lemma LoadConfig_cases:
  "LoadConfig unmarshal home file = Inr c \<longleftrightarrow>
     (\<exists>b c0. file = Some b \<and> unmarshal b = Some c0 \<and> trimSpace (HostID c0) \<noteq> [] \<and> c = applyDefaults home c0
        \<and> (ListenIsLoopback (Listen c) \<or> Tokens c \<noteq> []))"
  by (auto simp: LoadConfig_def Let_def split: option.splits if_splits)

lemma pathClean_nonempty [simp]: "pathClean p \<noteq> []"
  by (simp add: pathClean_def Let_def)

lemma defaultDataDir_nonempty [simp]: "defaultDataDir home \<noteq> []"
  by (cases home) (auto simp: defaultDataDir_def pathJoin_def)

text \<open>A configuration that loads names its host, binds loopback only or carries a token,
  has every optional field filled, keeps what the file set, and hands every plugin its own
  section; a file that sets no \<open>listen\<close> loads on loopback without tokens.\<close>

theorem load_config_safe:
  assumes "LoadConfig unmarshal home (Some b) = Inr c"
  shows "\<exists>c0. unmarshal b = Some c0 \<and> HostID c = HostID c0 \<and> trimSpace (HostID c) \<noteq> []
    \<and> (ListenIsLoopback (Listen c) \<or> Tokens c \<noteq> [])
    \<and> Listen c \<noteq> [] \<and> DataDir c \<noteq> [] \<and> fst (LagThresholdSeconds c) \<noteq> 0
    \<and> Tokens c = Tokens c0 \<and> Peers c = Peers c0
    \<and> (Listen c0 \<noteq> [] \<longrightarrow> Listen c = Listen c0) \<and> (Listen c0 = [] \<longrightarrow> ListenIsLoopback (Listen c))
    \<and> (\<forall>n. pcRaw (PluginConfigFor c n) = map_option snd (tblGet fst n (Plugins c0))
           \<and> pcHostID (PluginConfigFor c n) = HostID c0 \<and> pcDataDir (PluginConfigFor c n) = DataDir c)"
  using assms
  by (auto simp: LoadConfig_cases PluginConfigFor_def defaultLagThresholdSeconds_def)
    (auto simp: defaultListen_def)

definition demoConfig :: "string \<Rightarrow> (string \<times> string) list \<Rightarrow> Config" where
  "demoConfig l ts = \<lparr>HostID = ''boxd'', Listen = l, DataDir = ''/d'', LagThresholdSeconds = (0, 0), Peers = [],
     Tokens = ts, Plugins = []\<rparr>"

theorem load_config_safe_witness:
  "LoadConfig (\<lambda>_. Some (demoConfig ''0.0.0.0:80'' [])) None (Some ''f'')
     = Inl ''core: config: listen is not loopback, so tokens must be set''
   \<and> (\<exists>c. LoadConfig (\<lambda>_. Some (demoConfig ''0.0.0.0:80'' [(''a'', ''t'')])) None (Some ''f'') = Inr c
        \<and> Tokens c \<noteq> [] \<and> fst (LagThresholdSeconds c) \<noteq> 0)"
proof -
  have n: "\<not> ListenIsLoopback ''0.0.0.0:80''" by code_simp
  have s: "trimSpace ''boxd'' \<noteq> []" by code_simp
  let ?c = "applyDefaults None (demoConfig ''0.0.0.0:80'' [(''a'', ''t'')])"
  have ok: "LoadConfig (\<lambda>_. Some (demoConfig ''0.0.0.0:80'' [(''a'', ''t'')])) None (Some ''f'') = Inr ?c"
    using n s by (simp add: LoadConfig_cases) (simp add: demoConfig_def)
  have "LoadConfig (\<lambda>_. Some (demoConfig ''0.0.0.0:80'' [])) None (Some ''f'')
     = Inl ''core: config: listen is not loopback, so tokens must be set''"
    using n s by (simp add: LoadConfig_def) (simp add: demoConfig_def)
  moreover have "Tokens ?c \<noteq> []" "fst (LagThresholdSeconds ?c) \<noteq> 0"
    using load_config_safe [OF ok] by (auto simp: demoConfig_def)
  ultimately show ?thesis using ok by blast
qed

end
