(* ===== verification/Supervisor.thy ===== *)
theory Supervisor
  imports CoreBus CoreHealth CoreConfig
begin

text \<open>
  \<open>core/supervisor.go\<close> and the \<open>Plugin\<close> contract of \<open>core/plugin.go\<close>: building every registered
  plugin, the shared emit path (ring, health, bus) and the containment of a plugin that
  panics or returns an error. A plugin is what core sees of it: its name, its migration and
  its optional cursor. What its \<open>Start\<close> does is a sequence of emits and an end, in any
  interleaving with the other plugins: the step relation \<open>svStep\<close>.
\<close>

record ('w, 'x) Plugin =
  plName :: string
  plMigrate :: "'x core_db_scheme \<Rightarrow> unit res \<times> 'x core_db_scheme"
  plCursor :: "('w \<Rightarrow> string) option"

type_synonym ('w, 'x) Factory = "PluginConfig \<Rightarrow> (('w, 'x) Plugin) res"

text \<open>The world a supervisor opens stores in: whether the data directory can be made and the
  driver opened for a plugin.\<close>

record fsys =
  mkOk :: "string \<Rightarrow> bool"
  openOk :: "string \<Rightarrow> bool"
  clock :: instant

text \<open>\<open>disk\<close> is every plugin's database file, \<open>stores\<close> the open handles on it, \<open>running\<close> the
  \<open>runPlugin\<close> goroutines the wait group counts, \<open>stopped\<close> that \<open>Stop\<close> closed the handles.\<close>

record ('w, 'x) supervisor =
  cfg :: Config
  factories :: "(string \<times> ('w, 'x) Factory) list"
  health :: "'w aggregator"
  svBus :: bus
  ringCap :: int
  disk :: "string \<Rightarrow> 'x core_db_scheme"
  stores :: "string list"
  svPlugins :: "(string \<times> ('w, 'x) Plugin) list"
  running :: "string list"
  stopped :: bool

definition defaultRingCapacity :: int where
  "defaultRingCapacity = 10000"

definition NewSupervisor ::
  "Config \<Rightarrow> (string \<times> ('w, 'x) Factory) list \<Rightarrow> 'w aggregator \<Rightarrow> bus \<Rightarrow> (string \<Rightarrow> 'x core_db_scheme)
     \<Rightarrow> ('w, 'x) supervisor" where
  "NewSupervisor c fs h b d = \<lparr>cfg = c, factories = fs, health = h, svBus = b, ringCap = defaultRingCapacity,
     disk = d, stores = [], svPlugins = [], running = [], stopped = False\<rparr>"

text \<open>The closure of \<open>emitFor\<close>. A handle that \<open>Stop\<close> closed fails every statement; \<open>None\<close> is a
  panic of the bus.\<close>

definition emitFor ::
  "string \<Rightarrow> envelope \<Rightarrow> ('w, 'x) supervisor \<Rightarrow> (unit res \<times> ('w, 'x) supervisor) option" where
  "emitFor name e sv =
     (if stopped sv then Some (Inl ''core: begin append tx'', sv)
      else case AppendEvent e (disk sv name) of
             (Inl x, d) \<Rightarrow> Some (Inl x, sv\<lparr>disk := (disk sv)(name := d)\<rparr>)
           | (Inr _, d) \<Rightarrow>
               (let sv1 = sv\<lparr>disk := (disk sv)(name := d), health := Record name (TS e) (health sv)\<rparr> in
                map_option (\<lambda>b. (Inr (), sv1\<lparr>svBus := b\<rparr>)) (publish e (svBus sv1))))"

definition stopDead :: "string \<Rightarrow> ('w, 'x) supervisor \<Rightarrow> ('w, 'x) supervisor" where
  "stopDead name sv = sv\<lparr>health := MarkStale name (health sv)\<rparr>"

text \<open>One turn of the loop of \<open>startAll\<close>.\<close>

definition startOne :: "fsys \<Rightarrow> string \<Rightarrow> ('w, 'x) supervisor \<Rightarrow> ('w, 'x) supervisor" where
  "startOne fs name sv0 =
     (let sv1 = sv0\<lparr>health := MarkStarting name (health sv0)\<rparr> in
      case tblGet fst name (factories sv1) of
        None \<Rightarrow> sv1
      | Some (_, f) \<Rightarrow>
         (case f (PluginConfigFor (cfg sv1) name) of
            Inl _ \<Rightarrow> sv1\<lparr>health := MarkStale name (health sv1)\<rparr>
          | Inr p \<Rightarrow>
              let sv2 = (case plCursor p of None \<Rightarrow> sv1
                         | Some cr \<Rightarrow> sv1\<lparr>health := SetCursorFunc name cr (health sv1)\<rparr>) in
              (case OpenStore (mkOk fs name) (openOk fs name) (clock fs) (ringCap sv2) (disk sv2 name) of
                 (Inl _, d) \<Rightarrow> sv2\<lparr>disk := (disk sv2)(name := d), health := MarkStale name (health sv2)\<rparr>
               | (Inr s, _) \<Rightarrow>
                   (case plMigrate p s of
                      (Inl _, d) \<Rightarrow> sv2\<lparr>disk := (disk sv2)(name := d), health := MarkStale name (health sv2)\<rparr>
                    | (Inr _, d) \<Rightarrow>
                        sv2\<lparr>disk := (disk sv2)(name := d),
                            stores := stores sv2 @ [name],
                            svPlugins := tblUpsert fst (name, p) (svPlugins sv2),
                            running := running sv2 @ [name]\<rparr>))))"

definition startAll :: "fsys \<Rightarrow> ('w, 'x) supervisor \<Rightarrow> ('w, 'x) supervisor" where
  "startAll fs sv = fold (startOne fs) (SortedFactoryNames (factories sv)) sv"

text \<open>How a plugin's \<open>Start\<close> ends, and \<open>runPlugin\<close> from there.\<close>

datatype start_end = Returned | Failed string | Panicked string

definition runPluginEnd :: "string \<Rightarrow> start_end \<Rightarrow> ('w, 'x) supervisor \<Rightarrow> ('w, 'x) supervisor" where
  "runPluginEnd name r sv =
     (let sv1 = sv\<lparr>running := remove1 name (running sv)\<rparr> in
      case tblGet fst name (svPlugins sv) of
        None \<Rightarrow> sv1
      | Some (_, p) \<Rightarrow>
         (case r of Returned \<Rightarrow> sv1 | Failed _ \<Rightarrow> stopDead (plName p) sv1 | Panicked _ \<Rightarrow> stopDead (plName p) sv1))"

definition Stop :: "('w, 'x) supervisor \<Rightarrow> ('w, 'x) supervisor" where
  "Stop sv = sv\<lparr>stopped := True\<rparr>"

text \<open>The steps of a running supervisor. An emit may come from a plugin whose \<open>Start\<close> is
  already gone (a goroutine it left behind).\<close>

datatype sv_ev = SvEmit string envelope | SvEnd string start_end | SvStop

inductive svStep :: "sv_ev \<Rightarrow> ('w, 'x) supervisor \<Rightarrow> ('w, 'x) supervisor \<Rightarrow> bool" where
  emit: "tblHas fst n (svPlugins sv) \<Longrightarrow> emitFor n e sv = Some (r, sv') \<Longrightarrow> svStep (SvEmit n e) sv sv'"
| ends: "n \<in> set (running sv) \<Longrightarrow> svStep (SvEnd n r) sv (runPluginEnd n r sv)"
| stop: "svStep SvStop sv (Stop sv)"

inductive svSteps :: "sv_ev list \<Rightarrow> ('w, 'x) supervisor \<Rightarrow> ('w, 'x) supervisor \<Rightarrow> bool" where
  nil: "svSteps [] sv sv"
| cons: "svStep ev sv sv1 \<Longrightarrow> svSteps evs sv1 sv2 \<Longrightarrow> svSteps (ev # evs) sv sv2"

inductive_cases svStep_emitE: "svStep (SvEmit n e) sv sv'"
inductive_cases svSteps_consE: "svSteps (ev # evs) sv sv'"

subsection \<open>Lemmas: starting\<close>

text \<open>What core knows of a plugin after startup: it runs iff its build, its store and its
  migration succeeded.\<close>

definition starts :: "fsys \<Rightarrow> Config \<Rightarrow> int \<Rightarrow> (string \<Rightarrow> 'x core_db_scheme) \<Rightarrow> string \<Rightarrow> ('w, 'x) Factory \<Rightarrow> bool" where
  "starts fs c cap d name f \<longleftrightarrow>
     (\<exists>p s s' d'. f (PluginConfigFor c name) = Inr p
        \<and> OpenStore (mkOk fs name) (openOk fs name) (clock fs) cap (d name) = (Inr s, s')
        \<and> plMigrate p s = (Inr (), d'))"

lemma startOne_frame [simp]:
  "cfg (startOne fs n sv) = cfg sv" "factories (startOne fs n sv) = factories sv"
  "ringCap (startOne fs n sv) = ringCap sv" "svBus (startOne fs n sv) = svBus sv"
  "stopped (startOne fs n sv) = stopped sv"
  by (auto simp: startOne_def Let_def split: option.splits sum.splits prod.splits)

lemma startOne_disk_other: "m \<noteq> n \<Longrightarrow> disk (startOne fs n sv) m = disk sv m"
  by (auto simp: startOne_def Let_def split: option.splits sum.splits prod.splits)

lemma startOne_health_other: "m \<noteq> n \<Longrightarrow> entry m (health (startOne fs n sv)) = entry m (health sv)"
  by (auto simp: startOne_def Let_def health_ops split: option.splits sum.splits prod.splits)

lemma startOne_running:
  assumes "tblGet fst n (factories sv) = Some (n, f)"
  shows "running (startOne fs n sv) =
      (if starts fs (cfg sv) (ringCap sv) (disk sv) n f then running sv @ [n] else running sv)"
    and "forcedStale (entry n (health (startOne fs n sv))) =
      (\<not> starts fs (cfg sv) (ringCap sv) (disk sv) n f)"
  using assms
  by (auto simp: startOne_def Let_def starts_def health_ops split: option.splits sum.splits prod.splits)

lemma starts_cong: "d n = d' n \<Longrightarrow> starts fs c cap d n f = starts fs c cap d' n f"
  by (simp add: starts_def)

lemma fold_startOne_other:
  "m \<notin> set ns \<Longrightarrow> disk (fold (startOne fs) ns sv) m = disk sv m
     \<and> entry m (health (fold (startOne fs) ns sv)) = entry m (health sv)"
  by (induction ns arbitrary: sv) (auto simp: startOne_disk_other startOne_health_other)

lemma fold_startOne:
  fixes fs :: fsys
  assumes "distinct ns" and "\<forall>n \<in> set ns. tblGet fst n (factories sv) = Some (n, f n)"
  defines "ok n \<equiv> starts fs (cfg sv) (ringCap sv) (disk sv) n (f n)"
  shows "running (fold (startOne fs) ns sv) = running sv @ filter ok ns
    \<and> (\<forall>n \<in> set ns. forcedStale (entry n (health (fold (startOne fs) ns sv))) = (\<not> ok n))"
  using assms(1,2) unfolding ok_def
proof (induction ns arbitrary: sv)
  case Nil
  then show ?case by simp
next
  case (Cons n ns)
  let ?sv = "startOne fs n sv"
  have n: "tblGet fst n (factories sv) = Some (n, f n)" "n \<notin> set ns" using Cons.prems by auto
  have same: "starts fs (cfg sv) (ringCap sv) (disk ?sv) m (f m) = starts fs (cfg sv) (ringCap sv) (disk sv) m (f m)"
    if "m \<in> set ns" for m
    using that n(2) by (intro starts_cong startOne_disk_other) auto
  have IH: "running (fold (startOne fs) ns ?sv) = running ?sv @ filter (\<lambda>n. starts fs (cfg sv) (ringCap sv) (disk ?sv) n (f n)) ns
    \<and> (\<forall>m \<in> set ns. forcedStale (entry m (health (fold (startOne fs) ns ?sv)))
         = (\<not> starts fs (cfg sv) (ringCap sv) (disk ?sv) m (f m)))"
    using Cons.IH [of ?sv] Cons.prems by simp
  have fil: "filter (\<lambda>n. starts fs (cfg sv) (ringCap sv) (disk ?sv) n (f n)) ns
      = filter (\<lambda>n. starts fs (cfg sv) (ringCap sv) (disk sv) n (f n)) ns"
    using same by (intro filter_cong) auto
  show ?case
    using IH fil same fold_startOne_other [OF n(2), of fs ?sv] startOne_running [OF n(1), of fs] by simp
qed

subsection \<open>Lemmas: the emit path\<close>

lemma emitFor_cases:
  assumes "emitFor n e sv = Some (r, sv')"
  shows "(\<exists>x d. r = Inl x \<and> sv' = sv\<lparr>disk := (disk sv)(n := d)\<rparr>
            \<and> (d = disk sv n \<or> AppendEvent e (disk sv n) = (Inl x, d)))
       \<or> (\<exists>d b. r = Inr () \<and> \<not> stopped sv \<and> AppendEvent e (disk sv n) = (Inr (), d) \<and> publish e (svBus sv) = Some b
            \<and> sv' = sv\<lparr>disk := (disk sv)(n := d), health := Record n (TS e) (health sv), svBus := b\<rparr>)"
proof (cases "stopped sv")
  case True
  then show ?thesis using assms by (auto simp: emitFor_def intro!: exI [of _ "disk sv n"])
next
  case False
  then show ?thesis using assms
    by (auto simp: emitFor_def Let_def split: prod.splits sum.splits)
qed

lemma svStep_health:
  assumes "svStep ev sv sv'"
  shows "\<exists>ops. health sv' = fold healthStep ops (health sv) \<and> (\<forall>n. HStarting n \<notin> set ops)"
  using assms
proof (cases rule: svStep.cases)
  case (emit n e r)
  show ?thesis using emitFor_cases [OF emit(3)]
    by (auto intro: exI [of _ "[]"] exI [of _ "[HRecord n (TS e)]"])
next
  case (ends n r)
  have "health (runPluginEnd n r sv) = health sv \<or> (\<exists>m. health (runPluginEnd n r sv) = MarkStale m (health sv))"
    by (auto simp: runPluginEnd_def stopDead_def Let_def split: option.splits start_end.splits)
  then show ?thesis using ends
    by (auto intro: exI [of _ "[]"] exI [of _ "[HStale m]" for m])
next
  case stop
  then show ?thesis by (auto simp: Stop_def intro: exI [of _ "[]"])
qed

lemma svSteps_health:
  "svSteps evs sv sv' \<Longrightarrow> \<exists>ops. health sv' = fold healthStep ops (health sv) \<and> (\<forall>n. HStarting n \<notin> set ops)"
proof (induction rule: svSteps.induct)
  case (nil sv)
  show ?case by (rule exI [of _ "[]"]) simp
next
  case (cons ev sv sv1 evs sv2)
  then obtain o1 o2 where "health sv1 = fold healthStep o1 (health sv)" "health sv2 = fold healthStep o2 (health sv1)"
    "\<forall>n. HStarting n \<notin> set o1" "\<forall>n. HStarting n \<notin> set o2"
    using svStep_health by metis
  then show ?case by (intro exI [of _ "o1 @ o2"]) simp
qed

subsection \<open>Properties\<close>

text \<open>C13. Startup is isolated per plugin: on a supervisor over any registry, the goroutines that
  run afterwards are exactly those of the plugins whose build, store and migration all
  succeeded, each once and in name order, and exactly the others are marked stale; so no
  \<open>Start\<close> sees a store whose migration failed, and a failing plugin stops no other.\<close>

theorem startup_isolated:
  assumes "tblInv fst facs"
  shows "let sv = startAll fs (NewSupervisor c facs h b d) in
    distinct (running sv) \<and> sorted (running sv) \<and> set (running sv) \<subseteq> fst ` set facs \<and> svBus sv = b
    \<and> (\<forall>(n, f) \<in> set facs.
         (n \<in> set (running sv)) = starts fs c defaultRingCapacity d n f
         \<and> forcedStale (entry n (health sv)) = (\<not> starts fs c defaultRingCapacity d n f))"
proof -
  let ?sv0 = "NewSupervisor c facs h b d"
  define sv where "sv = startAll fs ?sv0"
  define f where "f n = snd (the (tblGet fst n facs))" for n
  have get: "tblGet fst n facs = Some (n, g) \<longleftrightarrow> (n, g) \<in> set facs" for n g
    using tblInv_get [OF assms(1), of n "(n, g)"] by simp
  have f: "f n = g" if "(n, g) \<in> set facs" for n g
    using that unfolding get [symmetric] by (simp add: f_def)
  have names: "distinct (SortedFactoryNames facs)" "set (SortedFactoryNames facs) = fst ` set facs"
      "sorted (SortedFactoryNames facs)"
    using assms(1) by (simp_all add: SortedFactoryNames_def tblInv_def)
  have all: "\<forall>n \<in> set (SortedFactoryNames facs). tblGet fst n (factories ?sv0) = Some (n, f n)"
    using f get by (auto simp: names NewSupervisor_def)
  have fo: "running sv = filter (\<lambda>n. starts fs c defaultRingCapacity d n (f n)) (SortedFactoryNames facs)"
    and st: "\<forall>n \<in> set (SortedFactoryNames facs). forcedStale (entry n (health sv)) = (\<not> starts fs c defaultRingCapacity d n (f n))"
    using fold_startOne [OF names(1) all, of fs] by (simp_all add: sv_def startAll_def NewSupervisor_def)
  have bus: "svBus (fold (startOne fs) ns s) = svBus s" for ns and s :: "('c, 'd) supervisor"
    by (induction ns arbitrary: s) simp_all
  have bus': "svBus sv = b" by (simp add: sv_def startAll_def NewSupervisor_def bus)
  show ?thesis
    unfolding Let_def sv_def [symmetric]
    using names fo st bus' f by (auto simp: sorted_wrt_filter intro: rev_image_eqI)
qed

definition demoPlugin :: "string \<Rightarrow> (unit, unit) Plugin" where
  "demoPlugin n = \<lparr>plName = n, plMigrate = (\<lambda>s. (Inr (), s)), plCursor = None\<rparr>"

definition demoFs :: fsys where
  "demoFs = \<lparr>mkOk = (\<lambda>_. True), openOk = (\<lambda>_. True), clock = 0\<rparr>"

text \<open>Two plugins, one of which does not build.\<close>

definition demoFacs :: "(string \<times> (unit, unit) Factory) list" where
  "demoFacs = [(''tmux'', \<lambda>_. Inl ''no tmux''), (''git'', \<lambda>_. Inr (demoPlugin ''git''))]"

definition demoSv :: "(unit, unit) supervisor" where
  "demoSv = startAll demoFs (NewSupervisor (demoConfig [] []) demoFacs (NewHealthAggregator 5) NewBus (\<lambda>_. freshDb []))"

theorem startup_isolated_witness:
  "''git'' \<in> set (running demoSv) \<and> ''tmux'' \<notin> set (running demoSv) \<and> forcedStale (entry ''tmux'' (health demoSv))"
proof -
  have i: "tblInv fst demoFacs" by (simp add: tblInv_def demoFacs_def)
  have "starts demoFs (demoConfig [] []) defaultRingCapacity (\<lambda>_. freshDb []) ''git'' (\<lambda>_. Inr (demoPlugin ''git''))"
    by (simp add: starts_def demoFs_def OpenStore_def freshDb_def demoPlugin_def applyCoreMigrations_def coreMigrations_def applyMigration_def)
  moreover have "\<not> starts demoFs (demoConfig [] []) defaultRingCapacity (\<lambda>_. freshDb []) ''tmux'' (\<lambda>_. Inl ''no tmux'' :: (unit, unit) Plugin res)"
    by (simp add: starts_def)
  ultimately show ?thesis
    using startup_isolated [OF i, of demoFs "demoConfig [] []" "NewHealthAggregator 5" NewBus "\<lambda>_. freshDb []"]
    unfolding demoSv_def [symmetric] by (simp add: demoFacs_def)
qed

text \<open>C2. A plugin that panics in \<open>Start\<close> (or returns an error) takes nothing with it: no
  database, no subscriber and no other plugin's health or goroutine changes; and it is
  reported stale by every later snapshot, whatever it or the others still emit.\<close>

theorem crash_contained:
  assumes "n \<in> set (running sv)" and "tblGet fst n (svPlugins sv) = Some (n, p)" and "tblInv fst (plugins (health sv))"
    and "r = Panicked x \<or> r = Failed x" and "svSteps (SvEnd n r # evs) sv sv'"
  shows "let sv1 = runPluginEnd n r sv in
      disk sv1 = disk sv \<and> svBus sv1 = svBus sv \<and> stores sv1 = stores sv \<and> running sv1 = remove1 n (running sv)
      \<and> (\<forall>m. m \<noteq> plName p \<longrightarrow> entry m (health sv1) = entry m (health sv))
      \<and> (\<exists>s \<in> set (Snapshot now w (health sv')). hsPlugin s = plName p \<and> hsState s = HealthStale)"
proof -
  let ?sv1 = "runPluginEnd n r sv"
  have sv1: "?sv1 = sv\<lparr>running := remove1 n (running sv), health := MarkStale (plName p) (health sv)\<rparr>"
    using assms(2,4) by (auto simp: runPluginEnd_def stopDead_def Let_def)
  from assms(5) have "svSteps evs ?sv1 sv'"
    by (auto elim!: svSteps_consE elim: svStep.cases)
  then obtain ops where ops: "health sv' = fold healthStep ops (MarkStale (plName p) (health sv))" "\<forall>n. HStarting n \<notin> set ops"
    using svSteps_health [of evs ?sv1 sv'] by (auto simp: sv1)
  let ?h = "health sv'"
  have st: "forcedStale (entry (plName p) ?h)"
    unfolding ops(1) using ops(2) by (intro healthSteps_stale) (auto simp: health_ops)
  have mem: "(plName p, entry (plName p) ?h) \<in> set (plugins ?h)"
    unfolding ops(1) by (intro tracked_entry healthSteps_has) (simp add: health_ops)
  have "\<exists>s \<in> set (Snapshot now w ?h). hsPlugin s = plName p \<and> hsState s = HealthStale"
    using st mem
    by (intro bexI [of _ "statusOf now w (threshold ?h) (plName p, entry (plName p) ?h)"])
      (auto simp: set_Snapshot statusOf_state)
  then show ?thesis by (simp add: sv1) (simp add: health_ops)
qed

text \<open>C3. The emit path is all or nothing and in order: an emit that returns an error leaves
  ring, health and subscribers as they were; one that succeeds has stored the event as
  the newest row of that plugin's ring, stamped that plugin's health with its time and
  published it; no other plugin's ring or health changes.\<close>

theorem emit_all_or_nothing:
  assumes "coreInv (disk sv n)" and "0 < ringCapacity (disk sv n)" and "emitFor n e sv = Some (r, sv')"
  shows "(\<forall>m. m \<noteq> n \<longrightarrow> disk sv' m = disk sv m \<and> entry m (health sv') = entry m (health sv))
    \<and> (case r of
         Inl _ \<Rightarrow> events (disk sv' n) = events (disk sv n) \<and> health sv' = health sv \<and> svBus sv' = svBus sv
       | Inr _ \<Rightarrow> events (disk sv' n) \<noteq> [] \<and> List.last (events (disk sv' n)) = envRow (lastId (disk sv n) + 1) e
           \<and> lastEventAt (entry n (health sv')) = Some (TS e)
           \<and> publish e (svBus sv) = Some (svBus sv'))"
  using emitFor_cases [OF assms(3)]
proof (elim disjE exE conjE)
  fix x d
  assume a: "r = Inl x" "sv' = sv\<lparr>disk := (disk sv)(n := d)\<rparr>" "d = disk sv n"
  then show ?thesis by simp
next
  fix x d
  assume a: "r = Inl x" "sv' = sv\<lparr>disk := (disk sv)(n := d)\<rparr>" "AppendEvent e (disk sv n) = (Inl x, d)"
  then have "events d = events (disk sv n)"
    using AppendEvent_outcome [OF assms(1), of e] by auto
  with a show ?thesis by simp
next
  fix d b
  assume a: "r = Inr ()" "AppendEvent e (disk sv n) = (Inr (), d)" "publish e (svBus sv) = Some b"
    "sv' = sv\<lparr>disk := (disk sv)(n := d), health := Record n (TS e) (health sv), svBus := b\<rparr>"
  then obtain fs where "d = ringPush e ((disk sv n)\<lparr>faults := fs\<rparr>)"
    using AppendEvent_outcome [OF assms(1), of e] by auto
  then have "events d \<noteq> []" "List.last (events d) = envRow (lastId (disk sv n) + 1) e"
    using assms(2) by (auto simp: ringPush_def lastN_def)
  with a show ?thesis by (simp add: health_ops)
qed

theorem crash_contained_witness:
  "\<exists>s \<in> set (Snapshot 9 () (health (runPluginEnd ''git'' (Panicked ''boom'') demoSv))). hsPlugin s = ''git'' \<and> hsState s = HealthStale"
proof -
  have "''git'' \<in> set (running demoSv) \<and> tblGet fst ''git'' (svPlugins demoSv) = Some (''git'', demoPlugin ''git'')
      \<and> tblInv fst (plugins (health demoSv))"
    by (simp add: demoSv_def startAll_def SortedFactoryNames_def demoFacs_def NewSupervisor_def startOne_def demoFs_def
        OpenStore_def freshDb_def demoPlugin_def applyCoreMigrations_def coreMigrations_def applyMigration_def health_ops
        NewHealthAggregator_def tblUpsert_def tblMerge_def)
  moreover have "svSteps [SvEnd ''git'' (Panicked ''boom'')] demoSv (runPluginEnd ''git'' (Panicked ''boom'') demoSv)"
    using calculation by (intro svSteps.cons [OF svStep.ends svSteps.nil]) simp
  ultimately show ?thesis
    using crash_contained [of "''git''" demoSv "demoPlugin ''git''" "Panicked ''boom''" "''boom''" "[]" _ 9 "()"]
    by (simp add: Let_def demoPlugin_def)
qed

text \<open>A supervisor whose only plugin has a ring of two.\<close>

definition demoRing :: "(unit, unit) supervisor" where
  "demoRing = NewSupervisor (demoConfig [] []) [] (NewHealthAggregator 5) NewBus (\<lambda>_. freshDb [] \<lparr>ringCapacity := 2\<rparr>)"

theorem emit_all_or_nothing_witness:
  "\<exists>sv'. emitFor ''git'' (demoEvent ''a'') demoRing = Some (Inr (), sv')
     \<and> List.last (events (disk sv' ''git'')) = envRow 1 (demoEvent ''a'')"
proof -
  have c: "coreInv (disk demoRing ''git'')" "0 < ringCapacity (disk demoRing ''git'')" "faults (disk demoRing ''git'') = []"
      "lastId (disk demoRing ''git'') = 0"
    by (simp_all add: demoRing_def NewSupervisor_def coreInv_def freshDb_def)
  obtain sv' where "emitFor ''git'' (demoEvent ''a'') demoRing = Some (Inr (), sv')"
    using c by (simp add: emitFor_def) (simp add: demoRing_def NewSupervisor_def publish_def NewBus_def)
  with emit_all_or_nothing [OF c(1,2) this] c(4) show ?thesis by auto
qed

end
