(* ===== verification/Server.thy ===== *)
theory Server
  imports Supervisor
begin

text \<open>
  \<open>server/server.go\<close>: the HTTP surface of the process. A handler maps a request and the state of
  the process to a response and a state; the GraphQL handler that gqlgen generates and the
  routes a plugin declares are arguments. \<open>serveMux\<close> is \<open>http.ServeMux\<close> on patterns without
  wildcards: the most specific match, the redirects to the clean path and to the subtree, and 405.
  The streams of the subscriptions are functions of what wakes their goroutine.
\<close>

record httpReq =
  rqMethod :: string
  rqPath :: string
  rqAuth :: string
  rqBody :: string

record httpResp =
  rsStatus :: int
  rsHeaders :: "(string \<times> string) list"
  rsBody :: string

type_synonym 'w handler = "httpReq \<Rightarrow> 'w \<Rightarrow> httpResp \<times> 'w"

definition httpError :: "string \<Rightarrow> int \<Rightarrow> httpResp" where
  "httpError msg code = \<lparr>rsStatus = code, rsHeaders = [], rsBody = msg @ [CHR 0x0A]\<rparr>"

definition NotFound :: "'w handler" where
  "NotFound r w = (httpError ''404 page not found'' 404, w)"

subsection \<open>http.ServeMux\<close>

text \<open>A pattern: its method, if any, its path and its handler.\<close>

type_synonym 'w pattern = "string option \<times> string \<times> 'w handler"

definition cleanPath :: "string \<Rightarrow> string" where
  "cleanPath p =
     (if p = [] then ''/''
      else let p' = (if hd p = CHR ''/'' then p else CHR ''/'' # p); np = pathClean p'
           in if List.last p' = CHR ''/'' \<and> np \<noteq> ''/'' then np @ ''/'' else np)"

definition pathMatches :: "string \<Rightarrow> string \<Rightarrow> bool" where
  "pathMatches pat path = (if hasSuffix pat ''/'' then hasPrefix path pat else path = pat)"

definition methodMatches :: "string option \<Rightarrow> string \<Rightarrow> bool" where
  "methodMatches m method = (case m of None \<Rightarrow> True | Some x \<Rightarrow> x = method \<or> x = ''GET'' \<and> method = ''HEAD'')"

fun bestMatch :: "'w pattern list \<Rightarrow> string \<Rightarrow> string \<Rightarrow> (string \<times> 'w handler) option" where
  "bestMatch [] method path = None"
| "bestMatch ((m, pat, h) # ps) method path =
     (if methodMatches m method \<and> pathMatches pat path
      then (case bestMatch ps method path of
              None \<Rightarrow> Some (pat, h)
            | Some (pat', h') \<Rightarrow> if length pat < length pat' then Some (pat', h') else Some (pat, h))
      else bestMatch ps method path)"

definition redirect :: "string \<Rightarrow> httpResp" where
  "redirect url = \<lparr>rsStatus = 301, rsHeaders = [(''Location'', url)], rsBody = []\<rparr>"

definition exactMatch :: "(string \<times> 'w handler) option \<Rightarrow> string \<Rightarrow> bool" where
  "exactMatch n path = (case n of None \<Rightarrow> False | Some (pat, _) \<Rightarrow> pat = path)"

definition serveMux :: "'w pattern list \<Rightarrow> 'w handler" where
  "serveMux ps r w =
     (let connect = (rqMethod r = ''CONNECT'');
          path = (if connect then rqPath r else cleanPath (rqPath r));
          n = bestMatch ps (rqMethod r) path
      in if \<not> exactMatch n path \<and> \<not> hasSuffix path ''/'' \<and> path \<noteq> []
            \<and> exactMatch (bestMatch ps (rqMethod r) (path @ ''/'')) (path @ ''/'')
         then (redirect (path @ ''/''), w)
         else if path \<noteq> rqPath r then (redirect path, w)
         else case n of
                Some (_, h) \<Rightarrow> h r w
              | None \<Rightarrow>
                  if list_ex (\<lambda>(_, pat, _). pathMatches pat path) ps
                  then (httpError ''Method Not Allowed'' 405, w) else NotFound r w)"

subsection \<open>Bearer tokens\<close>

text \<open>\<open>subtle.ConstantTimeCompare\<close> is 1 on equal byte slices and 0 otherwise.\<close>

definition tokenMatches :: "string \<Rightarrow> (string \<times> string) list \<Rightarrow> bool" where
  "tokenMatches got tokens = fold (\<lambda>(_, want) match. if got = want then True else match) tokens False"

definition bearerAuth :: "'w handler \<Rightarrow> (string \<times> string) list \<Rightarrow> 'w handler" where
  "bearerAuth nxt tokens r w =
     (if hasPrefix (rqAuth r) ''Bearer '' \<and> tokenMatches (drop (length ''Bearer '') (rqAuth r)) tokens
      then nxt r w
      else ((httpError ''unauthorized'' 401)\<lparr>rsHeaders := [(''WWW-Authenticate'', ''Bearer'')]\<rparr>, w))"

subsection \<open>Routes\<close>

text \<open>\<open>routes\<close> is the assertion \<open>p.(core.HTTPRoutes)\<close> followed by \<open>Routes()\<close>.\<close>

definition pluginRoutesHandler ::
  "('p \<Rightarrow> (string \<times> 'w handler) list option) \<Rightarrow> (string \<times> 'p) list \<Rightarrow> 'w handler" where
  "pluginRoutesHandler routes plugs r w =
     (case cut (CHR ''/'') (trimPrefix (rqPath r) ''/plugins/'') of (name, _, _) \<Rightarrow>
        if name = [] then NotFound r w
        else case tblGet fst name plugs of
               None \<Rightarrow> NotFound r w
             | Some (_, p) \<Rightarrow>
                 (case routes p of
                    None \<Rightarrow> NotFound r w
                  | Some rs \<Rightarrow>
                      serveMux (map (\<lambda>(pat, h). (None, ''/plugins/'' @ name @ ''/'' @ trimPrefix pat ''/'', h)) rs) r w))"

definition serverMux :: "'w handler \<Rightarrow> 'w handler \<Rightarrow> ('p \<Rightarrow> (string \<times> 'w handler) list option) \<Rightarrow> (string \<times> 'p) list \<Rightarrow> 'w handler" where
  "serverMux gql hlth routes plugs =
     serveMux [(None, ''/graphql'', gql), (Some ''GET'', ''/health'', hlth), (None, ''/plugins/'', pluginRoutesHandler routes plugs)]"

text \<open>\<open>New\<close>: the handler of the server.\<close>

definition serverHandler ::
  "Config \<Rightarrow> 'w handler \<Rightarrow> 'w handler \<Rightarrow> ('p \<Rightarrow> (string \<times> 'w handler) list option) \<Rightarrow> (string \<times> 'p) list \<Rightarrow> 'w handler" where
  "serverHandler c gql hlth routes plugs =
     (let mux = serverMux gql hlth routes plugs in
      if ListenIsLoopback (Listen c) then mux else bearerAuth mux (Tokens c))"

subsection \<open>Errors of a websocket\<close>

datatype sentinel = ErrClosed | ErrEOF | ErrClosedPipe | ErrCanceled | ErrOther string

text \<open>An error: the errors it wraps, and the close code it carries.\<close>

record wsErr =
  wraps :: "sentinel list"
  closeCode :: "int option"

definition closeStatus :: "wsErr \<Rightarrow> int" where
  "closeStatus e = (case closeCode e of None \<Rightarrow> - 1 | Some c \<Rightarrow> c)"

definition isNormalClose :: "wsErr option \<Rightarrow> bool" where
  "isNormalClose err =
     (case err of
        None \<Rightarrow> True
      | Some e \<Rightarrow>
          if list_ex (\<lambda>s. s \<in> {ErrClosed, ErrEOF, ErrClosedPipe, ErrCanceled}) (wraps e) then True
          else closeStatus e \<in> {1000, 1001, 1005})"

subsection \<open>Subscription streams\<close>

text \<open>What wakes a stream: the end of its context, a closed subscription, or an element with the
  number of sends the client takes before its context ends, \<open>None\<close> for all of them.\<close>

datatype 'a wakeup = CtxDone | SubClosed | Woken 'a "nat option"

text \<open>The values sent and whether the channel was closed.\<close>

fun stream :: "('a \<Rightarrow> 'b list) \<Rightarrow> 'a wakeup list \<Rightarrow> 'b list \<times> bool" where
  "stream push [] = ([], False)"
| "stream push (CtxDone # ws) = ([], True)"
| "stream push (SubClosed # ws) = ([], True)"
| "stream push (Woken a k # ws) =
     (let xs = push a in
      case k of
        Some n \<Rightarrow> if n < length xs then (take n xs, True) else (case stream push ws of (ys, c) \<Rightarrow> (xs @ ys, c))
      | None \<Rightarrow> (case stream push ws of (ys, c) \<Rightarrow> (xs @ ys, c)))"

text \<open>The threshold of a client is the decimal \<open>(m, k)\<close> in seconds.\<close>

definition lagAbove :: "int \<times> nat \<Rightarrow> HealthStatus \<Rightarrow> bool" where
  "lagAbove thr hs = (case thr of (m, k) \<Rightarrow> m * second < hsLag hs * 10 ^ k)"

definition lagPush :: "int \<times> nat \<Rightarrow> HealthStatus list \<Rightarrow> HealthStatus list" where
  "lagPush thr snap = filter (lagAbove thr) snap"

text \<open>Each wake of the lag stream, by an event or by the ticker, takes a snapshot.\<close>

definition lagStream :: "int \<times> nat \<Rightarrow> HealthStatus list wakeup list \<Rightarrow> HealthStatus list \<times> bool" where
  "lagStream thr = stream (lagPush thr)"

definition EventsChannel :: "string \<Rightarrow> envelope wakeup list \<Rightarrow> envelope list \<times> bool" where
  "EventsChannel source = stream (\<lambda>e. if source \<noteq> [] \<and> Source e \<noteq> source then [] else [e])"

subsection \<open>Lemmas\<close>

lemma tokenMatches_iff: "tokenMatches got tokens \<longleftrightarrow> got \<in> snd ` set tokens"
proof -
  have "fold (\<lambda>(_, want) m. if got = want then True else m) tokens b \<longleftrightarrow> b \<or> got \<in> snd ` set tokens" for b
    by (induction tokens arbitrary: b) auto
  then show ?thesis by (simp add: tokenMatches_def)
qed

lemma bearer_iff:
  "hasPrefix h ''Bearer '' \<and> tokenMatches (drop (length ''Bearer '') h) tokens \<longleftrightarrow> (\<exists>t \<in> snd ` set tokens. h = ''Bearer '' @ t)"
  (is "?l \<longleftrightarrow> ?r")
proof
  assume ?l
  then show ?r unfolding tokenMatches_iff hasPrefix_iff by force
next
  assume ?r
  then show ?l unfolding tokenMatches_iff hasPrefix_iff by force
qed

lemma bestMatch_SomeD: "bestMatch ps m path = Some (pat, h) \<Longrightarrow> \<exists>x. (x, pat, h) \<in> set ps \<and> methodMatches x m \<and> pathMatches pat path"
proof (induction ps)
  case (Cons p ps)
  obtain x q g where p: "p = (x, q, g)" by (cases p)
  show ?case
  proof (cases "bestMatch ps m path")
    case None
    with Cons.prems show ?thesis by (auto simp: p split: if_splits)
  next
    case (Some r)
    with Cons show ?thesis by (cases r) (auto simp: p split: if_splits)
  qed
qed simp

text \<open>A multiplexer answers itself without touching the state, or runs one of its handlers.\<close>

lemma serveMux_cases:
  obtains (own) c where "serveMux ps r w = (c, w)"
  | (handled) x pat h where "serveMux ps r w = h r w" "(x, pat, h) \<in> set ps" "methodMatches x (rqMethod r)" "pathMatches pat (rqPath r)"
proof -
  define path where "path = (if rqMethod r = ''CONNECT'' then rqPath r else cleanPath (rqPath r))"
  define n where "n = bestMatch ps (rqMethod r) path"
  define slash where "slash \<longleftrightarrow> \<not> exactMatch n path \<and> \<not> hasSuffix path ''/'' \<and> path \<noteq> []
            \<and> exactMatch (bestMatch ps (rqMethod r) (path @ ''/'')) (path @ ''/'')"
  have eq: "serveMux ps r w = (if slash then (redirect (path @ ''/''), w) else if path \<noteq> rqPath r then (redirect path, w)
      else case n of Some (_, h) \<Rightarrow> h r w
           | None \<Rightarrow> if list_ex (\<lambda>(_, pat, _). pathMatches pat path) ps then (httpError ''Method Not Allowed'' 405, w) else NotFound r w)"
    unfolding serveMux_def Let_def path_def [symmetric] n_def [symmetric] slash_def [symmetric] by (rule refl)
  show thesis
  proof (cases "slash \<or> path \<noteq> rqPath r \<or> n = None")
    case True
    then have "\<exists>c. serveMux ps r w = (c, w)" by (auto simp: eq NotFound_def)
    with own show ?thesis by blast
  next
    case False
    then obtain q h where "n = Some (q, h)" "path = rqPath r" "serveMux ps r w = h r w" by (auto simp: eq)
    with bestMatch_SomeD [of ps "rqMethod r" path q h] handled show ?thesis by (auto simp: n_def)
  qed
qed

text \<open>A stream whose client never leaves sends what each wake pushes, until its subscription ends.\<close>

lemma stream_all: "stream push (map (\<lambda>a. Woken a None) as) = (concat (map push as), False)"
  by (induction as) simp_all

lemma stream_set: "set (fst (stream push ws)) \<subseteq> (\<Union>a \<in> {a. \<exists>k. Woken a k \<in> set ws}. set (push a))"
proof (induction ws)
  case (Cons x ws)
  show ?case
  proof (cases x)
    case (Woken a k)
    have "set (fst (stream push (x # ws))) \<subseteq> set (push a) \<union> set (fst (stream push ws))"
      by (cases k) (auto simp: Woken Let_def dest: in_set_takeD split: if_splits prod.splits)
    with Cons have "set (fst (stream push (x # ws))) \<subseteq> set (push a) \<union> (\<Union>a \<in> {a. \<exists>k. Woken a k \<in> set ws}. set (push a))" by blast
    also have "\<dots> \<subseteq> (\<Union>a \<in> {a. \<exists>k. Woken a k \<in> set (x # ws)}. set (push a))" by (auto simp: Woken)
    finally show ?thesis .
  qed auto
qed simp

lemma stale_lag0:
  assumes "forcedStale (entry n h)" "tblInv fst (plugins h)" "hs \<in> set (Snapshot now w h)" "hsPlugin hs = n"
  shows "hsLag hs = 0 \<and> hsState hs = HealthStale"
proof -
  obtain p where "(n, p) \<in> set (plugins h)" "hs = statusOf now w (threshold h) (n, p)"
    using assms(3,4) by (auto simp: set_Snapshot)
  with assms(1,2) inv_entry show ?thesis by (fastforce simp: statusOf_def Let_def)
qed



text \<open>A request under \<open>/plugins/\<close> is answered by the server itself, without effect, or reaches a handler that the running
  plugin named by the first segment of its path declared, on the path of that declaration.\<close>

theorem plugin_routes_confined:
  "let (resp, w') = pluginRoutesHandler routes plugs r w; name = fst (cut (CHR ''/'') (trimPrefix (rqPath r) ''/plugins/'')) in
     w' = w \<or> (\<exists>p rs pat h. tblGet fst name plugs = Some (name, p) \<and> routes p = Some rs \<and> (pat, h) \<in> set rs
       \<and> h r w = (resp, w') \<and> pathMatches (''/plugins/'' @ name @ ''/'' @ trimPrefix pat ''/'') (rqPath r))"
proof -
  obtain name x y where c: "cut (CHR ''/'') (trimPrefix (rqPath r) ''/plugins/'') = (name, x, y)" by (metis surj_pair)
  show ?thesis
  proof (cases "name = [] \<or> tblGet fst name plugs = None")
    case True
    then show ?thesis by (auto simp: pluginRoutesHandler_def c NotFound_def split: option.splits)
  next
    case False
    then obtain p where p: "name \<noteq> []" "tblGet fst name plugs = Some (name, p)" by (auto dest: tblGet_fst)
    show ?thesis
    proof (cases "routes p")
      case None
      with p show ?thesis by (simp add: pluginRoutesHandler_def c NotFound_def)
    next
      case (Some rs)
      let ?ps = "map (\<lambda>(pat, h). (None, ''/plugins/'' @ name @ ''/'' @ trimPrefix pat ''/'', h)) rs"
      have eq: "pluginRoutesHandler routes plugs r w = serveMux ?ps r w" using p Some by (simp add: pluginRoutesHandler_def c)
      show ?thesis
      proof (cases rule: serveMux_cases [of ?ps r w])
        case (own k)
        then show ?thesis by (simp add: eq c)
      next
        case (handled k q h)
        then obtain pat where "(pat, h) \<in> set rs" "q = ''/plugins/'' @ name @ ''/'' @ trimPrefix pat ''/''" by auto
        with handled(1,4) p(2) Some show ?thesis unfolding eq c by (auto simp: case_prod_unfold Let_def simp del: append.simps)
      qed
    qed
  qed
qed

end
