(* ===== verification/TmuxKeys.thy ===== *)
theory TmuxKeys
  imports GoValue Interfaces
begin

text \<open>
  \<open>plugins/tmux/keys.go\<close> and the pure half of \<open>control.go\<close>: the key grammar of servers, sessions
  and panes with the pane-key parser, the idle-shell test, and the version-gated set of
  control-mode notifications that trigger a reconcile.
\<close>

record tmuxKind =
  tkKind :: string
  tkTypename :: string

definition tmuxKindSpecs :: "tmuxKind list" where
  "tmuxKindSpecs = [\<lparr>tkKind = ''tmuxServer'', tkTypename = ''TmuxServer''\<rparr>,
     \<lparr>tkKind = ''session'', tkTypename = ''TmuxSession''\<rparr>, \<lparr>tkKind = ''pane'', tkTypename = ''TmuxPane''\<rparr>]"

definition tmuxSpecByKind :: "string \<Rightarrow> tmuxKind option" where
  "tmuxSpecByKind k = map_of (rev (map (\<lambda>s. (tkKind s, s)) tmuxKindSpecs)) k"

definition serverKey :: "string \<Rightarrow> string" where
  "serverKey host = ''tmuxServer:'' @ host @ ''@'' @ host"

definition sessionKey :: "string \<Rightarrow> string \<Rightarrow> string" where
  "sessionKey session host = ''session:'' @ session @ ''@'' @ host"

definition paneKey :: "string \<Rightarrow> int \<Rightarrow> int \<Rightarrow> string \<Rightarrow> string" where
  "paneKey session window pane host =
     ''pane:'' @ session @ '':'' @ itoa window @ ''.'' @ itoa pane @ ''@'' @ host"

definition tmuxTypename :: "string \<Rightarrow> string" where
  "tmuxTypename key =
     (let (kind, _, _) = cut CHR '':'' key in case tmuxSpecByKind kind of Some s \<Rightarrow> tkTypename s | None \<Rightarrow> [])"

definition splitHost :: "string \<Rightarrow> (string \<times> string) option" where
  "splitHost key =
     (case lastIndexByte key CHR ''@'' of
        None \<Rightarrow> None
      | Some i \<Rightarrow> if i = length key - 1 then None else Some (take i key, drop (i + 1) key))"

text \<open>Every malformed key is rejected; the texts of the errors are not modelled.\<close>

definition parsePaneKey :: "string \<Rightarrow> (string \<times> int \<times> int \<times> string) option" where
  "parsePaneKey key =
     (case splitHost key of
        None \<Rightarrow> None
      | Some (body, host) \<Rightarrow>
          (case cut CHR '':'' body of (kind, scope, ok) \<Rightarrow>
             if \<not> ok \<or> kind \<noteq> ''pane'' then None
             else (case cut CHR '':'' scope of (sess, rest, ok) \<Rightarrow>
               if \<not> ok \<or> sess = [] then None
               else (case cut CHR ''.'' rest of (winStr, paneStr, ok) \<Rightarrow>
                 if \<not> ok then None
                 else if indexAny paneStr '':.'' \<noteq> None then None
                 else (case (atoi winStr, atoi paneStr) of
                         (AtoiOk w, AtoiOk p) \<Rightarrow> Some (sess, w, p, host)
                       | _ \<Rightarrow> None)))))"

definition isIdle :: "string \<Rightarrow> string list \<Rightarrow> bool" where
  "isIdle cmd idleShells = list_ex (\<lambda>sh. cmd = sh) idleShells"

subsection \<open>Control-mode notifications\<close>

definition baseStructural :: "string list" where
  "baseStructural = [''%window-add'', ''%window-close'', ''%unlinked-window-add'', ''%unlinked-window-close'',
     ''%window-pane-changed'', ''%layout-change'', ''%sessions-changed'',
     ''%session-changed'', ''%session-window-changed'']"

definition leadingInt :: "string \<Rightarrow> int" where
  "leadingInt s = atoiVal (atoi (takeWhile isDigit s))"

definition parseVer :: "string \<Rightarrow> int \<times> int" where
  "parseVer v = (case indexByte v CHR ''.'' of
     None \<Rightarrow> (leadingInt v, 0)
   | Some d \<Rightarrow> (leadingInt (take d v), leadingInt (drop (d + 1) v)))"

definition versionAtLeast :: "string \<Rightarrow> int \<Rightarrow> int \<Rightarrow> bool" where
  "versionAtLeast version major minor =
     (let f = strFields version; v = (if f \<noteq> [] then List.last f else version); (maj, mn) = parseVer v in
      if maj \<noteq> major then maj > major else mn \<ge> minor)"

definition supportsPaneExited :: "string \<Rightarrow> bool" where
  "supportsPaneExited version = versionAtLeast version 3 7"

definition structuralPrefixes :: "string \<Rightarrow> string list" where
  "structuralPrefixes version =
     (if supportsPaneExited version then baseStructural @ [''%pane-exited''] else baseStructural)"

definition isStructural :: "string \<Rightarrow> string \<Rightarrow> bool" where
  "isStructural line version = list_ex (hasPrefix line) (structuralPrefixes version)"

subsection \<open>Lemmas\<close>

definition paneWf :: "string \<times> int \<times> int \<times> string \<Rightarrow> bool" where
  "paneWf x = (case x of (session, w, p, host) \<Rightarrow>
     session \<noteq> [] \<and> CHR '':'' \<notin> set session \<and> in64 w \<and> in64 p \<and> host \<noteq> [] \<and> CHR ''@'' \<notin> set host)"

definition printPane :: "string \<times> int \<times> int \<times> string \<Rightarrow> string" where
  "printPane x = (case x of (session, w, p, host) \<Rightarrow> paneKey session w p host)"

lemma splitHost_append:
  assumes "CHR ''@'' \<notin> set h" "h \<noteq> []"
  shows "splitHost (b @ ''@'' @ h) = Some (b, h)"
proof -
  have "lastIndexByte (b @ CHR ''@'' # h) CHR ''@'' = Some (length b)" using assms(1) by simp
  with assms(2) show ?thesis by (simp add: splitHost_def)
qed

lemma itoa_chars: "c \<in> set (itoa n) \<Longrightarrow> c \<noteq> CHR ''.'' \<and> c \<noteq> CHR '':'' \<and> c \<noteq> CHR ''@''"
  using set_itoa [of c n] by (auto simp: isDigit_def)

lemma parse_printPane:
  assumes "paneWf x"
  shows "parsePaneKey (printPane x) = Some x"
proof -
  obtain s w p h where x: "x = (s, w, p, h)" by (cases x)
  have wf: "s \<noteq> []" "CHR '':'' \<notin> set s" "in64 w" "in64 p" "h \<noteq> []" "CHR ''@'' \<notin> set h" using assms by (simp_all add: paneWf_def x)
  define b where "b = ''pane:'' @ s @ '':'' @ itoa w @ ''.'' @ itoa p"
  have "splitHost (printPane x) = Some (b, h)"
    using splitHost_append [OF wf(6,5), of b] by (simp add: printPane_def x paneKey_def b_def)
  moreover have "cut CHR '':'' b = (''pane'', s @ CHR '':'' # itoa w @ CHR ''.'' # itoa p, True)"
    using cut_append [of "CHR '':''" "''pane''" "s @ CHR '':'' # itoa w @ CHR ''.'' # itoa p"] by (simp add: b_def)
  moreover have "cut CHR '':'' (s @ CHR '':'' # itoa w @ CHR ''.'' # itoa p) = (s, itoa w @ CHR ''.'' # itoa p, True)"
    using wf(2) by simp
  moreover have "cut CHR ''.'' (itoa w @ CHR ''.'' # itoa p) = (itoa w, itoa p, True)"
    using itoa_chars [of _ w] by (intro cut_append) blast
  moreover have "indexAny (itoa p) '':.'' = None" using itoa_chars [of _ p] by (intro indexAny_absent) auto
  ultimately show ?thesis using wf by (simp add: parsePaneKey_def x)
qed

interpretation tmuxkey: key_format printPane parsePaneKey paneWf
  by unfold_locales (rule parse_printPane)

subsection \<open>Properties\<close>

text \<open>Pane keys round trip and are injective: the parser reads back exactly the session, window,
  pane and host a key was printed from, for every session name tmux allows and any integers,
  so distinct panes never share a cache row.\<close>

theorem pane_key_roundtrip:
  assumes "paneWf (s, w, p, h)"
  shows "parsePaneKey (paneKey s w p h) = Some (s, w, p, h)
    \<and> (\<forall>s' w' p' h'. paneWf (s', w', p', h') \<longrightarrow> paneKey s' w' p' h' = paneKey s w p h \<longrightarrow> (s', w', p', h') = (s, w, p, h))"
proof (intro conjI allI impI)
  show "parsePaneKey (paneKey s w p h) = Some (s, w, p, h)" using tmuxkey.parse_print [OF assms] by (simp add: printPane_def)
  show "(s', w', p', h') = (s, w, p, h)" if "paneWf (s', w', p', h')" "paneKey s' w' p' h' = paneKey s w p h" for s' w' p' h'
    using tmuxkey.print_inj [OF that(1) assms] that(2) by (simp add: printPane_def)
qed

theorem pane_key_roundtrip_witness: "parsePaneKey ''pane:a.b@c:0.1@box'' = Some (''a.b@c'', 0, 1, ''box'')"
proof -
  have wf: "paneWf (''a.b@c'', 0, 1, ''box'')" by code_simp
  have k: "paneKey ''a.b@c'' 0 1 ''box'' = ''pane:a.b@c:0.1@box''" by code_simp
  show ?thesis using conjunct1 [OF pane_key_roundtrip [OF wf]] unfolding k .
qed

end
