(* ===== verification/TmuxStore.thy ===== *)
theory TmuxStore
  imports TmuxKeys CoreStore
begin

text \<open>
  \<open>plugins/tmux/store.go\<close>: the read model of the local tmux server in two tables. The session and
  index columns of a pane are stored beside its key; the host is parsed back from the key.
\<close>

record PaneRow =
  pnKey :: string
  pnHostID :: string
  pnSession :: string
  pnWindow :: int
  pnPane :: int
  pnPid :: int
  pnCmd :: string
  pnPath :: string
  pnActive :: bool
  pnFree :: bool
  pnStaleSince :: "instant option"

record SessionRow =
  seKey :: string
  seHostID :: string
  seName :: string
  seWorktree :: string
  seBranch :: string
  seLastSeenAt :: "instant option"
  seStaleSince :: "instant option"

text \<open>The rows of the tables; a NULL column is \<open>None\<close>.\<close>

record paneTbl =
  ptKey :: string
  ptSession :: string
  ptWindow :: int
  ptPane :: int
  ptPid :: int
  ptCmd :: string
  ptPath :: "string option"
  ptActive :: int
  ptFree :: int
  ptSeen :: "string option"
  ptStale :: "string option"

record sessTbl =
  stKey :: string
  stName :: string
  stWorktree :: "string option"
  stBranch :: "string option"
  stSeen :: "string option"
  stStale :: "string option"

record tmux_db = core_db +
  tmuxSessions :: "sessTbl list"
  tmuxPanes :: "paneTbl list"

definition tmuxMigrate :: "'a tmux_db_scheme \<Rightarrow> unit res \<times> 'a tmux_db_scheme" where
  "tmuxMigrate s =
     (let (ok, s1) = stmt s in
      if \<not> ok then (Inl ''tmux: migrate'', s1)
      else (Inr (), fold createTable [''tmux_sessions'', ''tmux_panes''] s1))"

definition b2i :: "bool \<Rightarrow> int" where
  "b2i b = (if b then 1 else 0)"

definition sessRowOf :: "SessionRow \<Rightarrow> string \<Rightarrow> sessTbl" where
  "sessRowOf r ts = \<lparr>stKey = seKey r, stName = seName r, stWorktree = Some (seWorktree r), stBranch = Some (seBranch r),
     stSeen = Some ts, stStale = None\<rparr>"

definition paneRowOf :: "PaneRow \<Rightarrow> string \<Rightarrow> paneTbl" where
  "paneRowOf r ts = \<lparr>ptKey = pnKey r, ptSession = pnSession r, ptWindow = pnWindow r, ptPane = pnPane r, ptPid = pnPid r,
     ptCmd = pnCmd r, ptPath = Some (pnPath r), ptActive = b2i (pnActive r), ptFree = b2i (pnFree r),
     ptSeen = Some ts, ptStale = None\<rparr>"

definition upsertSession :: "SessionRow \<Rightarrow> instant \<Rightarrow> 'a tmux_db_scheme \<Rightarrow> unit res \<times> 'a tmux_db_scheme" where
  "upsertSession r now s =
     (let (ok, s1) = stmt s in
      if \<not> ok then (Inl ''tmux: upsert session'', s1)
      else (Inr (), s1\<lparr>tmuxSessions := tblUpsert stKey (sessRowOf r (formatRFC3339Nano now)) (tmuxSessions s1)\<rparr>))"

definition putPane :: "PaneRow \<Rightarrow> string \<Rightarrow> 'a tmux_db_scheme \<Rightarrow> 'a tmux_db_scheme" where
  "putPane r ts s = s\<lparr>tmuxPanes := tblUpsert ptKey (paneRowOf r ts) (tmuxPanes s)\<rparr>"

definition upsertPane :: "PaneRow \<Rightarrow> instant \<Rightarrow> 'a tmux_db_scheme \<Rightarrow> unit res \<times> 'a tmux_db_scheme" where
  "upsertPane r now s =
     (let (ok, s1) = stmt s in
      if \<not> ok then (Inl ''tmux: upsert pane'', s1) else (Inr (), putPane r (formatRFC3339Nano now) s1))"

definition stalePane :: "string \<Rightarrow> string \<Rightarrow> 'a tmux_db_scheme \<Rightarrow> 'a tmux_db_scheme" where
  "stalePane key ts s = s\<lparr>tmuxPanes :=
     tblUpdate (\<lambda>r. ptKey r = key \<and> ptStale r = None) (\<lambda>r. r\<lparr>ptStale := Some ts\<rparr>) (tmuxPanes s)\<rparr>"

definition markPaneStale :: "string \<Rightarrow> instant \<Rightarrow> 'a tmux_db_scheme \<Rightarrow> unit res \<times> 'a tmux_db_scheme" where
  "markPaneStale key now s =
     (let (ok, s1) = stmt s in
      if \<not> ok then (Inl ''update'', s1) else (Inr (), stalePane key (formatRFC3339Nano now) s1))"

definition markAllStale :: "instant \<Rightarrow> 'a tmux_db_scheme \<Rightarrow> unit res \<times> 'a tmux_db_scheme" where
  "markAllStale now s =
     (let ts = formatRFC3339Nano now; (ok, s1) = stmt s in
      if \<not> ok then (Inl ''update'', s1)
      else let s2 = s1\<lparr>tmuxPanes := tblUpdate (\<lambda>r. ptStale r = None) (\<lambda>r. r\<lparr>ptStale := Some ts\<rparr>) (tmuxPanes s1)\<rparr>;
               (ok2, s3) = stmt s2 in
      if \<not> ok2 then (Inl ''update'', s3)
      else (Inr (), s3\<lparr>tmuxSessions := tblUpdate (\<lambda>r. stStale r = None) (\<lambda>r. r\<lparr>stStale := Some ts\<rparr>) (tmuxSessions s3)\<rparr>))"

definition livePaneKeys :: "'a tmux_db_scheme \<Rightarrow> string list res \<times> 'a tmux_db_scheme" where
  "livePaneKeys s =
     (let (ok, s1) = stmt s in
      if \<not> ok then (Inl ''select'', s1) else (Inr (map ptKey (filter (\<lambda>r. ptStale r = None) (tmuxPanes s1))), s1))"

definition nsTime :: "string option \<Rightarrow> instant option" where
  "nsTime ns = (case ns of None \<Rightarrow> None | Some t \<Rightarrow> if t = [] then None else parseRFC3339 t)"

text \<open>\<open>_, host, _ := splitHost(key)\<close>: a key without a host reads as the empty host.\<close>

definition keyHost :: "string \<Rightarrow> string" where
  "keyHost key = (case splitHost key of None \<Rightarrow> [] | Some (_, h) \<Rightarrow> h)"

definition nullStr :: "string option \<Rightarrow> string" where
  "nullStr ns = (case ns of None \<Rightarrow> [] | Some t \<Rightarrow> t)"

definition scanPane :: "paneTbl \<Rightarrow> PaneRow" where
  "scanPane r = \<lparr>pnKey = ptKey r, pnHostID = keyHost (ptKey r), pnSession = ptSession r, pnWindow = ptWindow r,
     pnPane = ptPane r, pnPid = ptPid r, pnCmd = ptCmd r, pnPath = nullStr (ptPath r), pnActive = (ptActive r = 1),
     pnFree = (ptFree r = 1), pnStaleSince = nsTime (ptStale r)\<rparr>"

text \<open>\<open>livePaneRows\<close> returns a map by key; here the association list of it.\<close>

definition livePaneRows :: "'a tmux_db_scheme \<Rightarrow> (string \<times> PaneRow) list res \<times> 'a tmux_db_scheme" where
  "livePaneRows s =
     (let (ok, s1) = stmt s in
      if \<not> ok then (Inl ''select'', s1)
      else (Inr (map (\<lambda>r. (ptKey r, scanPane r)) (filter (\<lambda>r. ptStale r = None) (tmuxPanes s1))), s1))"

definition scanPanes :: "string \<Rightarrow> 'a tmux_db_scheme \<Rightarrow> PaneRow list res \<times> 'a tmux_db_scheme" where
  "scanPanes host s =
     (let (ok, s1) = stmt s in
      if \<not> ok then (Inl ''select'', s1)
      else (Inr (filter (\<lambda>r. host = [] \<or> pnHostID r = host) (map scanPane (sort_key ptKey (tmuxPanes s1)))), s1))"

definition scanSession :: "sessTbl \<Rightarrow> SessionRow" where
  "scanSession r = \<lparr>seKey = stKey r, seHostID = keyHost (stKey r), seName = stName r, seWorktree = nullStr (stWorktree r),
     seBranch = nullStr (stBranch r), seLastSeenAt = nsTime (stSeen r), seStaleSince = nsTime (stStale r)\<rparr>"

definition scanSessions :: "string \<Rightarrow> 'a tmux_db_scheme \<Rightarrow> SessionRow list res \<times> 'a tmux_db_scheme" where
  "scanSessions host s =
     (let (ok, s1) = stmt s in
      if \<not> ok then (Inl ''select'', s1)
      else (Inr (filter (\<lambda>r. host = [] \<or> seHostID r = host) (map scanSession (sort_key stKey (tmuxSessions s1)))), s1))"

text \<open>The join yields a pane once per session of its name that is on the branch.\<close>

definition panesForBranch :: "string \<Rightarrow> 'a tmux_db_scheme \<Rightarrow> PaneRow list res \<times> 'a tmux_db_scheme" where
  "panesForBranch branch s =
     (let (ok, s1) = stmt s in
      if \<not> ok then (Inl ''select'', s1)
      else (Inr (map scanPane (concat (map (\<lambda>p.
              map (\<lambda>_. p) (filter (\<lambda>se. stName se = ptSession p \<and> stBranch se = Some branch) (tmuxSessions s1)))
              (sort_key ptKey (tmuxPanes s1))))), s1))"

subsection \<open>Lemmas\<close>

definition paneAt :: "'a tmux_db_scheme \<Rightarrow> string \<Rightarrow> paneTbl option" where
  "paneAt s key = tblGet ptKey key (tmuxPanes s)"

definition paneStale :: "'a tmux_db_scheme \<Rightarrow> string \<Rightarrow> string option" where
  "paneStale s key = Option.bind (paneAt s key) ptStale"

definition paneTracked :: "'a tmux_db_scheme \<Rightarrow> string \<Rightarrow> bool" where
  "paneTracked s key = (paneAt s key \<noteq> None)"

lemma paneAt_putPane [simp]: "paneAt (putPane r ts s) k = (if k = pnKey r then Some (paneRowOf r ts) else paneAt s k)"
  by (simp add: paneAt_def putPane_def tblGet_upsert paneRowOf_def)

lemma paneAt_stalePane [simp]:
  "paneAt (stalePane k' ts s) k = map_option (\<lambda>r. if k = k' \<and> ptStale r = None then r\<lparr>ptStale := Some ts\<rparr> else r) (paneAt s k)"
  unfolding paneAt_def stalePane_def
  by (cases "tblGet ptKey k (tmuxPanes s)") (auto simp: tblGet_update dest: tblGet_SomeD)

interpretation tst: stale_marks paneStale paneTracked stalePane "\<lambda>k. putPane (r\<lparr>pnKey := k\<rparr>)"
proof unfold_locales
  fix s :: "'a tmux_db_scheme" and k k' t
  assume tr: "paneTracked s k"
  then obtain x where x: "paneAt s k = Some x" by (auto simp: paneTracked_def)
  show "paneStale (stalePane k' t s) k = (if k = k' \<and> paneStale s k = None then Some t else paneStale s k)"
    by (simp add: paneStale_def x)
  show "paneStale (putPane (r\<lparr>pnKey := k'\<rparr>) t s) k = (if k = k' then None else paneStale s k)"
    by (simp add: paneStale_def paneRowOf_def)
  show "paneTracked (stalePane k' t s) k" "paneTracked (putPane (r\<lparr>pnKey := k'\<rparr>) t s) k"
    using tr by (simp_all add: paneTracked_def)
qed

lemma tmux_frames [simp]:
  "faults (putPane r ts s) = faults s" "faults (stalePane k ts s) = faults s"
  "tmuxSessions (putPane r ts s) = tmuxSessions s" "tmuxSessions (stalePane k ts s) = tmuxSessions s"
  by (simp_all add: putPane_def stalePane_def)

lemma tmux_no_faults [simp]:
  "faults s = [] \<Longrightarrow> upsertPane r now s = (Inr (), putPane r (formatRFC3339Nano now) s)"
  "faults s = [] \<Longrightarrow> markPaneStale k now s = (Inr (), stalePane k (formatRFC3339Nano now) s)"
  by (simp_all add: upsertPane_def markPaneStale_def)

lemma tblInv_panes:
  "tblInv ptKey (tmuxPanes s) \<Longrightarrow> tblInv ptKey (tmuxPanes (putPane r ts s))"
  "tblInv ptKey (tmuxPanes s) \<Longrightarrow> tblInv ptKey (tmuxPanes (stalePane k ts s))"
  by (simp_all add: putPane_def stalePane_def)

text \<open>The keys of the panes that are not stale.\<close>

definition livePanes :: "'a tmux_db_scheme \<Rightarrow> string set" where
  "livePanes s = {k. \<exists>r. paneAt s k = Some r \<and> ptStale r = None}"

lemma livePanes_putPane: "livePanes (putPane r ts s) = insert (pnKey r) (livePanes s)"
  by (auto simp: livePanes_def paneRowOf_def)

lemma livePanes_stalePane: "livePanes (stalePane k ts s) = livePanes s - {k}"
proof (rule set_eqI)
  show "x \<in> livePanes (stalePane k ts s) \<longleftrightarrow> x \<in> livePanes s - {k}" for x
    by (cases "paneAt s x") (auto simp: livePanes_def)
qed

end
