(* ===== verification/Tmux.thy ===== *)
theory Tmux
  imports TmuxStore
begin

text \<open>
  The tmux plugin (\<open>plugins/tmux\<close>: \<open>tmux.go\<close>, \<open>snapshot.go\<close>, \<open>control.go\<close>, \<open>resolver.go\<close>): the reconcile
  poll that diffs the server's panes against the store, the control-mode watcher, and the
  reads of the graph. The tmux and git commands are functions of the world \<open>'u\<close>; \<open>mapOrder\<close> is
  the order in which Go ranges over a map. A definition reads the clock once, its argument \<open>now\<close>.
\<close>

record tmuxConfig =
  tcSocket :: string
  tcEventSource :: string
  tcReconcileInterval :: duration
  tcIdleShells :: "string list"
  tcSlotKind :: string
  tcReconnectBackoffMax :: duration
  tcMinStableAttach :: duration
  tcTmuxPath :: string
  tcConfigured :: bool

definition tmuxNew :: "obj option \<Rightarrow> tmuxConfig" where
  "tmuxNew raw =
     \<lparr>tcSocket = cfgStr raw ''socket'' [],
      tcEventSource = cfgStr raw ''eventSource'' ''control'',
      tcReconcileInterval = (let n = cfgInt raw ''reconcileIntervalSeconds'' 0 in if n > 0 then durMul n second else 15 * second),
      tcIdleShells = (case cfgStrs raw ''idleShells'' of Some xs \<Rightarrow> xs | None \<Rightarrow> [''zsh'', ''bash'', ''sh'', ''fish'']),
      tcSlotKind = cfgStr raw ''slotKind'' ''worker'',
      tcReconnectBackoffMax = (let n = cfgInt raw ''reconnectBackoffMaxSeconds'' 0 in if n > 0 then durMul n second else 30 * second),
      tcMinStableAttach = 2 * second,
      tcTmuxPath = cfgStr raw ''tmuxPath'' ''tmux'',
      tcConfigured = (case raw of None \<Rightarrow> False | Some m \<Rightarrow> m \<noteq> [])\<rparr>"

record 'u tmuxEnv =
  tcfg :: tmuxConfig
  tHost :: string
  tRun :: "string list \<Rightarrow> 'u \<Rightarrow> string option \<times> 'u"
  gitRevParse :: "string \<Rightarrow> 'u \<Rightarrow> string option"
  mapOrder :: "string list \<Rightarrow> string list"
  tMarshal :: "any \<Rightarrow> string"

record 'u tmuxSt =
  tdb :: tmux_db
  tworld :: 'u
  tVersion :: string
  tTrigger :: bool
  tEmitOn :: bool
  tEmitted :: "envelope list"

definition onTdb :: "(tmux_db \<Rightarrow> 'r \<times> tmux_db) \<Rightarrow> 'u tmuxSt \<Rightarrow> 'r \<times> 'u tmuxSt" where
  "onTdb f p = (let (r, d) = f (tdb p) in (r, p\<lparr>tdb := d\<rparr>))"

subsection \<open>Snapshot\<close>

definition paneFmt :: string where
  "paneFmt = joinStr [CHR 0x09] [''#{session_name}'', ''#{window_index}'', ''#{pane_index}'', ''#{pane_pid}'',
     ''#{pane_current_command}'', ''#{pane_current_path}'', ''#{pane_active}'']"

definition sessFmt :: string where
  "sessFmt = joinStr [CHR 0x09] [''#{session_name}'', ''#{session_path}'']"

definition tmuxArgs :: "'u tmuxEnv \<Rightarrow> string list \<Rightarrow> string list" where
  "tmuxArgs E sub =
     (if tcSocket (tcfg E) = [] then sub
      else if containsStr (tcSocket (tcfg E)) ''/'' then [''-S'', tcSocket (tcfg E)] @ sub
      else [''-L'', tcSocket (tcfg E)] @ sub)"

definition runTmux :: "'u tmuxEnv \<Rightarrow> string list \<Rightarrow> 'u tmuxSt \<Rightarrow> string option \<times> 'u tmuxSt" where
  "runTmux E args p = (let (r, u) = tRun E args (tworld p) in (r, p\<lparr>tworld := u\<rparr>))"

definition tmuxEvent :: "'u tmuxEnv \<Rightarrow> string \<Rightarrow> string \<Rightarrow> obj \<Rightarrow> instant \<Rightarrow> envelope" where
  "tmuxEvent E typ key payload now =
     \<lparr>TS = now, Source = ''tmux'', EType = typ, V = 1, Key = key, Payload = tMarshal E (AObj payload)\<rparr>"

definition tmuxEmit :: "'u tmuxEnv \<Rightarrow> string \<Rightarrow> string \<Rightarrow> obj \<Rightarrow> instant \<Rightarrow> 'u tmuxSt \<Rightarrow> 'u tmuxSt" where
  "tmuxEmit E typ key payload now p =
     (if tEmitOn p then p\<lparr>tEmitted := tEmitted p @ [tmuxEvent E typ key payload now]\<rparr> else p)"

definition panePayload :: "PaneRow \<Rightarrow> obj" where
  "panePayload r = [(''key'', AStr (pnKey r)), (''session'', AStr (pnSession r)), (''window'', AInt (pnWindow r)),
     (''pane'', AInt (pnPane r)), (''pid'', AInt (pnPid r)), (''cmd'', AStr (pnCmd r)), (''path'', AStr (pnPath r)),
     (''active'', ABool (pnActive r)), (''free'', ABool (pnFree r))]"

definition emitPane :: "'u tmuxEnv \<Rightarrow> string \<Rightarrow> PaneRow \<Rightarrow> instant \<Rightarrow> 'u tmuxSt \<Rightarrow> 'u tmuxSt" where
  "emitPane E typ r now p = tmuxEmit E typ (pnKey r) (panePayload r) now p"

definition splitLines :: "string \<Rightarrow> string list" where
  "splitLines out = filter (\<lambda>l. trimSpace l \<noteq> []) (splitOn (CHR 0x0A) out)"

definition parsePaneLine :: "string \<Rightarrow> string list \<Rightarrow> string \<Rightarrow> PaneRow option" where
  "parsePaneLine host idleShells line =
     (let f = splitOn (CHR 0x09) line in
      if length f < 7 then None
      else case (atoi (f ! 1), atoi (f ! 2)) of
             (AtoiOk win, AtoiOk pane) \<Rightarrow>
               Some \<lparr>pnKey = paneKey (f ! 0) win pane host, pnHostID = host, pnSession = f ! 0, pnWindow = win, pnPane = pane,
                     pnPid = atoiVal (atoi (f ! 3)), pnCmd = f ! 4, pnPath = f ! 5, pnActive = (f ! 6 = ''1''),
                     pnFree = isIdle (f ! 4) idleShells, pnStaleSince = None\<rparr>
           | _ \<Rightarrow> None)"

definition parsePanes :: "string \<Rightarrow> string \<Rightarrow> string list \<Rightarrow> PaneRow list" where
  "parsePanes host out idleShells = List.map_filter (parsePaneLine host idleShells) (splitLines out)"

definition parseSessions :: "string \<Rightarrow> string \<Rightarrow> (string \<Rightarrow> string) \<Rightarrow> SessionRow list" where
  "parseSessions host out branchOf = List.map_filter (\<lambda>line.
     let f = splitOn (CHR 0x09) line in
     if length f < 2 then None
     else Some \<lparr>seKey = sessionKey (f ! 0) host, seHostID = host, seName = f ! 0, seWorktree = f ! 1,
                seBranch = branchOf (f ! 1), seLastSeenAt = None, seStaleSince = None\<rparr>) (splitLines out)"

definition gitBranch :: "'u tmuxEnv \<Rightarrow> 'u \<Rightarrow> string \<Rightarrow> string" where
  "gitBranch E u path =
     (if path = [] then [] else case gitRevParse E path u of None \<Rightarrow> [] | Some out \<Rightarrow> trimSpace out)"

definition paneChanged :: "PaneRow \<Rightarrow> PaneRow \<Rightarrow> bool" where
  "paneChanged old cur \<longleftrightarrow> pnFree old \<noteq> pnFree cur \<or> pnCmd old \<noteq> pnCmd cur \<or> pnPath old \<noteq> pnPath cur"

fun upsertSessions :: "SessionRow list \<Rightarrow> instant \<Rightarrow> 'u tmuxSt \<Rightarrow> unit res \<times> 'u tmuxSt" where
  "upsertSessions [] now p = (Inr (), p)"
| "upsertSessions (r # rs) now p =
     (case onTdb (upsertSession r now) p of (Inl e, p1) \<Rightarrow> (Inl e, p1) | (Inr _, p1) \<Rightarrow> upsertSessions rs now p1)"

text \<open>The loop over the panes listed; \<open>prev\<close> is the live map before it.\<close>

fun upsertPanes :: "'u tmuxEnv \<Rightarrow> (string \<times> PaneRow) list \<Rightarrow> PaneRow list \<Rightarrow> instant \<Rightarrow> 'u tmuxSt \<Rightarrow> unit res \<times> 'u tmuxSt" where
  "upsertPanes E prev [] now p = (Inr (), p)"
| "upsertPanes E prev (r # rs) now p =
     (case onTdb (upsertPane r now) p of
        (Inl e, p1) \<Rightarrow> (Inl e, p1)
      | (Inr _, p1) \<Rightarrow>
          upsertPanes E prev rs now
            (if (case map_of prev (pnKey r) of None \<Rightarrow> True | Some old \<Rightarrow> paneChanged old r)
             then emitPane E ''tmux.pane.updated'' r now p1 else p1))"

fun closePanes :: "'u tmuxEnv \<Rightarrow> string list \<Rightarrow> instant \<Rightarrow> 'u tmuxSt \<Rightarrow> unit res \<times> 'u tmuxSt" where
  "closePanes E [] now p = (Inr (), p)"
| "closePanes E (k # ks) now p =
     (case onTdb (markPaneStale k now) p of
        (Inl e, p1) \<Rightarrow> (Inl e, p1)
      | (Inr _, p1) \<Rightarrow> closePanes E ks now (tmuxEmit E ''tmux.pane.closed'' k [(''key'', AStr k)] now p1))"

definition tmuxReconcile :: "'u tmuxEnv \<Rightarrow> instant \<Rightarrow> 'u tmuxSt \<Rightarrow> unit res \<times> 'u tmuxSt" where
  "tmuxReconcile E now p =
     (case runTmux E (tmuxArgs E [''list-sessions'', ''-F'', sessFmt]) p of
        (None, p1) \<Rightarrow> (Inl ''tmux: list-sessions'', snd (onTdb (markAllStale now) p1))
      | (Some sessOut, p1) \<Rightarrow>
          (case runTmux E (tmuxArgs E [''list-panes'', ''-a'', ''-F'', paneFmt]) p1 of
             (None, p2) \<Rightarrow> (Inl ''tmux: list-panes'', snd (onTdb (markAllStale now) p2))
           | (Some paneOut, p2) \<Rightarrow>
               (case onTdb livePaneRows p2 of
                  (Inl e, p3) \<Rightarrow> (Inl e, p3)
                | (Inr prev, p3) \<Rightarrow>
                    (case upsertSessions (parseSessions (tHost E) sessOut (gitBranch E (tworld p3))) now p3 of
                       (Inl e, p4) \<Rightarrow> (Inl e, p4)
                     | (Inr _, p4) \<Rightarrow>
                         (let panes = parsePanes (tHost E) paneOut (tcIdleShells (tcfg E)) in
                          case upsertPanes E prev panes now p4 of
                            (Inl e, p5) \<Rightarrow> (Inl e, p5)
                          | (Inr _, p5) \<Rightarrow>
                              (case closePanes E (filter (\<lambda>k. k \<notin> set (map pnKey panes)) (mapOrder E (map fst prev))) now p5 of
                                 (Inl e, p6) \<Rightarrow> (Inl e, p6)
                               | (Inr _, p6) \<Rightarrow>
                                   (let p7 = tmuxEmit E ''tmux.snapshot'' (serverKey (tHost E))
                                          [(''hostId'', AStr (tHost E)), (''paneCount'', AInt (int (length panes)))] now p6
                                    in (Inr (), snd (onTdb (SetCursor ''snapshot:lastAt'' (formatRFC3339Nano now)) p7)))))))))"

subsection \<open>Control mode\<close>

definition triggerReconcile :: "'u tmuxSt \<Rightarrow> 'u tmuxSt" where
  "triggerReconcile p = p\<lparr>tTrigger := True\<rparr>"

definition nextBackoff :: "duration \<Rightarrow> duration \<Rightarrow> duration" where
  "nextBackoff cur mx = (if cur \<ge> mx then mx else let n = wrap64 (cur * 2) in if n < mx then n else mx)"

definition probeAlive :: "'u tmuxEnv \<Rightarrow> 'u tmuxSt \<Rightarrow> bool \<times> 'u tmuxSt" where
  "probeAlive E p = (let (r, p1) = runTmux E (tmuxArgs E [''list-sessions'']) p in (r \<noteq> None, p1))"

text \<open>The scan loop of \<open>attachOnce\<close> over the lines the client printed.\<close>

fun attachLines :: "string \<Rightarrow> string list \<Rightarrow> bool \<Rightarrow> 'u tmuxSt \<Rightarrow> bool \<times> 'u tmuxSt" where
  "attachLines version [] attached p = (attached, p)"
| "attachLines version (line # ls) attached p =
     (if hasPrefix line ''%exit'' then (True, p)
      else if hasPrefix line ''%begin'' \<or> hasPrefix line ''%end'' \<or> hasPrefix line ''%error''
      then attachLines version ls True p
      else attachLines version ls True (if isStructural line version then triggerReconcile p else p))"

text \<open>\<open>None\<close>: the child could not be started.\<close>

definition attachOnce :: "string list option \<Rightarrow> 'u tmuxSt \<Rightarrow> bool \<times> 'u tmuxSt" where
  "attachOnce lines p =
     (case lines of None \<Rightarrow> (False, p) | Some ls \<Rightarrow> attachLines (tVersion p) ls False (triggerReconcile p))"

definition serverDown :: "'u tmuxEnv \<Rightarrow> instant \<Rightarrow> 'u tmuxSt \<Rightarrow> 'u tmuxSt" where
  "serverDown E now p =
     tmuxEmit E ''tmux.server.down'' (serverKey (tHost E)) [(''hostId'', AStr (tHost E))] now (snd (onTdb (markAllStale now) p))"

record watchSt =
  wBackoff :: duration
  wUp :: bool

definition startWatch :: watchSt where
  "startWatch = \<lparr>wBackoff = second, wUp = True\<rparr>"

text \<open>One cycle of \<open>watch\<close>: the lines an attach would print and how long it would hold. The pause is
  \<open>None\<close> when the cycle retries promptly.\<close>

definition watchTurn ::
  "'u tmuxEnv \<Rightarrow> string list option \<Rightarrow> duration \<Rightarrow> instant \<Rightarrow> watchSt \<times> 'u tmuxSt \<Rightarrow> duration option \<times> watchSt \<times> 'u tmuxSt" where
  "watchTurn E lines held now wp =
     (let (w, p) = wp;
          (alive, p1) = probeAlive E p;
          (genuine, p2) = (if alive then (let (att, q) = attachOnce lines p1 in (att \<and> held \<ge> tcMinStableAttach (tcfg E), q))
                           else (False, p1)) in
      if genuine then (None, \<lparr>wBackoff = second, wUp = True\<rparr>, p2)
      else (let p3 = (if wUp w then serverDown E now p2 else p2)
            in (Some (wBackoff w), \<lparr>wBackoff = nextBackoff (wBackoff w) (tcReconnectBackoffMax (tcfg E)), wUp = False\<rparr>, p3)))"

text \<open>\<open>Start\<close> up to its loop: dormant without configuration, else the version is read.\<close>

definition tmuxStart :: "'u tmuxEnv \<Rightarrow> 'u tmuxSt \<Rightarrow> bool \<times> 'u tmuxSt" where
  "tmuxStart E p =
     (let p1 = p\<lparr>tEmitOn := True\<rparr> in
      if \<not> tcConfigured (tcfg E) then (False, p1)
      else case runTmux E [''-V''] p1 of
             (None, p2) \<Rightarrow> (True, p2)
           | (Some out, p2) \<Rightarrow> (True, p2\<lparr>tVersion := out\<rparr>))"

definition tmuxCursor :: "'u tmuxEnv \<Rightarrow> 'u tmuxSt \<Rightarrow> string \<times> 'u tmuxSt" where
  "tmuxCursor E p =
     (if \<not> tcConfigured (tcfg E) then (''dormant: no [plugins.tmux] config'', p)
      else case onTdb (Cursor ''snapshot:lastAt'') p of (Inl _, p1) \<Rightarrow> ([], p1) | (Inr v, p1) \<Rightarrow> (v, p1))"

subsection \<open>Reads\<close>

record SlotRow =
  slHostID :: string
  slKind :: string
  slPaneKey :: string
  slFree :: bool
  slStaleSince :: "instant option"

text \<open>The reads over the current instance, empty before \<open>New\<close> and \<open>Migrate\<close> have run.\<close>

definition withStore :: "('d \<Rightarrow> 'r list res \<times> 'd) \<Rightarrow> 'd single_ptr \<Rightarrow> 'r list res \<times> 'd single_ptr" where
  "withStore f cur = (case singleGet cur of None \<Rightarrow> (Inr [], cur) | Some s \<Rightarrow> (let (r, s1) = f s in (r, singleSet s1 cur)))"

definition Sessions :: "string \<Rightarrow> tmux_db single_ptr \<Rightarrow> SessionRow list res \<times> tmux_db single_ptr" where
  "Sessions host cur = withStore (scanSessions host) cur"

definition Panes :: "string \<Rightarrow> tmux_db single_ptr \<Rightarrow> PaneRow list res \<times> tmux_db single_ptr" where
  "Panes host cur = withStore (scanPanes host) cur"

definition slotsOf :: "string \<Rightarrow> bool \<Rightarrow> PaneRow list \<Rightarrow> SlotRow list" where
  "slotsOf kind freeOnly panes = List.map_filter (\<lambda>pr.
     let free = (pnFree pr \<and> pnStaleSince pr = None) in
     if freeOnly \<and> \<not> free then None
     else Some \<lparr>slHostID = pnHostID pr, slKind = kind, slPaneKey = pnKey pr, slFree = free, slStaleSince = pnStaleSince pr\<rparr>) panes"

definition Slots :: "'u tmuxEnv \<Rightarrow> string \<Rightarrow> bool \<Rightarrow> tmux_db single_ptr \<Rightarrow> SlotRow list res \<times> tmux_db single_ptr" where
  "Slots E host freeOnly cur =
     (case Panes host cur of
        (Inl e, c) \<Rightarrow> (Inl e, c)
      | (Inr panes, c) \<Rightarrow> (Inr (slotsOf (tcSlotKind (tcfg E)) freeOnly panes), c))"

definition PaneForBranch :: "string \<Rightarrow> tmux_db single_ptr \<Rightarrow> PaneRow list res \<times> tmux_db single_ptr" where
  "PaneForBranch branch cur = withStore (panesForBranch branch) cur"

subsection \<open>Lemmas\<close>

lemma onTdb_pair: "onTdb f p = (fst (f (tdb p)), p\<lparr>tdb := snd (f (tdb p))\<rparr>)"
  by (simp add: onTdb_def split: prod.splits)

lemma nextBackoff_law: "0 < b \<Longrightarrow> b \<le> m \<Longrightarrow> m < 2 ^ 62 \<Longrightarrow> nextBackoff b m = min (2 * b) m"
  by (simp add: nextBackoff_def wrap64_id in64_def Let_def min_def)

interpretation tbo: capped_backoff nextBackoff
  by unfold_locales (rule nextBackoff_law)

lemma tmuxEmit_fields [simp]:
  "tdb (tmuxEmit E t k pl now p) = tdb p" "tworld (tmuxEmit E t k pl now p) = tworld p"
  "tEmitOn (tmuxEmit E t k pl now p) = tEmitOn p"
  "tEmitOn p \<Longrightarrow> tEmitted (tmuxEmit E t k pl now p) = tEmitted p @ [tmuxEvent E t k pl now]"
  by (simp_all add: tmuxEmit_def)

lemma emitPane_fields [simp]:
  "tdb (emitPane E t r now p) = tdb p" "tEmitOn (emitPane E t r now p) = tEmitOn p"
  "tEmitOn p \<Longrightarrow> tEmitted (emitPane E t r now p) = tEmitted p @ [tmuxEvent E t (pnKey r) (panePayload r) now]"
  by (simp_all add: emitPane_def)

lemma upsertSessions_ok:
  "faults (tdb p) = [] \<Longrightarrow> \<exists>d. upsertSessions rs now p = (Inr (), p\<lparr>tdb := d\<rparr>) \<and> faults d = []
     \<and> tmuxPanes d = tmuxPanes (tdb p)"
proof (induction rs arbitrary: p)
  case Nil
  then show ?case by (auto intro: exI [of _ "tdb p"])
next
  case (Cons r rs)
  let ?p = "p\<lparr>tdb := snd (upsertSession r now (tdb p))\<rparr>"
  have s: "onTdb (upsertSession r now) p = (Inr (), ?p)" "faults (tdb ?p) = []" "tmuxPanes (tdb ?p) = tmuxPanes (tdb p)"
    using Cons.prems by (simp_all add: onTdb_pair upsertSession_def)
  from Cons.IH [OF s(2)] s(1,3) show ?case by auto
qed

definition paneEvent :: "'u tmuxEnv \<Rightarrow> instant \<Rightarrow> PaneRow \<Rightarrow> envelope" where
  "paneEvent E now r = tmuxEvent E ''tmux.pane.updated'' (pnKey r) (panePayload r) now"

definition closedEvent :: "'u tmuxEnv \<Rightarrow> instant \<Rightarrow> string \<Rightarrow> envelope" where
  "closedEvent E now k = tmuxEvent E ''tmux.pane.closed'' k [(''key'', AStr k)] now"

definition paneNews :: "(string \<times> PaneRow) list \<Rightarrow> PaneRow \<Rightarrow> bool" where
  "paneNews prev r \<longleftrightarrow> (case map_of prev (pnKey r) of None \<Rightarrow> True | Some old \<Rightarrow> paneChanged old r)"

lemma upsertPanes_ok:
  assumes "faults (tdb p) = []" "tEmitOn p" "upsertPanes E prev rs now p = (r, p')"
  shows "r = Inr () \<and> tdb p' = fold (\<lambda>x. putPane x (formatRFC3339Nano now)) rs (tdb p)
    \<and> tEmitted p' = tEmitted p @ map (paneEvent E now) (filter (paneNews prev) rs) \<and> tEmitOn p'"
  using assms
proof (induction rs arbitrary: p)
  case Nil
  then show ?case by simp
next
  case (Cons x rs)
  define q where "q = p\<lparr>tdb := putPane x (formatRFC3339Nano now) (tdb p)\<rparr>"
  define q' where "q' = (if paneNews prev x then emitPane E ''tmux.pane.updated'' x now q else q)"
  have q: "faults (tdb q') = []" "tEmitOn q'" "tdb q' = putPane x (formatRFC3339Nano now) (tdb p)"
      "tEmitted q' = tEmitted p @ (if paneNews prev x then [paneEvent E now x] else [])"
    using Cons.prems(1,2) by (simp_all add: q'_def q_def paneEvent_def)
  have "upsertPanes E prev rs now q' = (r, p')"
    using Cons.prems by (simp add: onTdb_pair q_def [symmetric] paneNews_def [symmetric] q'_def [symmetric])
  from Cons.IH [OF q(1,2) this] q(3,4) show ?case by simp
qed

lemma closePanes_ok:
  assumes "faults (tdb p) = []" "tEmitOn p" "closePanes E ks now p = (r, p')"
  shows "r = Inr () \<and> tdb p' = fold (\<lambda>k. stalePane k (formatRFC3339Nano now)) ks (tdb p)
    \<and> tEmitted p' = tEmitted p @ map (closedEvent E now) ks \<and> tEmitOn p'"
  using assms
proof (induction ks arbitrary: p)
  case Nil
  then show ?case by simp
next
  case (Cons k ks)
  define q where "q = tmuxEmit E ''tmux.pane.closed'' k [(''key'', AStr k)] now (p\<lparr>tdb := stalePane k (formatRFC3339Nano now) (tdb p)\<rparr>)"
  have q: "faults (tdb q) = []" "tEmitOn q" "tdb q = stalePane k (formatRFC3339Nano now) (tdb p)" "tEmitted q = tEmitted p @ [closedEvent E now k]"
    using Cons.prems(1,2) by (simp_all add: q_def closedEvent_def)
  have "closePanes E ks now q = (r, p')" using Cons.prems by (simp add: onTdb_pair q_def)
  from Cons.IH [OF q(1,2) this] q(3,4) show ?case by simp
qed

lemma faults_folds [simp]:
  "faults (fold (\<lambda>x. putPane x ts) rs s) = faults s" "faults (fold (\<lambda>k. stalePane k ts) ks s) = faults s"
proof -
  show "faults (fold (\<lambda>x. putPane x ts) rs s) = faults s" by (induction rs arbitrary: s) simp_all
  show "faults (fold (\<lambda>k. stalePane k ts) ks s) = faults s" by (induction ks arbitrary: s) simp_all
qed

lemma livePanes_folds:
  "livePanes (fold (\<lambda>x. putPane x ts) rs s) = pnKey ` set rs \<union> livePanes s"
  "livePanes (fold (\<lambda>k. stalePane k ts) ks s) = livePanes s - set ks"
proof -
  show "livePanes (fold (\<lambda>x. putPane x ts) rs s) = pnKey ` set rs \<union> livePanes s"
    by (induction rs arbitrary: s) (auto simp: livePanes_putPane)
  show "livePanes (fold (\<lambda>k. stalePane k ts) ks s) = livePanes s - set ks"
    by (induction ks arbitrary: s) (auto simp: livePanes_stalePane)
qed

lemma paneAt_put_fold: "k \<notin> pnKey ` set rs \<Longrightarrow> paneAt (fold (\<lambda>x. putPane x ts) rs s) k = paneAt s k"
  by (induction rs arbitrary: s) auto

lemma paneStale_fold:
  "paneStale (fold (\<lambda>k. stalePane k ts) ks s) k = (if k \<in> set ks \<and> k \<in> livePanes s then Some ts else paneStale s k)"
proof (induction ks arbitrary: s)
  case Nil
  then show ?case by simp
next
  case (Cons x ks)
  have "paneStale (stalePane x ts s) k = (if k = x \<and> k \<in> livePanes s then Some ts else paneStale s k)"
    by (cases "paneAt s k") (auto simp: paneStale_def livePanes_def)
  with Cons show ?case by (auto simp: livePanes_stalePane)
qed

lemma livePaneRows_ok:
  assumes "faults s = []" "tblInv ptKey (tmuxPanes s)"
  obtains prev where "livePaneRows s = (Inr prev, s)" "set (map fst prev) = livePanes s"
    "\<And>k r. paneAt s k = Some r \<Longrightarrow> ptStale r = None \<Longrightarrow> map_of prev k = Some (scanPane r)"
    "\<And>k. k \<notin> livePanes s \<Longrightarrow> map_of prev k = None"
proof
  let ?prev = "map (\<lambda>r. (ptKey r, scanPane r)) (filter (\<lambda>r. ptStale r = None) (tmuxPanes s))"
  have get: "paneAt s k = Some r \<longleftrightarrow> r \<in> set (tmuxPanes s) \<and> ptKey r = k" for k r
    unfolding paneAt_def using tblInv_get [OF assms(2)] .
  show "livePaneRows s = (Inr ?prev, s)" using assms(1) by (simp add: livePaneRows_def)
  show keys: "set (map fst ?prev) = livePanes s" by (auto simp: livePanes_def get)
  have "distinct (map fst ?prev)"
    using assms(2) by (simp add: tblInv_def o_def distinct_map inj_on_def)
  then show "paneAt s k = Some r \<Longrightarrow> ptStale r = None \<Longrightarrow> map_of ?prev k = Some (scanPane r)" for k r
    by (intro map_of_is_SomeI) (auto simp: get)
  show "k \<notin> livePanes s \<Longrightarrow> map_of ?prev k = None" for k
    unfolding map_of_eq_None_iff set_map [symmetric] keys .
qed

lemma runTmux_fields: "runTmux E a q = (x, q') \<Longrightarrow> tdb q' = tdb q \<and> tEmitted q' = tEmitted q \<and> tEmitOn q' = tEmitOn q"
  by (auto simp: runTmux_def Let_def split: prod.splits)

text \<open>The pane table after a poll depends on the pane table alone.\<close>

lemma panes_only:
  assumes "tmuxPanes a = tmuxPanes b"
  shows "tmuxPanes (fold (\<lambda>k. stalePane k ts) ks (fold (\<lambda>x. putPane x ts) ps a))
    = tmuxPanes (fold (\<lambda>k. stalePane k ts) ks (fold (\<lambda>x. putPane x ts) ps b))"
proof -
  have "tmuxPanes (fold (\<lambda>x. putPane x ts) rs a) = tmuxPanes (fold (\<lambda>x. putPane x ts) rs b)" for rs
    using assms by (induction rs arbitrary: a b) (simp_all add: putPane_def)
  moreover have "tmuxPanes c = tmuxPanes d \<Longrightarrow> tmuxPanes (fold (\<lambda>k. stalePane k ts) js c) = tmuxPanes (fold (\<lambda>k. stalePane k ts) js d)" for js c d
    by (induction js arbitrary: c d) (simp_all add: stalePane_def)
  ultimately show ?thesis by blast
qed

lemma tmuxReconcile_ok:
  assumes "faults (tdb p) = []" "tblInv ptKey (tmuxPanes (tdb p))" "tEmitOn p"
    and "fst (runTmux E (tmuxArgs E [''list-sessions'', ''-F'', sessFmt]) p) = Some so"
    and "fst (runTmux E (tmuxArgs E [''list-panes'', ''-a'', ''-F'', paneFmt])
           (snd (runTmux E (tmuxArgs E [''list-sessions'', ''-F'', sessFmt]) p))) = Some po"
    and "\<And>ks. set (mapOrder E ks) = set ks"
  obtains prev ks p' where "tmuxReconcile E now p = (Inr (), p')" "livePaneRows (tdb p) = (Inr prev, tdb p)"
    "set ks = livePanes (tdb p) - pnKey ` set (parsePanes (tHost E) po (tcIdleShells (tcfg E)))"
    "paneAt (tdb p') = paneAt (fold (\<lambda>k. stalePane k (formatRFC3339Nano now)) ks
        (fold (\<lambda>x. putPane x (formatRFC3339Nano now)) (parsePanes (tHost E) po (tcIdleShells (tcfg E))) (tdb p)))"
    "tEmitted p' = tEmitted p @ map (paneEvent E now) (filter (paneNews prev) (parsePanes (tHost E) po (tcIdleShells (tcfg E))))
        @ map (closedEvent E now) ks @ [tmuxEvent E ''tmux.snapshot'' (serverKey (tHost E))
          [(''hostId'', AStr (tHost E)), (''paneCount'', AInt (int (length (parsePanes (tHost E) po (tcIdleShells (tcfg E))))))] now]"
proof -
  let ?ts = "formatRFC3339Nano now"
  define panes where "panes = parsePanes (tHost E) po (tcIdleShells (tcfg E))"
  obtain p1 where r1: "runTmux E (tmuxArgs E [''list-sessions'', ''-F'', sessFmt]) p = (Some so, p1)"
    using assms(4) by (metis prod.collapse)
  obtain p2 where r2: "runTmux E (tmuxArgs E [''list-panes'', ''-a'', ''-F'', paneFmt]) p1 = (Some po, p2)"
    using assms(5) r1 by (metis prod.collapse snd_conv)
  have p2: "tdb p2 = tdb p" "tEmitted p2 = tEmitted p" "tEmitOn p2" using runTmux_fields [OF r1] runTmux_fields [OF r2] assms(3) by simp_all
  have same: "p2\<lparr>tdb := tdb p\<rparr> = p2" using p2(1) by (metis tmuxSt.surjective tmuxSt.update_convs(1))
  obtain prev where prev: "livePaneRows (tdb p) = (Inr prev, tdb p)" "set (map fst prev) = livePanes (tdb p)"
    using livePaneRows_ok [OF assms(1,2)] .
  define sess where "sess = parseSessions (tHost E) so (gitBranch E (tworld p2))"
  obtain d where d: "upsertSessions sess now p2 = (Inr (), p2\<lparr>tdb := d\<rparr>)" "faults d = []" "tmuxPanes d = tmuxPanes (tdb p)"
    using upsertSessions_ok [of p2 sess now] assms(1) p2 by auto
  obtain u4 p4 where u: "upsertPanes E prev panes now (p2\<lparr>tdb := d\<rparr>) = (u4, p4)"
    by (cases "upsertPanes E prev panes now (p2\<lparr>tdb := d\<rparr>)")
  have p4: "u4 = Inr ()" "tdb p4 = fold (\<lambda>x. putPane x ?ts) panes d"
      "tEmitted p4 = tEmitted p @ map (paneEvent E now) (filter (paneNews prev) panes)" "tEmitOn p4"
    using upsertPanes_ok [OF _ _ u] d p2 by simp_all
  define ks where "ks = filter (\<lambda>k. k \<notin> pnKey ` set panes) (mapOrder E (map fst prev))"
  obtain u5 p5 where c: "closePanes E ks now p4 = (u5, p5)" by (cases "closePanes E ks now p4")
  have p5: "u5 = Inr ()" "tdb p5 = fold (\<lambda>k. stalePane k ?ts) ks (tdb p4)" "tEmitted p5 = tEmitted p4 @ map (closedEvent E now) ks" "tEmitOn p5"
    using closePanes_ok [OF _ p4(4) c] p4(2) d(2) by simp_all
  define p6 where "p6 = tmuxEmit E ''tmux.snapshot'' (serverKey (tHost E))
      [(''hostId'', AStr (tHost E)), (''paneCount'', AInt (int (length panes)))] now p5"
  have p6db: "tdb p6 = tdb p5" by (simp add: p6_def)
  have rec: "tmuxReconcile E now p = (Inr (), snd (onTdb (SetCursor ''snapshot:lastAt'' ?ts) p6))"
    unfolding tmuxReconcile_def r1 prod.case option.case r2 onTdb_pair p2(1) prev(1) fst_conv snd_conv sum.case
    using d(1) u c p4(1) p5(1) same p6db
    by (simp add: Let_def sess_def [symmetric] panes_def [symmetric] ks_def [symmetric] p6_def [symmetric])
  have "faults (tdb p6) = []" using p5(2) p4(2) d(2) by (simp add: p6_def)
  then have cur: "tmuxPanes (tdb (snd (onTdb (SetCursor ''snapshot:lastAt'' ?ts) p6))) = tmuxPanes (tdb p5)"
      "tEmitted (snd (onTdb (SetCursor ''snapshot:lastAt'' ?ts) p6)) = tEmitted p6"
    by (simp_all add: onTdb_pair SetCursor_def p6_def)
  note tp = panes_only [OF d(3)]
  show ?thesis
  proof (rule that [OF rec prev(1), of ks])
    show "set ks = livePanes (tdb p) - pnKey ` set (parsePanes (tHost E) po (tcIdleShells (tcfg E)))"
      using prev(2) assms(6) by (auto simp: ks_def panes_def)
    show "paneAt (tdb (snd (onTdb (SetCursor ''snapshot:lastAt'' ?ts) p6))) = paneAt (fold (\<lambda>k. stalePane k ?ts) ks
        (fold (\<lambda>x. putPane x ?ts) (parsePanes (tHost E) po (tcIdleShells (tcfg E))) (tdb p)))"
      unfolding paneAt_def cur(1) p5(2) p4(2) panes_def [symmetric] tp ..
    show "tEmitted (snd (onTdb (SetCursor ''snapshot:lastAt'' ?ts) p6)) = tEmitted p
        @ map (paneEvent E now) (filter (paneNews prev) (parsePanes (tHost E) po (tcIdleShells (tcfg E))))
        @ map (closedEvent E now) ks @ [tmuxEvent E ''tmux.snapshot'' (serverKey (tHost E))
          [(''hostId'', AStr (tHost E)), (''paneCount'', AInt (int (length (parsePanes (tHost E) po (tcIdleShells (tcfg E))))))] now]"
      unfolding cur(2) panes_def [symmetric] by (simp add: p6_def p5(3,4) p4(3))
  qed
qed

lemma tmuxReconcile_down:
  assumes "fst (runTmux E (tmuxArgs E [''list-sessions'', ''-F'', sessFmt]) p) = None \<or>
      fst (runTmux E (tmuxArgs E [''list-panes'', ''-a'', ''-F'', paneFmt])
           (snd (runTmux E (tmuxArgs E [''list-sessions'', ''-F'', sessFmt]) p))) = None"
  shows "\<exists>e p'. tmuxReconcile E now p = (Inl e, p') \<and> tdb p' = snd (markAllStale now (tdb p)) \<and> tEmitted p' = tEmitted p"
proof -
  have run: "tdb (snd (runTmux E a q)) = tdb q" "tEmitted (snd (runTmux E a q)) = tEmitted q" for a q
    by (simp_all add: runTmux_def Let_def split: prod.splits)
  define a b where "a = tmuxArgs E [''list-sessions'', ''-F'', sessFmt]" and "b = tmuxArgs E [''list-panes'', ''-a'', ''-F'', paneFmt]"
  obtain r1 p1 where r1: "runTmux E a p = (r1, p1)" by (cases "runTmux E a p")
  obtain r2 p2 where r2: "runTmux E b p1 = (r2, p2)" by (cases "runTmux E b p1")
  have "tdb p1 = tdb p" "tEmitted p1 = tEmitted p" "tdb p2 = tdb p" "tEmitted p2 = tEmitted p"
    using run [of a p] run [of b p1] by (simp_all add: r1 r2)
  moreover have "r1 = None \<or> r2 = None" using assms by (simp add: a_def [symmetric] b_def [symmetric] r1 r2)
  ultimately show ?thesis
    unfolding tmuxReconcile_def a_def [symmetric] b_def [symmetric]
    by (cases r1; cases r2) (simp_all add: r1 r2 onTdb_pair)
qed

lemma markAllStale_ok:
  assumes "faults s = []"
  shows "livePanes (snd (markAllStale now s)) = {}" "\<forall>r \<in> set (tmuxSessions (snd (markAllStale now s))). stStale r \<noteq> None"
proof -
  let ?f = "\<lambda>r. if ptStale r = None then r\<lparr>ptStale := Some (formatRFC3339Nano now)\<rparr> else r"
  have "paneAt (snd (markAllStale now s)) k = map_option ?f (paneAt s k)" for k
    using assms by (simp add: markAllStale_def Let_def paneAt_def tblGet_update)
  then show "livePanes (snd (markAllStale now s)) = {}" by (auto simp: livePanes_def split: if_splits)
  show "\<forall>r \<in> set (tmuxSessions (snd (markAllStale now s))). stStale r \<noteq> None"
    using assms by (auto simp: markAllStale_def Let_def set_tblUpdate split: if_splits)
qed

text \<open>The announcements of a run of watch cycles: one per maximal run of cycles that held no session.\<close>

fun downEdges :: "bool \<Rightarrow> bool list \<Rightarrow> nat" where
  "downEdges up [] = 0"
| "downEdges up (g # gs) = (if g then downEdges True gs else (if up then 1 else 0) + downEdges False gs)"

definition watchRun ::
  "'u tmuxEnv \<Rightarrow> (string list option \<times> duration \<times> instant) list \<Rightarrow> watchSt \<times> 'u tmuxSt \<Rightarrow> watchSt \<times> 'u tmuxSt" where
  "watchRun E cycles wp = fold (\<lambda>(ls, held, now) wp. snd (watchTurn E ls held now wp)) cycles wp"

text \<open>Whether each cycle held a session.\<close>

fun genuineCycles :: "'u tmuxEnv \<Rightarrow> (string list option \<times> duration \<times> instant) list \<Rightarrow> watchSt \<times> 'u tmuxSt \<Rightarrow> bool list" where
  "genuineCycles E [] wp = []"
| "genuineCycles E ((ls, held, now) # cs) wp =
     (fst (watchTurn E ls held now wp) = None) # genuineCycles E cs (snd (watchTurn E ls held now wp))"

lemma attachLines_fields:
  "tEmitted (snd (attachLines v ls a p)) = tEmitted p" "tEmitOn (snd (attachLines v ls a p)) = tEmitOn p"
  by (induction ls arbitrary: a p) (simp_all add: triggerReconcile_def)

lemma watchTurn_events:
  assumes "tEmitOn p"
  shows "tEmitOn (snd (snd (watchTurn E ls held now (w, p))))
    \<and> tEmitted (snd (snd (watchTurn E ls held now (w, p)))) = tEmitted p @
        (if fst (watchTurn E ls held now (w, p)) \<noteq> None \<and> wUp w
         then [tmuxEvent E ''tmux.server.down'' (serverKey (tHost E)) [(''hostId'', AStr (tHost E))] now] else [])
    \<and> wUp (fst (snd (watchTurn E ls held now (w, p)))) = (fst (watchTurn E ls held now (w, p)) = None)"
proof -
  obtain al p1 where pr: "probeAlive E p = (al, p1)" by (cases "probeAlive E p")
  have p1: "tEmitted p1 = tEmitted p" "tEmitOn p1" using pr assms by (auto simp: probeAlive_def runTmux_def split: prod.splits)
  obtain at p2 where a: "attachOnce ls p1 = (at, p2)" by (cases "attachOnce ls p1")
  have p2: "tEmitted p2 = tEmitted p1" "tEmitOn p2"
    using a p1(2) attachLines_fields [of "tVersion p1" _ False "triggerReconcile p1"]
    by (auto simp: attachOnce_def triggerReconcile_def split: option.splits) (metis snd_conv)+
  show ?thesis
    using p1 p2 by (simp add: watchTurn_def pr a Let_def serverDown_def onTdb_pair)
qed

lemma watchRun_events:
  assumes "tEmitOn p" "watchRun E cycles (w, p) = (w', p')"
  shows "length (filter (\<lambda>e. EType e = ''tmux.server.down'') (tEmitted p'))
    = length (filter (\<lambda>e. EType e = ''tmux.server.down'') (tEmitted p)) + downEdges (wUp w) (genuineCycles E cycles (w, p))
    \<and> length (tEmitted p') = length (tEmitted p) + downEdges (wUp w) (genuineCycles E cycles (w, p))"
  using assms
proof (induction cycles arbitrary: w p)
  case Nil
  then show ?case by (simp add: watchRun_def)
next
  case (Cons c cycles)
  obtain ls held now where c: "c = (ls, held, now)" by (cases c)
  obtain d w1 p1 where t: "watchTurn E ls held now (w, p) = (d, w1, p1)" by (cases "watchTurn E ls held now (w, p)")
  have e: "tEmitOn p1" "tEmitted p1 = tEmitted p @ (if d \<noteq> None \<and> wUp w
      then [tmuxEvent E ''tmux.server.down'' (serverKey (tHost E)) [(''hostId'', AStr (tHost E))] now] else [])" "wUp w1 = (d = None)"
    using watchTurn_events [OF Cons.prems(1), of E ls held now w] by (simp_all add: t)
  have "watchRun E cycles (w1, p1) = (w', p')" using Cons.prems(2) by (simp add: watchRun_def c t)
  from Cons.IH [OF e(1) this] e(2,3) show ?case by (cases d) (simp_all add: c t tmuxEvent_def)
qed

subsection \<open>Properties\<close>

text \<open>C12. A successful poll makes the read model the server's: afterwards exactly the panes listed are
  live; a pane that vanished is stale since this poll, one that was stale before keeps its mark;
  and the events are an update for each new or changed pane, a close for each vanished one, and
  one snapshot with the number of panes.\<close>

theorem tmux_reconcile_exact:
  assumes "faults (tdb p) = []" "tblInv ptKey (tmuxPanes (tdb p))" "tEmitOn p"
    and "fst (runTmux E (tmuxArgs E [''list-sessions'', ''-F'', sessFmt]) p) = Some so"
    and "fst (runTmux E (tmuxArgs E [''list-panes'', ''-a'', ''-F'', paneFmt])
           (snd (runTmux E (tmuxArgs E [''list-sessions'', ''-F'', sessFmt]) p))) = Some po"
    and "\<And>ks. set (mapOrder E ks) = set ks"
  shows "let panes = parsePanes (tHost E) po (tcIdleShells (tcfg E)); (r, p') = tmuxReconcile E now p in
    r = Inr () \<and> livePanes (tdb p') = pnKey ` set panes
    \<and> (\<forall>k. k \<notin> pnKey ` set panes \<longrightarrow> paneStale (tdb p') k =
          (if k \<in> livePanes (tdb p) then Some (formatRFC3339Nano now) else paneStale (tdb p) k))
    \<and> (\<exists>prev ks. livePaneRows (tdb p) = (Inr prev, tdb p) \<and> set ks = livePanes (tdb p) - pnKey ` set panes
        \<and> tEmitted p' = tEmitted p @ map (paneEvent E now) (filter (paneNews prev) panes) @ map (closedEvent E now) ks
            @ [tmuxEvent E ''tmux.snapshot'' (serverKey (tHost E))
                 [(''hostId'', AStr (tHost E)), (''paneCount'', AInt (int (length panes)))] now])"
proof -
  let ?ts = "formatRFC3339Nano now"
  define panes where "panes = parsePanes (tHost E) po (tcIdleShells (tcfg E))"
  obtain prev ks p' where r: "tmuxReconcile E now p = (Inr (), p')" "livePaneRows (tdb p) = (Inr prev, tdb p)"
    "set ks = livePanes (tdb p) - pnKey ` set panes"
    "paneAt (tdb p') = paneAt (fold (\<lambda>k. stalePane k ?ts) ks (fold (\<lambda>x. putPane x ?ts) panes (tdb p)))"
    "tEmitted p' = tEmitted p @ map (paneEvent E now) (filter (paneNews prev) panes) @ map (closedEvent E now) ks
        @ [tmuxEvent E ''tmux.snapshot'' (serverKey (tHost E))
             [(''hostId'', AStr (tHost E)), (''paneCount'', AInt (int (length panes)))] now]"
    by (rule tmuxReconcile_ok [OF assms, of now, folded panes_def])
  define s where "s = fold (\<lambda>x. putPane x ?ts) panes (tdb p)"
  have "livePanes (tdb p') = livePanes (fold (\<lambda>k. stalePane k ?ts) ks s)" by (simp add: livePanes_def r(4) s_def)
  also have "\<dots> = pnKey ` set panes" using r(3) by (auto simp: livePanes_folds s_def)
  finally have live: "livePanes (tdb p') = pnKey ` set panes" .
  have stale: "paneStale (tdb p') k = (if k \<in> livePanes (tdb p) then Some ?ts else paneStale (tdb p) k)"
    if "k \<notin> pnKey ` set panes" for k
  proof -
    have "paneStale (tdb p') k = paneStale (fold (\<lambda>k. stalePane k ?ts) ks s) k" by (simp add: paneStale_def r(4) s_def)
    moreover have at: "paneAt s k = paneAt (tdb p) k" using paneAt_put_fold [OF that] by (simp add: s_def)
    then have "k \<in> livePanes s \<longleftrightarrow> k \<in> livePanes (tdb p)" "paneStale s k = paneStale (tdb p) k"
      by (simp_all add: livePanes_def paneStale_def)
    ultimately show ?thesis using r(3) that by (simp add: paneStale_fold)
  qed
  show ?thesis
    unfolding panes_def [symmetric] Let_def r(1) prod.case
    by (intro conjI allI impI exI [of _ prev] exI [of _ ks] refl) (fact live, erule stale, fact r(2), fact r(3), fact r(5))
qed

definition demoTmuxDb :: tmux_db where
  "demoTmuxDb = \<lparr>faults = [], ringCapacity = 10, tables = [], schemaVersions = [], events = [], lastId = 0, cursors = [],
     tmuxSessions = [], tmuxPanes = [paneRowOf \<lparr>pnKey = ''pane:s:0.0@box'', pnHostID = ''box'', pnSession = ''s'', pnWindow = 0,
       pnPane = 0, pnPid = 7, pnCmd = ''vim'', pnPath = ''/'', pnActive = True, pnFree = False, pnStaleSince = None\<rparr> ''t'']\<rparr>"

text \<open>A server whose every command prints \<open>out\<close>, or fails.\<close>

definition demoTmuxEnv :: "string option \<Rightarrow> unit tmuxEnv" where
  "demoTmuxEnv out = \<lparr>tcfg = tmuxNew (Some [(''socket'', AStr ''x'')]), tHost = ''box'', tRun = (\<lambda>_ _. (out, ())), gitRevParse = (\<lambda>_ _. None),
     mapOrder = (\<lambda>ks. ks), tMarshal = (\<lambda>_. [])\<rparr>"

definition demoTmuxSt :: "unit tmuxSt" where
  "demoTmuxSt = \<lparr>tdb = demoTmuxDb, tworld = (), tVersion = ''tmux 3.6a'', tTrigger = False, tEmitOn = True, tEmitted = []\<rparr>"

theorem tmux_reconcile_exact_witness:
  "let (r, p') = tmuxReconcile (demoTmuxEnv (Some [])) 5 demoTmuxSt in
     r = Inr () \<and> livePanes (tdb p') = {} \<and> paneStale (tdb p') ''pane:s:0.0@box'' = Some (formatRFC3339Nano 5)"
proof -
  let ?E = "demoTmuxEnv (Some [])"
  have 1: "faults (tdb demoTmuxSt) = []" "tblInv ptKey (tmuxPanes (tdb demoTmuxSt))" "tEmitOn demoTmuxSt"
    by (simp_all add: demoTmuxSt_def demoTmuxDb_def tblInv_def)
  have run: "fst (runTmux ?E a q) = Some []" for a and q :: "unit tmuxSt"
    by (simp add: demoTmuxEnv_def runTmux_def)
  have ord: "set (mapOrder ?E ks) = set ks" for ks by (simp add: demoTmuxEnv_def)
  have nil: "trimSpace [] = []" by code_simp
  have none: "parsePanes (tHost ?E) [] (tcIdleShells (tcfg ?E)) = []"
    by (simp add: parsePanes_def splitLines_def map_filter_def nil)
  have live: "''pane:s:0.0@box'' \<in> livePanes (tdb demoTmuxSt)"
    by (simp add: livePanes_def demoTmuxSt_def demoTmuxDb_def paneAt_def paneRowOf_def)
  show ?thesis
    using tmux_reconcile_exact [OF 1 run run ord, of 5] live unfolding none Let_def by (auto split: prod.splits)
qed

text \<open>A poll that cannot reach the server announces nothing and leaves nothing live: if either
  listing fails, the poll returns an error, no event is emitted, and no pane or session is
  without a stale mark.\<close>

theorem tmux_poll_error_silent:
  assumes "faults (tdb p) = []"
    and "fst (runTmux E (tmuxArgs E [''list-sessions'', ''-F'', sessFmt]) p) = None \<or>
      fst (runTmux E (tmuxArgs E [''list-panes'', ''-a'', ''-F'', paneFmt])
           (snd (runTmux E (tmuxArgs E [''list-sessions'', ''-F'', sessFmt]) p))) = None"
  shows "\<exists>e p'. tmuxReconcile E now p = (Inl e, p') \<and> tEmitted p' = tEmitted p \<and> livePanes (tdb p') = {}
    \<and> (\<forall>r \<in> set (tmuxSessions (tdb p')). stStale r \<noteq> None)"
proof -
  obtain e p' where r: "tmuxReconcile E now p = (Inl e, p')" "tdb p' = snd (markAllStale now (tdb p))" "tEmitted p' = tEmitted p"
    using tmuxReconcile_down [OF assms(2), of now] by blast
  show ?thesis
    by (intro exI [of _ e] exI [of _ p']) (use r markAllStale_ok [OF assms(1), of now] in simp)
qed

theorem tmux_poll_error_silent_witness:
  "\<exists>e p'. tmuxReconcile (demoTmuxEnv None) 5 demoTmuxSt = (Inl e, p') \<and> tEmitted p' = [] \<and> livePanes (tdb p') = {}"
proof -
  have 1: "faults (tdb demoTmuxSt) = []" "tEmitted demoTmuxSt = []" by (simp_all add: demoTmuxSt_def demoTmuxDb_def)
  have 2: "fst (runTmux (demoTmuxEnv None) a q) = None" for a and q :: "unit tmuxSt" by (simp add: demoTmuxEnv_def runTmux_def)
  from tmux_poll_error_silent [OF 1(1) disjI1 [OF 2], of 5] 1(2) show ?thesis by auto
qed

text \<open>\<open>tmux.server.down\<close> is announced exactly once per outage: over any cycles of the watcher the
  number of announcements is the number of maximal runs of cycles that held no session, and the
  watcher emits nothing else.\<close>

theorem tmux_down_once:
  assumes "tEmitOn p" "tEmitted p = []" "watchRun E cycles (startWatch, p) = (w', p')"
  shows "length (tEmitted p') = downEdges True (genuineCycles E cycles (startWatch, p))
    \<and> (\<forall>e \<in> set (tEmitted p'). EType e = ''tmux.server.down'')"
proof -
  have *: "length (filter (\<lambda>e. EType e = ''tmux.server.down'') (tEmitted p')) = length (tEmitted p')"
      "length (tEmitted p') = downEdges True (genuineCycles E cycles (startWatch, p))"
    using watchRun_events [OF assms(1,3)] assms(2) by (simp_all add: startWatch_def)
  from *(1) have "filter (\<lambda>e. EType e = ''tmux.server.down'') (tEmitted p') = tEmitted p'"
    by (metis length_filter_less less_irrefl filter_True)
  with *(2) show ?thesis by (simp add: filter_id_conv)
qed

theorem tmux_down_once_witness:
  "length (tEmitted (snd (watchRun (demoTmuxEnv None) [(None, 0, 1), (None, 0, 2)] (startWatch, demoTmuxSt)))) = 1"
proof -
  obtain w' p' where r: "watchRun (demoTmuxEnv None) [(None, 0, 1), (None, 0, 2)] (startWatch, demoTmuxSt) = (w', p')"
    by (cases "watchRun (demoTmuxEnv None) [(None, 0, 1), (None, 0, 2)] (startWatch, demoTmuxSt)")
  have pr: "probeAlive (demoTmuxEnv None) q = (False, q)" for q :: "unit tmuxSt"
    by (simp add: probeAlive_def runTmux_def demoTmuxEnv_def)
  have "downEdges True (genuineCycles (demoTmuxEnv None) [(None, 0, 1), (None, 0, 2)] (startWatch, demoTmuxSt)) = 1"
    by (simp add: watchTurn_def pr Let_def split: prod.splits)
  moreover have "tEmitOn demoTmuxSt" "tEmitted demoTmuxSt = []" by (simp_all add: demoTmuxSt_def)
  ultimately show ?thesis using tmux_down_once [OF _ _ r] by (simp add: r)
qed

text \<open>A session that vanished stays as it was: the poll marks only panes.\<close>

lemma vanished_session_kept:
  "upsertSessions [] now p = (Inr (), p) \<and> tmuxSessions (fold (\<lambda>k. stalePane k ts) ks d) = tmuxSessions d"
  by (induction ks arbitrary: d) simp_all

end
