(* ===== verification/GitParse.thy ===== *)
theory GitParse
  imports GoValue GoNet
begin

text \<open>
  \<open>plugins/git/worktree.go\<close>: the pure parsers over the output of git: the porcelain worktree
  list, the ahead/behind counts and the repository slug of a remote URL.
\<close>

record Worktree =
  wtPath :: string
  wtBranch :: string
  wtHead :: string
  wtDetached :: bool
  wtBare :: bool

text \<open>The state of the scan: the rows flushed so far and the open stanza. The counts \<open>Ahead\<close> and
  \<open>Behind\<close> of the Go struct are never set by the parser.\<close>

fun porcelainLine :: "string \<Rightarrow> Worktree list \<times> Worktree option \<Rightarrow> Worktree list \<times> Worktree option" where
  "porcelainLine raw (out, cur) =
     (let line = trimRightByte (CHR 0x0D) raw;
          flushed = (case cur of None \<Rightarrow> out | Some w \<Rightarrow> out @ [w]) in
      if trimSpace line = [] then (flushed, None)
      else let (key, val, _) = cut CHR '' '' line in
      if key = ''worktree'' then (flushed, Some \<lparr>wtPath = val, wtBranch = [], wtHead = [], wtDetached = False, wtBare = False\<rparr>)
      else if key = ''HEAD'' then (out, map_option (\<lambda>w. w\<lparr>wtHead := val\<rparr>) cur)
      else if key = ''branch'' then (out, map_option (\<lambda>w. w\<lparr>wtBranch := trimPrefix val ''refs/heads/''\<rparr>) cur)
      else if key = ''detached'' then (out, map_option (\<lambda>w. w\<lparr>wtDetached := True\<rparr>) cur)
      else if key = ''bare'' then (out, map_option (\<lambda>w. w\<lparr>wtBare := True\<rparr>) cur)
      else (out, cur))"

definition parseWorktreeList :: "string \<Rightarrow> Worktree list" where
  "parseWorktreeList porcelain =
     (let (out, cur) = fold porcelainLine (splitOn (CHR 0x0A) porcelain) ([], None)
      in case cur of None \<Rightarrow> out | Some w \<Rightarrow> out @ [w])"

definition parseAheadBehind :: "string \<Rightarrow> (int \<times> int) option" where
  "parseAheadBehind out =
     (case strFields out of
        [f0, f1] \<Rightarrow> (case (atoi f0, atoi f1) of (AtoiOk a, AtoiOk b) \<Rightarrow> Some (a, b) | _ \<Rightarrow> None)
      | _ \<Rightarrow> None)"

definition segmentsToSlug :: "string \<Rightarrow> string option" where
  "segmentsToSlug path =
     (let p = trimByte CHR ''/'' (trimSuffix (trimRightByte CHR ''/'' path) ''.git'') in
      if p = [] then None
      else let parts = splitOn CHR ''/'' p in
      if length parts < 2 then None
      else Some (parts ! (length parts - 2) @ ''/'' @ parts ! (length parts - 1)))"

text \<open>\<open>strings.Cut(s, sep)\<close> for a separator of several bytes.\<close>

fun cutStr :: "string \<Rightarrow> string \<Rightarrow> (string \<times> string) option" where
  "cutStr sep [] = (if sep = [] then Some ([], []) else None)"
| "cutStr sep (c # s) = (if hasPrefix (c # s) sep then Some ([], drop (length sep) (c # s))
     else map_option (\<lambda>(a, b). (c # a, b)) (cutStr sep s))"

definition slugFromRemoteURL :: "string \<Rightarrow> string option" where
  "slugFromRemoteURL raw =
     (let s = trimSpace raw in
      if s = [] then None
      else if \<not> containsStr s ''://'' then
        (let (_, path, ok) = cut CHR '':'' s in if ok then segmentsToSlug path else None)
      else
        (case cutStr ''://'' s of
           None \<Rightarrow> None
         | Some (scheme, rest) \<Rightarrow>
             if equalFold scheme ''file'' then None
             else let (_, path, ok) = cut CHR ''/'' rest in if ok then segmentsToSlug path else None))"

definition pathBase :: "string \<Rightarrow> string" where
  "pathBase p =
     (if p = [] then ''.''
      else let q = trimRightByte CHR ''/'' p in
      if q = [] then ''/''
      else case lastIndexByte q CHR ''/'' of None \<Rightarrow> q | Some i \<Rightarrow> drop (i + 1) q)"

definition RepoSlug :: "string \<Rightarrow> string \<Rightarrow> string" where
  "RepoSlug remoteURL root = (case slugFromRemoteURL remoteURL of Some slug \<Rightarrow> slug | None \<Rightarrow> pathBase (pathClean root))"

subsection \<open>Lemmas\<close>

text \<open>What \<open>git worktree list --porcelain\<close> prints for a worktree.\<close>

definition printWorktree :: "Worktree \<Rightarrow> string list" where
  "printWorktree w = [''worktree '' @ wtPath w] @ (if wtHead w \<noteq> [] then [''HEAD '' @ wtHead w] else [])
     @ (if wtBranch w \<noteq> [] then [''branch refs/heads/'' @ wtBranch w] else [])
     @ (if wtDetached w then [''detached''] else []) @ (if wtBare w then [''bare''] else []) @ [[]]"

definition printWorktrees :: "Worktree list \<Rightarrow> string" where
  "printWorktrees ws = joinStr [CHR 0x0A] (concat (map printWorktree ws) @ [[]])"

definition lineText :: "string \<Rightarrow> bool" where
  "lineText s \<longleftrightarrow> CHR 0x0A \<notin> set s \<and> CHR 0x0D \<notin> set s"

definition worktreeWf :: "Worktree \<Rightarrow> bool" where
  "worktreeWf w \<longleftrightarrow> lineText (wtPath w) \<and> lineText (wtHead w) \<and> lineText (wtBranch w)"

lemma stripSeqs_keeps: "\<forall>w \<in> set ws. c \<notin> set w \<Longrightarrow> c \<in> set s \<Longrightarrow> c \<in> set (stripSeqs ws s)"
proof (induction ws s rule: stripSeqs.induct)
  case (1 ws s)
  show ?case
  proof (cases "find (\<lambda>w. w \<noteq> [] \<and> hasPrefix s w) ws")
    case None
    then show ?thesis using 1 by (simp add: stripSeqs.simps [of ws s])
  next
    case (Some w)
    then have w: "w \<in> set ws" "hasPrefix s w" by (auto dest: find_SomeD)
    then obtain t where t: "s = w @ t" by (auto simp: hasPrefix_iff)
    then have "c \<in> set (drop (length w) s)" using 1(2,3) w by auto
    with 1 Some show ?thesis by (simp add: stripSeqs.simps [of ws s])
  qed
qed

lemma trimSpace_keeps:
  assumes "\<forall>w \<in> set wsSeqs. c \<notin> set w" "c \<in> set s"
  shows "trimSpace s \<noteq> []"
proof -
  have "c \<in> set (trimLeftSpace s)" using stripSeqs_keeps [OF assms] by (simp add: trimLeftSpace_def)
  then have "c \<in> set (stripSeqs (map rev wsSeqs) (rev (trimLeftSpace s)))"
    using assms(1) by (intro stripSeqs_keeps) auto
  then show ?thesis by (auto simp: trimSpace_def trimRightSpace_def)
qed

lemma letters_not_space: "\<forall>w \<in> set wsSeqs. CHR ''e'' \<notin> set w" "\<forall>w \<in> set wsSeqs. CHR ''E'' \<notin> set w" "\<forall>w \<in> set wsSeqs. CHR ''a'' \<notin> set w"
  by code_simp+

lemma trimRightByte_absent: "c \<notin> set s \<Longrightarrow> trimRightByte c s = s"
  unfolding trimRightByte_def by (cases s rule: rev_cases) auto

declare porcelainLine.simps [simp del]

lemma line_simps:
  assumes "lineText x"
  shows "porcelainLine (''worktree '' @ x) (out, cur) =
      (case cur of None \<Rightarrow> out | Some w \<Rightarrow> out @ [w], Some \<lparr>wtPath = x, wtBranch = [], wtHead = [], wtDetached = False, wtBare = False\<rparr>)"
    and "porcelainLine (''HEAD '' @ x) (out, Some w) = (out, Some (w\<lparr>wtHead := x\<rparr>))"
    and "porcelainLine (''branch refs/heads/'' @ x) (out, Some w) = (out, Some (w\<lparr>wtBranch := x\<rparr>))"
proof -
  have tr: "trimRightByte (CHR 0x0D) (p @ x) = p @ x" if "CHR 0x0D \<notin> set p" for p
    using that assms by (intro trimRightByte_absent) (auto simp: lineText_def)
  have ne: "trimSpace (''worktree '' @ x) \<noteq> []" "trimSpace (''HEAD '' @ x) \<noteq> []" "trimSpace (''branch refs/heads/'' @ x) \<noteq> []"
    using trimSpace_keeps [OF letters_not_space(1), of "''worktree '' @ x"] trimSpace_keeps [OF letters_not_space(2), of "''HEAD '' @ x"]
      trimSpace_keeps [OF letters_not_space(3), of "''branch refs/heads/'' @ x"] by simp_all
  have ct: "cut CHR '' '' (''worktree '' @ x) = (''worktree'', x, True)" "cut CHR '' '' (''HEAD '' @ x) = (''HEAD'', x, True)"
    "cut CHR '' '' (''branch refs/heads/'' @ x) = (''branch'', ''refs/heads/'' @ x, True)"
    using cut_append [of "CHR '' ''" "''worktree''" x] cut_append [of "CHR '' ''" "''HEAD''" x]
      cut_append [of "CHR '' ''" "''branch''" "''refs/heads/'' @ x"] by simp_all
  show "porcelainLine (''worktree '' @ x) (out, cur) =
      (case cur of None \<Rightarrow> out | Some w \<Rightarrow> out @ [w], Some \<lparr>wtPath = x, wtBranch = [], wtHead = [], wtDetached = False, wtBare = False\<rparr>)"
    using tr [of "''worktree ''"] ne(1) ct(1) unfolding porcelainLine.simps Let_def by simp
  show "porcelainLine (''HEAD '' @ x) (out, Some w) = (out, Some (w\<lparr>wtHead := x\<rparr>))"
    using tr [of "''HEAD ''"] ne(2) ct(2) unfolding porcelainLine.simps Let_def by simp
  show "porcelainLine (''branch refs/heads/'' @ x) (out, Some w) = (out, Some (w\<lparr>wtBranch := x\<rparr>))"
    using tr [of "''branch refs/heads/''"] ne(3) ct(3) trimPrefix_append [of "''refs/heads/''" x]
    unfolding porcelainLine.simps Let_def by simp
qed

lemma flag_simps:
  "porcelainLine ''detached'' (out, Some w) = (out, Some (w\<lparr>wtDetached := True\<rparr>))"
  "porcelainLine ''bare'' (out, Some w) = (out, Some (w\<lparr>wtBare := True\<rparr>))"
  "porcelainLine [] (out, Some w) = (out @ [w], None)"
  "porcelainLine [] (out, None) = (out, None)"
proof -
  have t: "trimRightByte (CHR 0x0D) ''detached'' = ''detached''" "trimRightByte (CHR 0x0D) ''bare'' = ''bare''" "trimRightByte (CHR 0x0D) [] = []"
    by (rule trimRightByte_absent, simp)+
  have n: "trimSpace ''detached'' \<noteq> []" "trimSpace ''bare'' \<noteq> []"
    by (rule trimSpace_keeps [OF letters_not_space(1)], simp)+
  have e: "trimSpace [] = []" by code_simp
  show "porcelainLine ''detached'' (out, Some w) = (out, Some (w\<lparr>wtDetached := True\<rparr>))"
    "porcelainLine ''bare'' (out, Some w) = (out, Some (w\<lparr>wtBare := True\<rparr>))"
    "porcelainLine [] (out, Some w) = (out @ [w], None)" "porcelainLine [] (out, None) = (out, None)"
    by (simp_all add: porcelainLine.simps t n e)
qed

lemma parse_stanza:
  assumes "worktreeWf w"
  shows "fold porcelainLine (printWorktree w) (out, None) = (out @ [w], None)"
proof -
  obtain p b h d r where w: "w = \<lparr>wtPath = p, wtBranch = b, wtHead = h, wtDetached = d, wtBare = r\<rparr>" by (cases w)
  have l: "lineText p" "lineText h" "lineText b" using assms by (simp_all add: worktreeWf_def w)
  have step: "fold porcelainLine (if c then [x] else []) a = (if c then porcelainLine x a else a)" for c x a by simp
  show ?thesis
    unfolding printWorktree_def w Worktree.simps fold_append o_apply step fold_simps line_simps(1) [OF l(1)] option.case
    using l by (cases "h = []"; cases "b = []"; cases d; cases r)
      (simp_all only: if_True if_False simp_thms line_simps flag_simps Worktree.simps)
qed

lemma fold_stanzas:
  "\<forall>w \<in> set ws. worktreeWf w \<Longrightarrow> fold porcelainLine (concat (map printWorktree ws)) (out, None) = (out @ ws, None)"
  by (induction ws arbitrary: out) (simp_all add: parse_stanza)

lemma printWorktree_lines: "worktreeWf w \<Longrightarrow> \<forall>l \<in> set (printWorktree w). CHR 0x0A \<notin> set l"
  by (auto simp: printWorktree_def worktreeWf_def lineText_def split: if_splits)

subsection \<open>Properties\<close>



end
