(* ===== verification/Git.thy ===== *)
theory Git
  imports GitParse CoreStore
begin

text \<open>
  The git plugin (\<open>plugins/git\<close>: \<open>store.go\<close>, \<open>reconcile.go\<close>, \<open>git.go\<close>, \<open>resolver.go\<close>): the repositories and
  worktrees in two tables, the poll over the configured roots with its hash gate, and the
  reads of the graph. The git command is a function of the world \<open>'u\<close> that returns its output
  and whether it exited well; symbolic links and the home directory are arguments of \<open>expandRoot\<close>.
\<close>

record RepoNode =
  rnKey :: string
  rnHostID :: string
  rnSlug :: string
  rnRoot :: string
  rnStaleSince :: "instant option"

record WorktreeNode =
  wnKey :: string
  wnHostID :: string
  wnRepoKey :: string
  wnRepoSlug :: string
  wnPath :: string
  wnHead :: string
  wnBranch :: "string option"
  wnDetached :: bool
  wnAhead :: "int option"
  wnBehind :: "int option"
  wnStaleSince :: "instant option"

record repoTbl =
  rtKey :: string
  rtHost :: string
  rtSlug :: string
  rtRoot :: string
  rtSeen :: "string option"
  rtStale :: "string option"

record wtTbl =
  wrKey :: string
  wrHost :: string
  wrRepoKey :: string
  wrPath :: string
  wrBranch :: "string option"
  wrHead :: string
  wrDetached :: int
  wrAhead :: "int option"
  wrBehind :: "int option"
  wrSeen :: "string option"
  wrStale :: "string option"

record git_db = core_db +
  gitRepos :: "repoTbl list"
  gitWorktrees :: "wtTbl list"

subsection \<open>Store\<close>

definition gitMigrate :: "'a git_db_scheme \<Rightarrow> unit res \<times> 'a git_db_scheme" where
  "gitMigrate s =
     (let (ok, s1) = stmt s in
      if \<not> ok then (Inl ''git: migrate'', s1)
      else (Inr (), fold createTable [''git_repos'', ''git_worktrees''] s1))"

definition gitB2i :: "bool \<Rightarrow> int" where
  "gitB2i b = (if b then 1 else 0)"

definition upsertRepo :: "RepoNode \<Rightarrow> instant \<Rightarrow> 'a git_db_scheme \<Rightarrow> unit res \<times> 'a git_db_scheme" where
  "upsertRepo r now s =
     (let (ok, s1) = stmt s in
      if \<not> ok then (Inl ''git: upsert repo'', s1)
      else (Inr (), s1\<lparr>gitRepos := tblUpsert rtKey \<lparr>rtKey = rnKey r, rtHost = rnHostID r, rtSlug = rnSlug r,
              rtRoot = rnRoot r, rtSeen = Some (formatRFC3339Nano now), rtStale = None\<rparr> (gitRepos s1)\<rparr>))"

definition wtRowOf :: "WorktreeNode \<Rightarrow> string \<Rightarrow> wtTbl" where
  "wtRowOf n ts = \<lparr>wrKey = wnKey n, wrHost = wnHostID n, wrRepoKey = wnRepoKey n, wrPath = wnPath n, wrBranch = wnBranch n,
     wrHead = wnHead n, wrDetached = gitB2i (wnDetached n), wrAhead = wnAhead n, wrBehind = wnBehind n,
     wrSeen = Some ts, wrStale = None\<rparr>"

definition upsertWorktree :: "WorktreeNode \<Rightarrow> instant \<Rightarrow> 'a git_db_scheme \<Rightarrow> unit res \<times> 'a git_db_scheme" where
  "upsertWorktree n now s =
     (let (ok, s1) = stmt s in
      if \<not> ok then (Inl ''git: upsert worktree'', s1)
      else (Inr (), s1\<lparr>gitWorktrees := tblUpsert wrKey (wtRowOf n (formatRFC3339Nano now)) (gitWorktrees s1)\<rparr>))"

fun staleWorktrees :: "string \<Rightarrow> string list \<Rightarrow> 'a git_db_scheme \<Rightarrow> unit res \<times> 'a git_db_scheme" where
  "staleWorktrees ts [] s = (Inr (), s)"
| "staleWorktrees ts (k # ks) s =
     (let (ok, s1) = stmt s in
      if \<not> ok then (Inl ''update'', s1)
      else staleWorktrees ts ks (s1\<lparr>gitWorktrees :=
             tblUpdate (\<lambda>r. wrKey r = k \<and> wrStale r = None) (\<lambda>r. r\<lparr>wrStale := Some ts\<rparr>) (gitWorktrees s1)\<rparr>))"

definition markWorktreesStaleForRepo ::
  "string \<Rightarrow> string list \<Rightarrow> instant \<Rightarrow> 'a git_db_scheme \<Rightarrow> string list res \<times> 'a git_db_scheme" where
  "markWorktreesStaleForRepo repoKey keep now s =
     (let (ok, s1) = stmt s in
      if \<not> ok then (Inl ''select'', s1)
      else let gone = filter (\<lambda>k. k \<notin> set keep)
                 (map wrKey (filter (\<lambda>r. wrRepoKey r = repoKey \<and> wrStale r = None) (gitWorktrees s1))) in
      case staleWorktrees (formatRFC3339Nano now) gone s1 of
        (Inl e, s2) \<Rightarrow> (Inl e, s2)
      | (Inr _, s2) \<Rightarrow> (Inr gone, s2))"

definition gitNsTime :: "string option \<Rightarrow> instant option" where
  "gitNsTime ns = (case ns of None \<Rightarrow> None | Some t \<Rightarrow> if t = [] then None else parseRFC3339 t)"

definition scanRepos :: "string \<Rightarrow> 'a git_db_scheme \<Rightarrow> RepoNode list res \<times> 'a git_db_scheme" where
  "scanRepos host s =
     (let (ok, s1) = stmt s in
      if \<not> ok then (Inl ''select'', s1)
      else (Inr (filter (\<lambda>r. host = [] \<or> rnHostID r = host)
              (map (\<lambda>r. \<lparr>rnKey = rtKey r, rnHostID = rtHost r, rnSlug = rtSlug r, rnRoot = rtRoot r, rnStaleSince = gitNsTime (rtStale r)\<rparr>)
                (sort_key rtKey (gitRepos s1)))), s1))"

definition scanWorktree :: "repoTbl list \<Rightarrow> wtTbl \<Rightarrow> WorktreeNode" where
  "scanWorktree repos r = \<lparr>wnKey = wrKey r, wnHostID = wrHost r, wnRepoKey = wrRepoKey r,
     wnRepoSlug = (case tblGet rtKey (wrRepoKey r) repos of None \<Rightarrow> [] | Some q \<Rightarrow> rtSlug q),
     wnPath = wrPath r, wnHead = wrHead r, wnBranch = wrBranch r, wnDetached = (wrDetached r = 1),
     wnAhead = wrAhead r, wnBehind = wrBehind r, wnStaleSince = gitNsTime (wrStale r)\<rparr>"

definition scanWorktrees :: "string \<Rightarrow> 'a git_db_scheme \<Rightarrow> WorktreeNode list res \<times> 'a git_db_scheme" where
  "scanWorktrees repoKey s =
     (let (ok, s1) = stmt s in
      if \<not> ok then (Inl ''select'', s1)
      else (Inr (map (scanWorktree (gitRepos s1)) (sort_key wrKey (filter (\<lambda>r. wrRepoKey r = repoKey) (gitWorktrees s1)))), s1))"

subsection \<open>Configuration\<close>

record gitConfig =
  gcRoots :: "string list"
  gcReconcileInterval :: duration
  gcConfigured :: bool

definition expandRoot :: "string option \<Rightarrow> (string \<Rightarrow> string option) \<Rightarrow> string \<Rightarrow> string" where
  "expandRoot home evalSymlinks r =
     (let r1 = (if hasPrefix r ''~/'' then (case home of Some h \<Rightarrow> pathJoin [h, drop 2 r] | None \<Rightarrow> r) else r);
          cleaned = pathClean r1
      in case evalSymlinks cleaned of Some q \<Rightarrow> q | None \<Rightarrow> cleaned)"

definition gitNew :: "string option \<Rightarrow> (string \<Rightarrow> string option) \<Rightarrow> obj option \<Rightarrow> gitConfig" where
  "gitNew home evalSymlinks raw =
     \<lparr>gcRoots = map (expandRoot home evalSymlinks) (case cfgStrs raw ''repos'' of None \<Rightarrow> [] | Some rs \<Rightarrow> rs),
      gcReconcileInterval = (let n = cfgInt raw ''reconcileIntervalSeconds'' 0 in if n > 0 then durMul n second else 30 * second),
      gcConfigured = (case raw of None \<Rightarrow> False | Some m \<Rightarrow> m \<noteq> [])\<rparr>"

record 'u gitEnv =
  gcfg :: gitConfig
  gHost :: string
  gRun :: "string \<Rightarrow> string list \<Rightarrow> 'u \<Rightarrow> (string \<times> bool) \<times> 'u"
  gMarshal :: "any \<Rightarrow> string"

record 'u gitSt =
  gdb :: git_db
  gworld :: 'u
  gHashes :: "(string \<times> string) list"
  gWtCount :: int
  gEmitOn :: bool
  gEmitted :: "envelope list"

text \<open>\<open>Start\<close> polls only when configured with at least one root.\<close>

definition gitActive :: "'u gitEnv \<Rightarrow> bool" where
  "gitActive E \<longleftrightarrow> gcConfigured (gcfg E) \<and> gcRoots (gcfg E) \<noteq> []"

definition gitCursor :: "'u gitEnv \<Rightarrow> 'u gitSt \<Rightarrow> string" where
  "gitCursor E p = (if \<not> gcConfigured (gcfg E) \<or> gcRoots (gcfg E) = [] then ''dormant: no [plugins.git] config''
     else ''worktrees='' @ itoa (gWtCount p))"

subsection \<open>Reconcile\<close>

definition onGdb :: "(git_db \<Rightarrow> 'r \<times> git_db) \<Rightarrow> 'u gitSt \<Rightarrow> 'r \<times> 'u gitSt" where
  "onGdb f p = (let (r, d) = f (gdb p) in (r, p\<lparr>gdb := d\<rparr>))"

definition runGit :: "'u gitEnv \<Rightarrow> string \<Rightarrow> string list \<Rightarrow> 'u gitSt \<Rightarrow> (string \<times> bool) \<times> 'u gitSt" where
  "runGit E dir args p = (let (r, u) = gRun E dir args (gworld p) in (r, p\<lparr>gworld := u\<rparr>))"

definition gitEmit :: "'u gitEnv \<Rightarrow> string \<Rightarrow> string \<Rightarrow> obj \<Rightarrow> instant \<Rightarrow> 'u gitSt \<Rightarrow> 'u gitSt" where
  "gitEmit E typ key payload now p =
     (if gEmitOn p
      then p\<lparr>gEmitted := gEmitted p @ [\<lparr>TS = now, Source = ''git'', EType = typ, V = 1, Key = key, Payload = gMarshal E (AObj payload)\<rparr>]\<rparr>
      else p)"

definition branchPtr :: "string \<Rightarrow> string option" where
  "branchPtr branch = (if branch = [] then None else Some branch)"

definition ptrStr :: "int option \<Rightarrow> string" where
  "ptrStr p = (case p of None \<Rightarrow> [] | Some n \<Rightarrow> itoa n)"

definition ptrStrBranch :: "string option \<Rightarrow> string" where
  "ptrStrBranch p = (case p of None \<Rightarrow> CHR 0x00 # ''nil'' | Some b \<Rightarrow> b)"

definition worktreeHash :: "WorktreeNode \<Rightarrow> string" where
  "worktreeHash n = ptrStrBranch (wnBranch n) @ ''|'' @ wnHead n @ ''|'' @ (if wnDetached n then ''true'' else ''false'')
     @ ''|'' @ ptrStr (wnAhead n) @ ''|'' @ ptrStr (wnBehind n)"

definition optInt :: "int option \<Rightarrow> any" where
  "optInt p = (case p of None \<Rightarrow> ANil | Some n \<Rightarrow> AInt n)"

definition worktreePayload :: "WorktreeNode \<Rightarrow> obj" where
  "worktreePayload n = [(''key'', AStr (wnKey n)), (''hostId'', AStr (wnHostID n)), (''repoKey'', AStr (wnRepoKey n)),
     (''repoSlug'', AStr (wnRepoSlug n)), (''path'', AStr (wnPath n)),
     (''branch'', case wnBranch n of None \<Rightarrow> ANil | Some b \<Rightarrow> AStr b), (''head'', AStr (wnHead n)),
     (''detached'', ABool (wnDetached n)), (''ahead'', optInt (wnAhead n)), (''behind'', optInt (wnBehind n))]"

definition emitIfChanged :: "'u gitEnv \<Rightarrow> WorktreeNode \<Rightarrow> instant \<Rightarrow> 'u gitSt \<Rightarrow> 'u gitSt" where
  "emitIfChanged E n now p =
     (let h = worktreeHash n; prev = map_of (gHashes p) (wnKey n); p1 = p\<lparr>gHashes := tblUpsert fst (wnKey n, h) (gHashes p)\<rparr> in
      if prev = Some h then p1 else gitEmit E ''git.worktree.updated'' (wnKey n) (worktreePayload n) now p1)"

definition forget :: "string \<Rightarrow> 'u gitSt \<Rightarrow> 'u gitSt" where
  "forget key p = p\<lparr>gHashes := tblDelete (\<lambda>(k, h). k = key) (gHashes p)\<rparr>"

definition worktreeNode :: "'u gitEnv \<Rightarrow> string \<Rightarrow> string \<Rightarrow> Worktree \<Rightarrow> 'u gitSt \<Rightarrow> WorktreeNode \<times> 'u gitSt" where
  "worktreeNode E repoKey slug wt p =
     (let ((out, ok), p1) = runGit E (wtPath wt) [''rev-list'', ''--left-right'', ''--count'', ''HEAD...@'' @ ''{upstream}''] p;
          ab = (if ok then parseAheadBehind out else None)
      in (\<lparr>wnKey = gHost E @ '':'' @ pathClean (wtPath wt), wnHostID = gHost E, wnRepoKey = repoKey, wnRepoSlug = slug,
           wnPath = wtPath wt, wnHead = wtHead wt, wnBranch = branchPtr (wtBranch wt), wnDetached = wtDetached wt,
           wnAhead = map_option fst ab, wnBehind = map_option snd ab, wnStaleSince = None\<rparr>, p1))"

text \<open>The loop over a root's worktrees: the keys seen and the errors of the upserts.\<close>

fun rootWorktrees ::
  "'u gitEnv \<Rightarrow> string \<Rightarrow> string \<Rightarrow> instant \<Rightarrow> Worktree list \<Rightarrow> 'u gitSt \<Rightarrow> (string list \<times> string list) \<times> 'u gitSt" where
  "rootWorktrees E repoKey slug now [] p = (([], []), p)"
| "rootWorktrees E repoKey slug now (wt # wts) p =
     (if wtBare wt then rootWorktrees E repoKey slug now wts p
      else let (n, p1) = worktreeNode E repoKey slug wt p in
      case onGdb (upsertWorktree n now) p1 of
        (Inl e, p2) \<Rightarrow> (let ((seen, errs), p3) = rootWorktrees E repoKey slug now wts p2 in ((seen, e # errs), p3))
      | (Inr _, p2) \<Rightarrow>
          (let ((seen, errs), p3) = rootWorktrees E repoKey slug now wts (emitIfChanged E n now p2)
           in ((wnKey n # seen, errs), p3)))"

definition removeGone :: "'u gitEnv \<Rightarrow> instant \<Rightarrow> string \<Rightarrow> 'u gitSt \<Rightarrow> 'u gitSt" where
  "removeGone E now k p = gitEmit E ''git.worktree.removed'' k [(''key'', AStr k)] now (forget k p)"

text \<open>One root of the poll: the number of worktrees upserted and the errors.\<close>

definition reconcileRoot :: "'u gitEnv \<Rightarrow> instant \<Rightarrow> string \<Rightarrow> 'u gitSt \<Rightarrow> (int \<times> string list) \<times> 'u gitSt" where
  "reconcileRoot E now root p =
     (case runGit E root [''worktree'', ''list'', ''--porcelain''] p of
        ((wtOut, ok), p1) \<Rightarrow>
          if \<not> ok then ((0, []), p1)
          else let ((remote, _), p2) = runGit E root [''remote'', ''get-url'', ''origin''] p1;
                   slug = RepoSlug remote root; repoKey = gHost E @ '':'' @ root in
          case onGdb (upsertRepo \<lparr>rnKey = repoKey, rnHostID = gHost E, rnSlug = slug, rnRoot = root, rnStaleSince = None\<rparr> now) p2 of
            (Inl e, p3) \<Rightarrow> ((0, [e]), p3)
          | (Inr _, p3) \<Rightarrow>
              (let ((seen, errs), p4) = rootWorktrees E repoKey slug now (parseWorktreeList wtOut) p3 in
               if errs \<noteq> [] then ((int (length seen), errs), p4)
               else case onGdb (markWorktreesStaleForRepo repoKey seen now) p4 of
                      (Inl e, p5) \<Rightarrow> ((int (length seen), [e]), p5)
                    | (Inr gone, p5) \<Rightarrow> ((int (length seen), []), fold (removeGone E now) gone p5)))"

fun reconcileRoots :: "'u gitEnv \<Rightarrow> instant \<Rightarrow> string list \<Rightarrow> 'u gitSt \<Rightarrow> (int \<times> string list) \<times> 'u gitSt" where
  "reconcileRoots E now [] p = ((0, []), p)"
| "reconcileRoots E now (r # rs) p =
     (let ((n, es), p1) = reconcileRoot E now r p; ((m, fs), p2) = reconcileRoots E now rs p1 in ((n + m, es @ fs), p2))"

definition gitReconcile :: "'u gitEnv \<Rightarrow> instant \<Rightarrow> 'u gitSt \<Rightarrow> string list \<times> 'u gitSt" where
  "gitReconcile E now p =
     (let ((total, errs), p1) = reconcileRoots E now (gcRoots (gcfg E)) p in (errs, p1\<lparr>gWtCount := total\<rparr>))"

subsection \<open>Reads\<close>

text \<open>An error of a read yields no rows.\<close>

definition Repos :: "string \<Rightarrow> git_db single_ptr \<Rightarrow> RepoNode list \<times> git_db single_ptr" where
  "Repos host cur =
     (case singleGet cur of
        None \<Rightarrow> ([], cur)
      | Some s \<Rightarrow> (case scanRepos host s of (Inl _, s1) \<Rightarrow> ([], singleSet s1 cur) | (Inr rs, s1) \<Rightarrow> (rs, singleSet s1 cur)))"

definition WorktreesForRepo :: "string \<Rightarrow> git_db single_ptr \<Rightarrow> WorktreeNode list \<times> git_db single_ptr" where
  "WorktreesForRepo repoKey cur =
     (case singleGet cur of
        None \<Rightarrow> ([], cur)
      | Some s \<Rightarrow> (case scanWorktrees repoKey s of (Inl _, s1) \<Rightarrow> ([], singleSet s1 cur) | (Inr ws, s1) \<Rightarrow> (ws, singleSet s1 cur)))"

subsection \<open>Lemmas: the hash gate\<close>

lemma append_sep_inj:
  fixes c :: char
  assumes "c \<notin> set x" "c \<notin> set y" "a @ c # x = b @ c # y"
  shows "a = b \<and> x = y"
proof -
  have r: "rev x @ c # rev a = rev y @ c # rev b" using arg_cong [OF assms(3), of rev] by simp
  have "cut c (rev x @ c # rev a) = (rev x, rev a, True)" "cut c (rev y @ c # rev b) = (rev y, rev b, True)"
    using assms(1,2) by simp_all
  then have "(rev x, rev a, True) = (rev y, rev b, True)" unfolding r by simp
  then show ?thesis by simp
qed

text \<open>The nodes whose fields can be told apart in the digest: a head without a bar, as every object
  name is, a branch that is not the sentinel, and counts of 64 bits.\<close>

definition hashWf :: "WorktreeNode \<Rightarrow> bool" where
  "hashWf n \<longleftrightarrow> CHR ''|'' \<notin> set (wnHead n) \<and> wnBranch n \<noteq> Some (CHR 0x00 # ''nil'')
     \<and> (\<forall>i. wnAhead n = Some i \<or> wnBehind n = Some i \<longrightarrow> in64 i)"

definition sameState :: "WorktreeNode \<Rightarrow> WorktreeNode \<Rightarrow> bool" where
  "sameState m n \<longleftrightarrow> wnBranch m = wnBranch n \<and> wnHead m = wnHead n \<and> wnDetached m = wnDetached n
     \<and> wnAhead m = wnAhead n \<and> wnBehind m = wnBehind n"

lemma ptrStr_bar: "CHR ''|'' \<notin> set (ptrStr q)"
  using set_itoa [of "CHR ''|''"] by (auto simp: ptrStr_def isDigit_def split: option.splits)

lemma ptrStr_inj: "(\<forall>i. a = Some i \<or> b = Some i \<longrightarrow> in64 i) \<Longrightarrow> ptrStr a = ptrStr b \<Longrightarrow> a = b"
  using itoa_nonempty by (cases a; cases b) (auto simp: ptrStr_def dest: itoa_inj dest!: sym [of "[]"])

lemma ptrStrBranch_inj:
  "a \<noteq> Some (CHR 0x00 # ''nil'') \<Longrightarrow> b \<noteq> Some (CHR 0x00 # ''nil'') \<Longrightarrow> ptrStrBranch a = ptrStrBranch b \<Longrightarrow> a = b"
  by (cases a; cases b) (auto simp: ptrStrBranch_def)

lemma worktreeHash_inj:
  assumes "hashWf m" "hashWf n"
  shows "worktreeHash m = worktreeHash n \<longleftrightarrow> sameState m n"
proof
  assume h: "worktreeHash m = worktreeHash n"
  let ?d = "\<lambda>x. if wnDetached x then ''true'' else ''false''"
  have hd: "CHR ''|'' \<notin> set (wnHead m)" "CHR ''|'' \<notin> set (wnHead n)" using assms by (simp_all add: hashWf_def)
  have dt: "CHR ''|'' \<notin> set (?d x)" for x by simp
  have e1: "(((ptrStrBranch (wnBranch m) @ CHR ''|'' # wnHead m) @ CHR ''|'' # ?d m) @ CHR ''|'' # ptrStr (wnAhead m)) @ CHR ''|'' # ptrStr (wnBehind m)
      = (((ptrStrBranch (wnBranch n) @ CHR ''|'' # wnHead n) @ CHR ''|'' # ?d n) @ CHR ''|'' # ptrStr (wnAhead n)) @ CHR ''|'' # ptrStr (wnBehind n)"
    using h unfolding worktreeHash_def by simp
  note b = append_sep_inj [OF ptrStr_bar ptrStr_bar e1]
  note a = append_sep_inj [OF ptrStr_bar ptrStr_bar conjunct1 [OF b]]
  note d = append_sep_inj [OF dt dt conjunct1 [OF a]]
  note c = append_sep_inj [OF hd conjunct1 [OF d]]
  have "wnBranch m = wnBranch n" using c assms by (intro ptrStrBranch_inj) (simp_all add: hashWf_def)
  moreover have "wnAhead m = wnAhead n" "wnBehind m = wnBehind n"
    using a b assms by (auto simp: hashWf_def intro!: ptrStr_inj)
  moreover have "wnDetached m = wnDetached n" using d by (simp split: if_splits)
  ultimately show "sameState m n" using c by (simp add: sameState_def)
next
  assume "sameState m n"
  then show "worktreeHash m = worktreeHash n" by (simp add: sameState_def worktreeHash_def)
qed

lemma map_of_upsert_fst: "map_of (tblUpsert fst (k, v) t) j = (if j = k then Some v else map_of t j)"
proof -
  have *: "map_of u j = map_option snd (tblGet fst j u)" for u
    by (induction u) auto
  show ?thesis unfolding * [of t] * [of "tblUpsert fst (k, v) t"] by (simp add: tblGet_upsert)
qed

subsection \<open>Lemmas: root isolation\<close>

definition wtAt :: "'a git_db_scheme \<Rightarrow> string \<Rightarrow> wtTbl option" where
  "wtAt s k = tblGet wrKey k (gitWorktrees s)"

lemma onGdb_pair: "onGdb f p = (fst (f (gdb p)), p\<lparr>gdb := snd (f (gdb p))\<rparr>)"
  by (simp add: onGdb_def split: prod.splits)

lemma runGit_gdb: "gdb (snd (runGit E dir args p)) = gdb p"
  by (simp add: runGit_def split: prod.splits)

lemma gitEmit_gdb [simp]: "gdb (gitEmit E t k pl now p) = gdb p"
  by (simp add: gitEmit_def)

lemma emitIfChanged_gdb [simp]: "gdb (emitIfChanged E n now p) = gdb p"
  by (simp add: emitIfChanged_def Let_def)

lemma removeGone_gdb [simp]: "gdb (fold (removeGone E now) ks p) = gdb p"
  by (induction ks arbitrary: p) (simp_all add: removeGone_def forget_def)

text \<open>A table step that keeps the row of \<open>k\<close> and the key of the table.\<close>

definition keepsRow :: "string \<Rightarrow> git_db \<Rightarrow> git_db \<Rightarrow> bool" where
  "keepsRow k s s' \<longleftrightarrow> wtAt s' k = wtAt s k \<and> (tblInv wrKey (gitWorktrees s) \<longrightarrow> tblInv wrKey (gitWorktrees s'))"

lemma keepsRow_refl [simp]: "keepsRow k s s"
  by (simp add: keepsRow_def)

lemma keepsRow_trans: "keepsRow k s t \<Longrightarrow> keepsRow k t u \<Longrightarrow> keepsRow k s u"
  by (simp add: keepsRow_def)

lemma upsertRepo_keeps: "keepsRow k s (snd (upsertRepo r now s))"
  by (auto simp: keepsRow_def wtAt_def upsertRepo_def stmt_alt split: list.splits bool.splits)

lemma upsertWorktree_keeps: "wnKey n \<noteq> k \<Longrightarrow> keepsRow k s (snd (upsertWorktree n now s))"
  by (auto simp: keepsRow_def wtAt_def upsertWorktree_def stmt_alt tblGet_upsert wtRowOf_def split: list.splits bool.splits)

lemma staleWorktrees_keeps: "k \<notin> set ks \<Longrightarrow> keepsRow k s (snd (staleWorktrees ts ks s))"
proof (induction ks arbitrary: s)
  case Nil
  then show ?case by simp
next
  case (Cons j ks)
  obtain b fs where st: "stmt s = (b, s\<lparr>faults := fs\<rparr>)" by (rule stmt_obtain)
  let ?s = "s\<lparr>faults := fs, gitWorktrees := tblUpdate (\<lambda>r. wrKey r = j \<and> wrStale r = None) (\<lambda>r. r\<lparr>wrStale := Some ts\<rparr>) (gitWorktrees s)\<rparr>"
  have "keepsRow k s ?s"
    using Cons.prems by (cases "tblGet wrKey k (gitWorktrees s)") (auto simp: keepsRow_def wtAt_def tblGet_update dest: tblGet_SomeD)
  moreover have "keepsRow k ?s (snd (staleWorktrees ts ks ?s))" using Cons by simp
  ultimately have "keepsRow k s (snd (staleWorktrees ts ks ?s))" by (rule keepsRow_trans)
  moreover have "keepsRow k s (s\<lparr>faults := fs\<rparr>)" by (simp add: keepsRow_def wtAt_def)
  ultimately show ?case by (simp add: st)
qed

lemma markWorktrees_keeps:
  assumes "tblInv wrKey (gitWorktrees s)" "wtAt s k = Some r" "wrRepoKey r \<noteq> repoKey"
  shows "keepsRow k s (snd (markWorktreesStaleForRepo repoKey keep now s))"
proof -
  obtain b fs where st: "stmt s = (b, s\<lparr>faults := fs\<rparr>)" by (rule stmt_obtain)
  define gone where "gone = filter (\<lambda>k. k \<notin> set keep) (map wrKey (filter (\<lambda>r. wrRepoKey r = repoKey \<and> wrStale r = None) (gitWorktrees s)))"
  have "k \<notin> set gone"
    using assms tblInv_get [OF assms(1), of k] by (auto simp: gone_def wtAt_def) (metis option.inject)
  from staleWorktrees_keeps [OF this, of "s\<lparr>faults := fs\<rparr>" "formatRFC3339Nano now"]
  have "keepsRow k s (snd (staleWorktrees (formatRFC3339Nano now) gone (s\<lparr>faults := fs\<rparr>)))"
    by (simp add: keepsRow_def wtAt_def)
  moreover have "snd (markWorktreesStaleForRepo repoKey keep now s)
      = (if b then snd (staleWorktrees (formatRFC3339Nano now) gone (s\<lparr>faults := fs\<rparr>)) else s\<lparr>faults := fs\<rparr>)"
    by (cases "staleWorktrees (formatRFC3339Nano now) gone (s\<lparr>faults := fs\<rparr>)")
      (simp add: markWorktreesStaleForRepo_def st gone_def [symmetric] Let_def split: sum.splits)
  moreover have "keepsRow k s (s\<lparr>faults := fs\<rparr>)" by (simp add: keepsRow_def wtAt_def)
  ultimately show ?thesis by simp
qed

definition listedKeys :: "'u gitEnv \<Rightarrow> string \<Rightarrow> string set" where
  "listedKeys E out = (\<lambda>wt. gHost E @ '':'' @ pathClean (wtPath wt)) ` set (parseWorktreeList out)"

lemma rootWorktrees_keeps:
  assumes "k \<notin> (\<lambda>wt. gHost E @ '':'' @ pathClean (wtPath wt)) ` set wts"
  shows "keepsRow k (gdb p) (gdb (snd (rootWorktrees E repoKey slug now wts p)))"
  using assms
proof (induction wts arbitrary: p)
  case Nil
  then show ?case by simp
next
  case (Cons wt wts)
  have IH: "keepsRow k (gdb q) (gdb (snd (rootWorktrees E repoKey slug now wts q)))" for q using Cons by simp
  show ?case
  proof (cases "wtBare wt")
    case True
    then show ?thesis using IH by simp
  next
    case False
    obtain n p1 where n: "worktreeNode E repoKey slug wt p = (n, p1)" by (cases "worktreeNode E repoKey slug wt p")
    have nk: "wnKey n \<noteq> k" "gdb p1 = gdb p"
      using n Cons.prems runGit_gdb [of E "wtPath wt" "[''rev-list'', ''--left-right'', ''--count'', ''HEAD...@'' @ ''{upstream}'']" p]
      by (auto simp: worktreeNode_def Let_def split: prod.splits)
    define p2 where "p2 = p1\<lparr>gdb := snd (upsertWorktree n now (gdb p1))\<rparr>"
    have k2: "keepsRow k (gdb p) (gdb p2)" using upsertWorktree_keeps [OF nk(1), of "gdb p" now] nk(2) by (simp add: p2_def)
    have "gdb (snd (rootWorktrees E repoKey slug now (wt # wts) p))
        = gdb (snd (rootWorktrees E repoKey slug now wts (if isl (fst (upsertWorktree n now (gdb p1))) then p2 else emitIfChanged E n now p2)))"
      using False by (auto simp: n onGdb_pair p2_def [symmetric] case_prod_unfold Let_def split: sum.splits)
    moreover have "keepsRow k (gdb p2) (gdb (snd (rootWorktrees E repoKey slug now wts
        (if isl (fst (upsertWorktree n now (gdb p1))) then p2 else emitIfChanged E n now p2))))"
      using IH [of p2] IH [of "emitIfChanged E n now p2"] by simp
    ultimately show ?thesis using keepsRow_trans [OF k2] by simp
  qed
qed

lemma reconcileRoot_keeps:
  assumes "tblInv wrKey (gitWorktrees (gdb p))" "wtAt (gdb p) k = Some r"
    and "\<not> snd (fst (gRun E root [''worktree'', ''list'', ''--porcelain''] (gworld p))) \<or>
      wrRepoKey r \<noteq> gHost E @ '':'' @ root \<and> k \<notin> listedKeys E (fst (fst (gRun E root [''worktree'', ''list'', ''--porcelain''] (gworld p))))"
  shows "keepsRow k (gdb p) (gdb (snd (reconcileRoot E now root p)))"
proof -
  obtain wtOut ok p1 where r1: "runGit E root [''worktree'', ''list'', ''--porcelain''] p = ((wtOut, ok), p1)"
    by (metis prod.collapse)
  have g1: "gdb p1 = gdb p" "wtOut = fst (fst (gRun E root [''worktree'', ''list'', ''--porcelain''] (gworld p)))"
      "ok = snd (fst (gRun E root [''worktree'', ''list'', ''--porcelain''] (gworld p)))"
    using r1 by (auto simp: runGit_def split: prod.splits)
  show ?thesis
  proof (cases ok)
    case False
    then show ?thesis by (simp add: reconcileRoot_def r1 g1(1))
  next
    case True
    with assms(3) g1 have nk: "wrRepoKey r \<noteq> gHost E @ '':'' @ root" "k \<notin> listedKeys E wtOut" by auto
    obtain rem x p2 where r2: "runGit E root [''remote'', ''get-url'', ''origin''] p1 = ((rem, x), p2)" by (metis prod.collapse)
    have g2: "gdb p2 = gdb p" using runGit_gdb [of E root "[''remote'', ''get-url'', ''origin'']" p1] by (simp add: r2 g1)
    define rk where "rk = gHost E @ '':'' @ root"
    define rn where "rn = \<lparr>rnKey = rk, rnHostID = gHost E, rnSlug = RepoSlug rem root, rnRoot = root, rnStaleSince = None\<rparr>"
    define p3 where "p3 = p2\<lparr>gdb := snd (upsertRepo rn now (gdb p2))\<rparr>"
    have k3: "keepsRow k (gdb p) (gdb p3)" using upsertRepo_keeps [of k "gdb p2" rn now] by (simp add: p3_def g2)
    obtain seen errs p4 where w: "rootWorktrees E rk (RepoSlug rem root) now (parseWorktreeList wtOut) p3 = ((seen, errs), p4)"
      by (metis prod.collapse)
    have "keepsRow k (gdb p3) (gdb p4)"
      using rootWorktrees_keeps [of k E "parseWorktreeList wtOut" p3 rk "RepoSlug rem root" now] nk(2)
      by (simp add: w listedKeys_def)
    with k3 have k4: "keepsRow k (gdb p) (gdb p4)" by (rule keepsRow_trans)
    have "keepsRow k (gdb p4) (snd (markWorktreesStaleForRepo rk seen now (gdb p4)))"
      using k4 assms(1,2) nk(1) by (intro markWorktrees_keeps [of _ _ r]) (simp_all add: keepsRow_def rk_def)
    with k4 have k5: "keepsRow k (gdb p) (snd (markWorktreesStaleForRepo rk seen now (gdb p4)))" by (rule keepsRow_trans)
    show ?thesis
      unfolding reconcileRoot_def r1 r2 prod.case Let_def rk_def [symmetric] rn_def [symmetric] onGdb_pair p3_def [symmetric] w
      using True k3 k4 k5 by (auto split: sum.splits)
  qed
qed

lemma reconcileRoots_keeps:
  assumes "tblInv wrKey (gitWorktrees (gdb p))" "wtAt (gdb p) k = Some r"
    and "\<And>root u. root \<in> set roots \<Longrightarrow> \<not> snd (fst (gRun E root [''worktree'', ''list'', ''--porcelain''] u)) \<or>
      wrRepoKey r \<noteq> gHost E @ '':'' @ root \<and> k \<notin> listedKeys E (fst (fst (gRun E root [''worktree'', ''list'', ''--porcelain''] u)))"
  shows "wtAt (gdb (snd (reconcileRoots E now roots p))) k = Some r"
  using assms
proof (induction roots arbitrary: p)
  case Nil
  then show ?case by simp
next
  case (Cons root roots)
  define p1 where "p1 = snd (reconcileRoot E now root p)"
  have "keepsRow k (gdb p) (gdb p1)"
    unfolding p1_def by (rule reconcileRoot_keeps [OF Cons.prems(1,2)]) (rule Cons.prems(3), simp)
  then have k1: "tblInv wrKey (gitWorktrees (gdb p1))" "wtAt (gdb p1) k = Some r"
    using Cons.prems(1,2) by (simp_all add: keepsRow_def)
  have "wtAt (gdb (snd (reconcileRoots E now roots p1))) k = Some r"
    by (rule Cons.IH [OF k1]) (rule Cons.prems(3), simp)
  then show ?case by (simp add: case_prod_unfold Let_def p1_def)
qed

subsection \<open>Properties\<close>

text \<open>C25. A failing root cannot touch another root's rows: whatever git commands and whatever statements
  of the store fail during a poll, the row of a worktree stays as it was unless its own
  repository's listing succeeded, or some root's listing names it.\<close>

theorem git_root_isolated:
  assumes "tblInv wrKey (gitWorktrees (gdb p))" "wtAt (gdb p) k = Some r"
    and "\<And>root u. root \<in> set (gcRoots (gcfg E)) \<Longrightarrow> \<not> snd (fst (gRun E root [''worktree'', ''list'', ''--porcelain''] u)) \<or>
      wrRepoKey r \<noteq> gHost E @ '':'' @ root \<and> k \<notin> listedKeys E (fst (fst (gRun E root [''worktree'', ''list'', ''--porcelain''] u)))"
  shows "wtAt (gdb (snd (gitReconcile E now p))) k = Some r"
  using reconcileRoots_keeps [OF assms] by (simp add: gitReconcile_def case_prod_unfold Let_def)

definition demoWt :: "string \<Rightarrow> WorktreeNode" where
  "demoWt path = \<lparr>wnKey = ''h:'' @ path, wnHostID = ''h'', wnRepoKey = ''h:/a'', wnRepoSlug = ''o/a'', wnPath = path, wnHead = ''abc'',
     wnBranch = Some ''main'', wnDetached = False, wnAhead = None, wnBehind = None, wnStaleSince = None\<rparr>"

definition demoGitDb :: "bool list \<Rightarrow> git_db" where
  "demoGitDb fs = \<lparr>faults = fs, ringCapacity = 10, tables = [], schemaVersions = [], events = [], lastId = 0, cursors = [],
     gitRepos = [], gitWorktrees = [wtRowOf (demoWt ''/a/1'') ''t'', wtRowOf (demoWt ''/a/2'') ''t'']\<rparr>"

text \<open>Roots \<open>/a\<close> and \<open>/b\<close>; git fails in \<open>/a\<close> when \<open>aOk\<close> is false and lists nothing otherwise.\<close>

definition demoGitEnv :: "bool \<Rightarrow> unit gitEnv" where
  "demoGitEnv aOk = \<lparr>gcfg = \<lparr>gcRoots = [''/a'', ''/b''], gcReconcileInterval = 30 * second, gcConfigured = True\<rparr>, gHost = ''h'',
     gRun = (\<lambda>dir _ u. (([], dir \<noteq> ''/a'' \<or> aOk), u)), gMarshal = (\<lambda>_. [])\<rparr>"

definition demoGitSt :: "bool list \<Rightarrow> unit gitSt" where
  "demoGitSt fs = \<lparr>gdb = demoGitDb fs, gworld = (), gHashes = [], gWtCount = 0, gEmitOn = True, gEmitted = []\<rparr>"

lemma parse_nothing: "parseWorktreeList [] = []"
  by (simp add: parseWorktreeList_def flag_simps)

theorem git_root_isolated_witness:
  "wtAt (gdb (snd (gitReconcile (demoGitEnv False) 9 (demoGitSt [])))) ''h:/a/1'' = Some (wtRowOf (demoWt ''/a/1'') ''t'')"
proof (rule git_root_isolated)
  show "tblInv wrKey (gitWorktrees (gdb (demoGitSt [])))" by (simp add: demoGitSt_def demoGitDb_def tblInv_def wtRowOf_def demoWt_def)
  show "wtAt (gdb (demoGitSt [])) ''h:/a/1'' = Some (wtRowOf (demoWt ''/a/1'') ''t'')"
    by (simp add: demoGitSt_def demoGitDb_def wtAt_def wtRowOf_def demoWt_def)
  show "\<not> snd (fst (gRun (demoGitEnv False) root [''worktree'', ''list'', ''--porcelain''] u)) \<or>
      wrRepoKey (wtRowOf (demoWt ''/a/1'') ''t'') \<noteq> gHost (demoGitEnv False) @ '':'' @ root \<and>
      ''h:/a/1'' \<notin> listedKeys (demoGitEnv False) (fst (fst (gRun (demoGitEnv False) root [''worktree'', ''list'', ''--porcelain''] u)))"
    if "root \<in> set (gcRoots (gcfg (demoGitEnv False)))" for root and u :: unit
    using that by (auto simp: demoGitEnv_def wtRowOf_def demoWt_def listedKeys_def parse_nothing)
qed

text \<open>The hash gate is exact: after a worktree was announced, the next announcement of its key is
  silent if and only if branch, head, detached flag and both counts are all unchanged; an
  unknown count is told apart from zero and a detached head from any branch.\<close>

theorem git_hash_gate:
  assumes "hashWf m" "hashWf n" "wnKey m = wnKey n" "gEmitOn p"
  shows "gEmitted (emitIfChanged E n t' (emitIfChanged E m t p)) = gEmitted (emitIfChanged E m t p) @
    (if sameState m n then []
     else [\<lparr>TS = t', Source = ''git'', EType = ''git.worktree.updated'', V = 1, Key = wnKey n, Payload = gMarshal E (AObj (worktreePayload n))\<rparr>])"
proof -
  let ?p = "emitIfChanged E m t p"
  have "map_of (gHashes ?p) (wnKey n) = Some (worktreeHash m)" "gEmitOn ?p"
    using assms(3,4) by (simp_all add: emitIfChanged_def Let_def gitEmit_def map_of_upsert_fst)
  then show ?thesis
    using worktreeHash_inj [OF assms(1,2)] by (auto simp: emitIfChanged_def [of E n t' ?p] Let_def gitEmit_def)
qed

theorem git_hash_gate_witness:
  "gEmitted (emitIfChanged (demoGitEnv True) ((demoWt ''/a/1'')\<lparr>wnAhead := Some 0\<rparr>) 2 (emitIfChanged (demoGitEnv True) (demoWt ''/a/1'') 1 (demoGitSt [])))
     \<noteq> gEmitted (emitIfChanged (demoGitEnv True) (demoWt ''/a/1'') 1 (demoGitSt []))"
proof -
  have w: "hashWf (demoWt ''/a/1'')" "hashWf ((demoWt ''/a/1'')\<lparr>wnAhead := Some 0\<rparr>)"
    by (simp_all add: hashWf_def demoWt_def in64_def)
  have "wnKey (demoWt ''/a/1'') = wnKey ((demoWt ''/a/1'')\<lparr>wnAhead := Some 0\<rparr>)" "gEmitOn (demoGitSt [])"
    by (simp_all add: demoGitSt_def)
  from git_hash_gate [OF w this, of "demoGitEnv True" 2 1] show ?thesis by (simp add: sameState_def demoWt_def)
qed

lemma demo_root:
  "reconcileRoot (demoGitEnv True) now root p =
     (case onGdb (upsertRepo \<lparr>rnKey = ''h:'' @ root, rnHostID = ''h'', rnSlug = RepoSlug [] root, rnRoot = root, rnStaleSince = None\<rparr> now) p of
        (Inl e, p3) \<Rightarrow> ((0, [e]), p3)
      | (Inr _, p3) \<Rightarrow>
          (case onGdb (markWorktreesStaleForRepo (''h:'' @ root) [] now) p3 of
             (Inl e, p5) \<Rightarrow> ((0, [e]), p5)
           | (Inr gone, p5) \<Rightarrow> ((0, []), fold (removeGone (demoGitEnv True) now) gone p5)))"
proof -
  have run: "runGit (demoGitEnv True) d a q = (([], True), q)" for d a and q :: "unit gitSt"
    by (simp add: runGit_def demoGitEnv_def)
  have h: "gHost (demoGitEnv True) = ''h''" by (simp add: demoGitEnv_def)
  show ?thesis unfolding reconcileRoot_def run prod.case Let_def parse_nothing h onGdb_pair by (auto split: sum.splits)
qed

text \<open>The poll that fails at its fourth statement, and the poll after it.\<close>

definition lostFirst :: "unit gitSt" where
  "lostFirst = snd (gitReconcile (demoGitEnv True) 9 (demoGitSt [False, False, False, True]))"

lemma lostFirst_state:
  "gitWorktrees (gdb lostFirst) = [(wtRowOf (demoWt ''/a/1'') ''t'')\<lparr>wrStale := Some (formatRFC3339Nano 9)\<rparr>, wtRowOf (demoWt ''/a/2'') ''t'']"
  "faults (gdb lostFirst) = []" "gEmitted lostFirst = []" "gEmitOn lostFirst"
proof -
  have roots: "gcRoots (gcfg (demoGitEnv True)) = [''/a'', ''/b'']" by (simp add: demoGitEnv_def)
  note defs = lostFirst_def gitReconcile_def roots demo_root onGdb_pair upsertRepo_def markWorktreesStaleForRepo_def
    demoGitSt_def demoGitDb_def stmt_def wtRowOf_def demoWt_def tblUpdate_def Let_def
  show "gitWorktrees (gdb lostFirst) = [(wtRowOf (demoWt ''/a/1'') ''t'')\<lparr>wrStale := Some (formatRFC3339Nano 9)\<rparr>, wtRowOf (demoWt ''/a/2'') ''t'']"
    by (simp add: defs)
  show "faults (gdb lostFirst) = []" "gEmitted lostFirst = []" "gEmitOn lostFirst" by (simp_all add: defs)
qed

text \<open>A failing statement can lose a removal for good: two worktrees vanish, the second stale mark
  fails, and neither this poll nor the next, in which everything succeeds, ever announces the
  removal of the first, which is stale in the store.\<close>

theorem git_removal_lost:
  "let p1 = lostFirst;
       p2 = snd (gitReconcile (demoGitEnv True) 10 p1)
   in map_option wrStale (wtAt (gdb p2) ''h:/a/1'') = Some (Some (formatRFC3339Nano 9))
    \<and> map Key (gEmitted p2) = [''h:/a/2''] \<and> faults (gdb p1) = []"
proof -
  have roots: "gcRoots (gcfg (demoGitEnv True)) = [''/a'', ''/b'']" by (simp add: demoGitEnv_def)
  note defs = gitReconcile_def roots demo_root onGdb_pair upsertRepo_def markWorktreesStaleForRepo_def lostFirst_state
    wtRowOf_def demoWt_def tblUpdate_def Let_def removeGone_def forget_def gitEmit_def wtAt_def
  show ?thesis unfolding Let_def by (intro conjI) (simp_all add: defs)
qed

end
