(* ===== verification/GithubKeys.thy ===== *)
theory GithubKeys
  imports GoValue
begin

text \<open>
  \<open>plugins/github/keys.go\<close>: the cache key grammar. One table row per kind gives the key
  format, the REST path, the typename and the webhook events of the kind; parsing, paths
  and the event map all read the table. Templates carry \<open>{name}\<close> placeholders, the
  matches of \<open>placeholderRe\<close> of \<open>executor.go\<close>.
\<close>

subsection \<open>Names and templates\<close>

definition isLetter :: "char \<Rightarrow> bool" where
  "isLetter c \<longleftrightarrow> (let n = of_char c :: nat in 65 \<le> n \<and> n \<le> 90 \<or> 97 \<le> n \<and> n \<le> 122)"

definition nameChar :: "char \<Rightarrow> bool" where
  "nameChar c \<longleftrightarrow> isLetter c \<or> isDigit c \<or> c = CHR ''_'' \<or> c = CHR ''.'' \<or> c = CHR ''-''"

definition ownerRepoRe :: "string \<Rightarrow> bool" where
  "ownerRepoRe s \<longleftrightarrow> s \<noteq> [] \<and> list_all nameChar s"

definition safeName :: "string \<Rightarrow> bool" where
  "safeName s \<longleftrightarrow> s = [] \<or> (ownerRepoRe s \<and> \<not> containsStr s ''..'')"

lemma length_dropWhile_tl: "length (dropWhile P xs) - Suc 0 \<le> length xs"
  using length_dropWhile_le [of P xs] by simp

text \<open>\<open>placeholderRe.ReplaceAllStringFunc\<close>: \<open>f\<close> gives the value of a name, or leaves it.\<close>

function fillWith :: "(string \<Rightarrow> string option) \<Rightarrow> string \<Rightarrow> string" where
  "fillWith f s =
     (case s of [] \<Rightarrow> []
      | c # cs \<Rightarrow>
          (let n = takeWhile isLetter cs; r = dropWhile isLetter cs in
           if c = CHR ''{'' \<and> n \<noteq> [] \<and> r \<noteq> [] \<and> hd r = CHR ''}''
           then (case f n of None \<Rightarrow> c # n @ ''}'' | Some v \<Rightarrow> v) @ fillWith f (tl r)
           else c # fillWith f cs))"
  by pat_completeness auto
termination
  by (relation "measure (\<lambda>(f, s). length s)") (auto simp: less_Suc_eq_le length_dropWhile_tl)

text \<open>\<open>placeholderRe.FindAllStringSubmatch\<close>: the names, left to right.\<close>

function placeholders :: "string \<Rightarrow> string list" where
  "placeholders s =
     (case s of [] \<Rightarrow> []
      | c # cs \<Rightarrow>
          (let n = takeWhile isLetter cs; r = dropWhile isLetter cs in
           if c = CHR ''{'' \<and> n \<noteq> [] \<and> r \<noteq> [] \<and> hd r = CHR ''}''
           then n # placeholders (tl r) else placeholders cs))"
  by pat_completeness auto
termination
  by (relation "measure length") (auto simp: less_Suc_eq_le length_dropWhile_tl)

declare fillWith.simps [simp del] placeholders.simps [simp del]

text \<open>A \<open>map[string]string\<close>; an absent part reads as the empty string.\<close>

type_synonym parts = "(string \<times> string) list"

definition part :: "parts \<Rightarrow> string \<Rightarrow> string" where
  "part p k = (case map_of p k of None \<Rightarrow> [] | Some v \<Rightarrow> v)"

definition fill :: "string \<Rightarrow> parts \<Rightarrow> string" where
  "fill template p = fillWith (map_of p) template"

subsection \<open>The table\<close>

record kindSpec =
  kind :: string
  typename :: string
  keyfmt :: string
  rest :: string
  evs :: "string list"
  evObj :: string
  evField :: string

definition kindSpecs :: "kindSpec list" where
  "kindSpecs =
    [\<lparr>kind = ''issue'', typename = ''Issue'', keyfmt = ''issue:{owner}/{repo}#{disc}'',
       rest = ''/repos/{owner}/{repo}/issues/{disc}'', evs = [''issues'', ''issue_comment''],
       evObj = ''issue'', evField = ''number''\<rparr>,
     \<lparr>kind = ''pr'', typename = ''PullRequest'', keyfmt = ''pr:{owner}/{repo}#{disc}'',
       rest = ''/repos/{owner}/{repo}/pulls/{disc}'',
       evs = [''pull_request'', ''pull_request_review'', ''pull_request_review_comment''],
       evObj = ''pull_request'', evField = ''number''\<rparr>,
     \<lparr>kind = ''checkRun'', typename = ''CheckRun'', keyfmt = ''checkRun:{owner}/{repo}/{disc}'',
       rest = ''/repos/{owner}/{repo}/check-runs/{disc}'', evs = [''check_run''],
       evObj = ''check_run'', evField = ''id''\<rparr>,
     \<lparr>kind = ''review'', typename = ''PullRequestReview'', keyfmt = ''review:{owner}/{repo}#{disc}/{subid}'',
       rest = ''/repos/{owner}/{repo}/pulls/{disc}/reviews/{subid}'', evs = [], evObj = [], evField = []\<rparr>,
     \<lparr>kind = ''comment'', typename = ''IssueComment'', keyfmt = ''comment:{owner}/{repo}#{disc}/{subid}'',
       rest = ''/repos/{owner}/{repo}/issues/comments/{subid}'', evs = [], evObj = [], evField = []\<rparr>,
     \<lparr>kind = ''label'', typename = ''Label'', keyfmt = ''label:{owner}/{repo}/{disc}'',
       rest = ''/repos/{owner}/{repo}/labels/{disc}'', evs = [''label''], evObj = ''label'', evField = ''name''\<rparr>,
     \<lparr>kind = ''release'', typename = ''Release'', keyfmt = ''release:{owner}/{repo}/{disc}'',
       rest = ''/repos/{owner}/{repo}/releases/tags/{disc}'', evs = [''release''],
       evObj = ''release'', evField = ''tag_name''\<rparr>,
     \<lparr>kind = ''commit'', typename = ''Commit'', keyfmt = ''commit:{owner}/{repo}/{disc}'',
       rest = ''/repos/{owner}/{repo}/commits/{disc}'', evs = [], evObj = [], evField = []\<rparr>,
     \<lparr>kind = ''ref'', typename = ''Ref'', keyfmt = ''ref:{owner}/{repo}/{sub}'',
       rest = ''/repos/{owner}/{repo}/git/refs/{sub}'', evs = [], evObj = [], evField = []\<rparr>,
     \<lparr>kind = ''repo'', typename = ''Repository'', keyfmt = ''repo:{owner}/{repo}'',
       rest = ''/repos/{owner}/{repo}'', evs = [], evObj = [], evField = []\<rparr>,
     \<lparr>kind = ''user'', typename = ''User'', keyfmt = ''user:{login}'',
       rest = ''/users/{login}'', evs = [], evObj = [], evField = []\<rparr>]"

definition specByKind :: "string \<Rightarrow> kindSpec option" where
  "specByKind k = find (\<lambda>s. kind s = k) (rev kindSpecs)"

definition specByEvent :: "string \<Rightarrow> kindSpec option" where
  "specByEvent e = find (\<lambda>s. e \<in> set (evs s)) (rev kindSpecs)"

definition defaultForwardEvents :: "string list" where
  "defaultForwardEvents = concat (map evs kindSpecs)"

subsection \<open>Parsing\<close>

definition kindOf :: "string \<Rightarrow> string" where
  "kindOf key = (case indexByte key CHR '':'' of None \<Rightarrow> [] | Some i \<Rightarrow> take i key)"

definition stripHost :: "string \<Rightarrow> string" where
  "stripHost key = (case lastIndexByte key CHR ''@'' of None \<Rightarrow> key | Some i \<Rightarrow> take i key)"

definition parseKey :: "string \<Rightarrow> parts" where
  "parseKey key =
     (let k = kindOf key;
          r0 = stripHost key;
          r = (case indexByte r0 CHR '':'' of None \<Rightarrow> r0 | Some i \<Rightarrow> drop (i + 1) r0) in
      if k = ''user'' then [(''login'', r)]
      else let (owner, tail, _) = cut CHR ''/'' r in
      case indexAny tail ''#/'' of
        None \<Rightarrow> [(''owner'', owner), (''repo'', tail)]
      | Some ri \<Rightarrow>
          let repo = take ri tail; rem = drop (ri + 1) tail in
          if tail ! ri = CHR ''#'' then
            (case indexByte rem CHR ''/'' of
               Some si \<Rightarrow> [(''owner'', owner), (''repo'', repo), (''disc'', take si rem), (''subid'', drop (si + 1) rem)]
             | None \<Rightarrow> [(''owner'', owner), (''repo'', repo), (''disc'', rem)])
          else [(''owner'', owner), (''repo'', repo), (''sub'', rem),
                (''disc'', case indexByte rem CHR ''/'' of Some si \<Rightarrow> take si rem | None \<Rightarrow> rem)])"

text \<open>\<open>url.PathEscape\<close>.\<close>

definition hexDigit :: "nat \<Rightarrow> char" where
  "hexDigit n = (if n < 10 then char_of (48 + n) else char_of (55 + n))"

definition pathSafe :: "char \<Rightarrow> bool" where
  "pathSafe c \<longleftrightarrow> isLetter c \<or> isDigit c \<or> c \<in> set ''-_.~$&+:=@''"

definition PathEscape :: "string \<Rightarrow> string" where
  "PathEscape s = concat (map (\<lambda>c. if pathSafe c then [c]
     else [CHR ''%'', hexDigit (of_char c div 16), hexDigit (of_char c mod 16)]) s)"

definition restPath :: "string \<Rightarrow> string" where
  "restPath key =
     (let p = parseKey key;
          p' = (''disc'', PathEscape (part p ''disc'')) # (''subid'', PathEscape (part p ''subid'')) # p
      in fill (case specByKind (kindOf key) of None \<Rightarrow> [] | Some s \<Rightarrow> rest s) p')"

definition typenameFor :: "string \<Rightarrow> string" where
  "typenameFor key = (case specByKind (kindOf key) of None \<Rightarrow> ''Node'' | Some s \<Rightarrow> typename s)"

definition scopePrefix :: "string \<Rightarrow> string" where
  "scopePrefix key =
     (let p = parseKey key in
      if part p ''owner'' = [] \<or> part p ''repo'' = [] then []
      else ''repo:'' @ part p ''owner'' @ ''/'' @ part p ''repo'')"

definition composite :: "string \<Rightarrow> string" where
  "composite key = (let sp = scopePrefix key in if sp = [] then [] else sp @ ''|'' @ kindOf key)"

definition listKey :: "string \<Rightarrow> string \<Rightarrow> string" where
  "listKey op scope = ''list:'' @ op @ '':'' @ scope"

subsection \<open>Webhook payloads\<close>

definition repoFullName :: "obj \<Rightarrow> string \<times> string" where
  "repoFullName payload =
     (case asObj (at payload ''repository'') of
        None \<Rightarrow> ([], [])
      | Some repo \<Rightarrow>
          let byOwner =
            (let name = (case asStr (at repo ''name'') of None \<Rightarrow> [] | Some n \<Rightarrow> n) in
             case asObj (at repo ''owner'') of
               None \<Rightarrow> ([], name)
             | Some owner \<Rightarrow> (case asStr (at owner ''login'') of None \<Rightarrow> ([], name) | Some login \<Rightarrow> (login, name))) in
          (case asStr (at repo ''full_name'') of
             None \<Rightarrow> byOwner
           | Some full \<Rightarrow> (case cut CHR ''/'' full of (o', r, found) \<Rightarrow> if found then (o', r) else byOwner)))"

definition discField :: "obj \<Rightarrow> string \<Rightarrow> string \<Rightarrow> string option" where
  "discField payload o' f =
     (case asObj (at payload o') of
        None \<Rightarrow> None
      | Some m \<Rightarrow> if at m f = ANil then None
                  else (let s = coerce (at m f) in if s = [] then None else Some s))"

definition eventKey :: "string \<Rightarrow> obj \<Rightarrow> string option" where
  "eventKey event payload =
     (case specByEvent event of
        None \<Rightarrow> None
      | Some s \<Rightarrow>
          let isPR = event = ''issue_comment'' \<and>
                (case asObj (at payload ''issue'') of None \<Rightarrow> False | Some iss \<Rightarrow> map_of iss ''pull_request'' \<noteq> None);
              kf = (if isPR then ''pr:{owner}/{repo}#{disc}'' else keyfmt s);
              (owner, repo) = repoFullName payload in
          if owner = [] \<or> repo = [] then None
          else if \<not> safeName owner \<or> \<not> safeName repo then None
          else (case discField payload (evObj s) (evField s) of
                  None \<Rightarrow> None
                | Some disc \<Rightarrow> Some (fill kf [(''owner'', owner), (''repo'', repo), (''disc'', disc)])))"

definition relatedKeys :: "string \<Rightarrow> obj \<Rightarrow> string list" where
  "relatedKeys event payload =
     (if event \<noteq> ''check_run'' then []
      else let (owner, repo) = repoFullName payload in
      if owner = [] \<or> repo = [] \<or> \<not> safeName owner \<or> \<not> safeName repo then []
      else let cr = (case asObj (at payload ''check_run'') of None \<Rightarrow> [] | Some m \<Rightarrow> m);
               prs = (case asArr (at cr ''pull_requests'') of None \<Rightarrow> [] | Some xs \<Rightarrow> xs)
      in concat (map (\<lambda>e.
           case asObj e of
             None \<Rightarrow> []
           | Some m \<Rightarrow> (let disc = coerce (at m ''number'') in
               if disc = [] then []
               else [fill (case specByKind ''pr'' of None \<Rightarrow> [] | Some s \<Rightarrow> keyfmt s)
                       [(''owner'', owner), (''repo'', repo), (''disc'', disc)]])) prs))"

subsection \<open>Lemmas: templates and separators\<close>

text \<open>A scope name: what \<open>safeName\<close> lets through, and not empty.\<close>

definition scopeName :: "string \<Rightarrow> bool" where
  "scopeName s \<longleftrightarrow> s \<noteq> [] \<and> safeName s"

lemma nameChar_neq [simp]:
  "nameChar c \<Longrightarrow> c \<noteq> CHR ''/''" "nameChar c \<Longrightarrow> c \<noteq> CHR ''#''" "nameChar c \<Longrightarrow> c \<noteq> CHR ''@''"
  "nameChar c \<Longrightarrow> c \<noteq> CHR '':''" "nameChar c \<Longrightarrow> c \<noteq> CHR ''|''" "nameChar c \<Longrightarrow> c \<noteq> CHR ''?''"
  "nameChar c \<Longrightarrow> c \<noteq> CHR ''%''"
  by (auto simp: nameChar_def isLetter_def isDigit_def)

lemma scopeName_chars: "scopeName s \<Longrightarrow> c \<in> set s \<Longrightarrow> nameChar c"
  by (auto simp: scopeName_def safeName_def ownerRepoRe_def list_all_iff)

lemma scopeName_seps [simp]:
  assumes "scopeName s"
  shows "CHR ''/'' \<notin> set s" "CHR ''#'' \<notin> set s" "CHR ''@'' \<notin> set s" "CHR '':'' \<notin> set s" "CHR ''|'' \<notin> set s"
    "CHR ''?'' \<notin> set s" "CHR ''%'' \<notin> set s"
  using scopeName_chars [OF assms] nameChar_neq by blast+

lemma scopeName_nonempty [simp]: "scopeName s \<Longrightarrow> s \<noteq> []"
  by (simp add: scopeName_def)

lemma stripHost_append: "CHR ''@'' \<notin> set p \<Longrightarrow> stripHost (p @ d) = p @ stripHost d"
proof (cases "lastIndexByte d CHR ''@''")
  case None
  then have "CHR ''@'' \<notin> set d" by (simp add: lastIndexByte_None_iff)
  moreover assume "CHR ''@'' \<notin> set p"
  ultimately show ?thesis by (simp add: stripHost_def)
next
  case (Some i)
  assume p: "CHR ''@'' \<notin> set p"
  obtain a b where d: "d = a @ CHR ''@'' # b" "CHR ''@'' \<notin> set b"
    using Some by (metis lastIndexByte_None_iff option.distinct(1) split_list_last)
  then have "lastIndexByte (p @ d) CHR ''@'' = Some (length p + length a)"
    using lastIndexByte_append [of "CHR ''@''" b "p @ a"] by simp
  with d show ?thesis by (simp add: stripHost_def)
qed

lemma set_stripHost: "set (stripHost d) \<subseteq> set d"
  by (auto simp: stripHost_def dest: in_set_takeD split: option.splits)

lemma stripHost_absent [simp]: "CHR ''@'' \<notin> set d \<Longrightarrow> stripHost d = d"
  by (simp add: stripHost_def)

text \<open>The kinds whose key is \<open>kind:owner/repo\<close> followed by one separator and a discriminator.\<close>

definition keySep :: "(string \<times> char) list" where
  "keySep = [(''issue'', CHR ''#''), (''pr'', CHR ''#''), (''checkRun'', CHR ''/''), (''label'', CHR ''/''),
     (''release'', CHR ''/''), (''commit'', CHR ''/'')]"

definition objKey :: "string \<Rightarrow> char \<Rightarrow> string \<Rightarrow> string \<Rightarrow> string \<Rightarrow> string" where
  "objKey k sep o' r d = k @ '':'' @ o' @ ''/'' @ r @ [sep] @ d"

definition objParts :: "string \<Rightarrow> string \<Rightarrow> string \<Rightarrow> parts" where
  "objParts o' r d = [(''owner'', o'), (''repo'', r), (''disc'', d)]"

lemma kindOf_prefix [simp]: "CHR '':'' \<notin> set k \<Longrightarrow> kindOf (k @ CHR '':'' # x) = k"
  by (simp add: kindOf_def)

lemma keySep_kind: "(k, sep) \<in> set keySep \<Longrightarrow> CHR '':'' \<notin> set k \<and> CHR ''@'' \<notin> set k \<and> k \<noteq> ''user'' \<and> sep \<in> {CHR ''#'', CHR ''/''}"
  by (auto simp: keySep_def)

lemma kindOf_objKey: "(k, sep) \<in> set keySep \<Longrightarrow> kindOf (objKey k sep o' r d) = k"
  using keySep_kind [of k sep] by (simp add: objKey_def)

lemma stripHost_objKey:
  assumes "(k, sep) \<in> set keySep" "scopeName o'" "scopeName r"
  shows "stripHost (objKey k sep o' r d) = objKey k sep o' r (stripHost d)"
proof -
  have "CHR ''@'' \<notin> set (k @ '':'' @ o' @ ''/'' @ r @ [sep])"
    using keySep_kind [OF assms(1)] assms(2,3) by auto
  from stripHost_append [OF this, of d] show ?thesis by (simp add: objKey_def)
qed

lemma parseKey_objKey:
  assumes "(k, sep) \<in> set keySep" "scopeName o'" "scopeName r"
  shows "part (parseKey (objKey k sep o' r d)) ''owner'' = o'"
    "part (parseKey (objKey k sep o' r d)) ''repo'' = r"
    "part (parseKey (objKey k sep o' r d)) ''disc'' = fst (cut CHR ''/'' (stripHost d))"
proof -
  have k: "CHR '':'' \<notin> set k" "k \<noteq> ''user''" "sep = CHR ''#'' \<or> sep = CHR ''/''"
    using keySep_kind [OF assms(1)] by auto
  have rest: "(case indexByte (objKey k sep o' r (stripHost d)) CHR '':'' of
      None \<Rightarrow> objKey k sep o' r (stripHost d) | Some i \<Rightarrow> drop (i + 1) (objKey k sep o' r (stripHost d)))
      = o' @ CHR ''/'' # r @ sep # stripHost d"
    using k(1) by (simp add: objKey_def)
  have tail: "indexAny (r @ sep # stripHost d) ''#/'' = Some (length r)"
    using k(3) assms(3) by (intro indexAny_append) auto
  have cutd: "(case indexByte x CHR ''/'' of Some si \<Rightarrow> take si x | None \<Rightarrow> x) = fst (cut CHR ''/'' x)" for x
    by (induction x) (auto split: option.splits prod.splits)
  note * = parseKey_def Let_def kindOf_objKey [OF assms(1)] stripHost_objKey [OF assms] rest k(2)
  show "part (parseKey (objKey k sep o' r d)) ''owner'' = o'" "part (parseKey (objKey k sep o' r d)) ''repo'' = r"
    using assms(2) tail by (auto simp: * part_def split: option.splits)
  show "part (parseKey (objKey k sep o' r d)) ''disc'' = fst (cut CHR ''/'' (stripHost d))"
    using assms(2) tail cutd [of "stripHost d"] by (auto simp: * part_def split: option.splits)
qed

lemma fill_keyfmt:
  "fill ''issue:{owner}/{repo}#{disc}'' (objParts o' r d) = objKey ''issue'' CHR ''#'' o' r d"
  "fill ''pr:{owner}/{repo}#{disc}'' (objParts o' r d) = objKey ''pr'' CHR ''#'' o' r d"
  "fill ''checkRun:{owner}/{repo}/{disc}'' (objParts o' r d) = objKey ''checkRun'' CHR ''/'' o' r d"
  "fill ''label:{owner}/{repo}/{disc}'' (objParts o' r d) = objKey ''label'' CHR ''/'' o' r d"
  "fill ''release:{owner}/{repo}/{disc}'' (objParts o' r d) = objKey ''release'' CHR ''/'' o' r d"
  "fill ''commit:{owner}/{repo}/{disc}'' (objParts o' r d) = objKey ''commit'' CHR ''/'' o' r d"
  by (simp_all add: fill_def fillWith.simps isLetter_def objParts_def objKey_def)


lemma objParts_cons: "[(''owner'', o'), (''repo'', r), (''disc'', d)] = objParts o' r d"
  by (simp add: objParts_def)

lemma scope_objKey:
  assumes "(k, sep) \<in> set keySep" "scopeName o'" "scopeName r"
  shows "scopePrefix (objKey k sep o' r d) = ''repo:'' @ o' @ ''/'' @ r"
    "composite (objKey k sep o' r d) = ''repo:'' @ o' @ ''/'' @ r @ ''|'' @ k"
  using assms by (simp_all add: scopePrefix_def composite_def Let_def parseKey_objKey kindOf_objKey)

text \<open>The key of a kind of the table, printed by its format and read by the parser.\<close>

definition printKey :: "string \<times> string \<times> string \<times> string \<Rightarrow> string" where
  "printKey x = (case x of (k, o', r, d) \<Rightarrow>
     fill (case specByKind k of None \<Rightarrow> [] | Some s \<Rightarrow> keyfmt s) (objParts o' r d))"

definition readKey :: "string \<Rightarrow> (string \<times> string \<times> string \<times> string) option" where
  "readKey key = (let p = parseKey key in Some (kindOf key, part p ''owner'', part p ''repo'', part p ''disc''))"

definition keyWf :: "string \<times> string \<times> string \<times> string \<Rightarrow> bool" where
  "keyWf x = (case x of (k, o', r, d) \<Rightarrow> k \<in> fst ` set keySep \<and> scopeName o' \<and> scopeName r
     \<and> CHR ''/'' \<notin> set d \<and> CHR ''@'' \<notin> set d)"

definition formatOf :: "string \<Rightarrow> string" where
  "formatOf k = (case specByKind k of None \<Rightarrow> [] | Some s \<Rightarrow> keyfmt s)"

lemma formatOf_simps:
  "formatOf ''issue'' = ''issue:{owner}/{repo}#{disc}''" "formatOf ''pr'' = ''pr:{owner}/{repo}#{disc}''"
  "formatOf ''checkRun'' = ''checkRun:{owner}/{repo}/{disc}''" "formatOf ''label'' = ''label:{owner}/{repo}/{disc}''"
  "formatOf ''release'' = ''release:{owner}/{repo}/{disc}''" "formatOf ''commit'' = ''commit:{owner}/{repo}/{disc}''"
  by (simp_all add: formatOf_def specByKind_def kindSpecs_def)

lemma printKey_objKey:
  assumes "(k, sep) \<in> set keySep"
  shows "printKey (k, o', r, d) = objKey k sep o' r d"
  using assms unfolding printKey_def prod.case formatOf_def [symmetric]
  by (auto simp: keySep_def fill_keyfmt formatOf_simps)

interpretation ghkey: key_format printKey readKey keyWf
proof
  fix x
  assume "keyWf x"
  then obtain k sep o' r d where x: "x = (k, o', r, d)" "(k, sep) \<in> set keySep" "scopeName o'" "scopeName r"
      "CHR ''/'' \<notin> set d" "CHR ''@'' \<notin> set d"
    by (auto simp: keyWf_def)
  then show "readKey (printKey x) = Some x"
    by (simp add: printKey_objKey [OF x(2)] readKey_def Let_def parseKey_objKey kindOf_objKey)
qed

definition eventFormats :: "string list" where
  "eventFormats = [''issue:{owner}/{repo}#{disc}'', ''pr:{owner}/{repo}#{disc}'', ''checkRun:{owner}/{repo}/{disc}'',
      ''label:{owner}/{repo}/{disc}'', ''release:{owner}/{repo}/{disc}'']"

lemma fill_eventFormats:
  "fmt \<in> set eventFormats \<Longrightarrow> \<exists>p \<in> set keySep. fill fmt (objParts o' r d) = objKey (fst p) (snd p) o' r d"
  unfolding eventFormats_def set_simps by (elim insertE emptyE) (simp_all add: fill_keyfmt keySep_def)

text \<open>The form of every key a webhook addresses.\<close>

lemma eventKey_form:
  assumes "eventKey event payload = Some key"
  obtains k sep o' r d where "(k, sep) \<in> set keySep" "repoFullName payload = (o', r)" "scopeName o'" "scopeName r"
    "d \<noteq> []" "key = objKey k sep o' r d"
proof -
  obtain s where s: "specByEvent event = Some s" using assms by (auto simp: eventKey_def split: option.splits)
  obtain o' r where or: "repoFullName payload = (o', r)" by (cases "repoFullName payload")
  define isPR where "isPR \<longleftrightarrow> event = ''issue_comment'' \<and>
      (case asObj (at payload ''issue'') of None \<Rightarrow> False | Some iss \<Rightarrow> map_of iss ''pull_request'' \<noteq> None)"
  have e: "(if o' = [] \<or> r = [] then None else if \<not> safeName o' \<or> \<not> safeName r then None
      else (case discField payload (evObj s) (evField s) of None \<Rightarrow> None
        | Some disc \<Rightarrow> Some (fill (if isPR then ''pr:{owner}/{repo}#{disc}'' else keyfmt s) (objParts o' r disc)))) = Some key"
    using assms unfolding eventKey_def s option.case or Let_def prod.case isPR_def objParts_def .
  then have "scopeName o'" "scopeName r" by (auto simp: scopeName_def split: if_splits)
  with e obtain d where d: "scopeName o'" "scopeName r" "discField payload (evObj s) (evField s) = Some d"
      "key = fill (if isPR then ''pr:{owner}/{repo}#{disc}'' else keyfmt s) (objParts o' r d)"
    by (cases "discField payload (evObj s) (evField s)") (simp_all split: if_split_asm)
  have "s \<in> set kindSpecs \<and> evs s \<noteq> []"
    using find_SomeD [OF s [unfolded specByEvent_def]] by auto
  then have f: "keyfmt s \<in> {''issue:{owner}/{repo}#{disc}'', ''pr:{owner}/{repo}#{disc}'', ''checkRun:{owner}/{repo}/{disc}'',
      ''label:{owner}/{repo}/{disc}'', ''release:{owner}/{repo}/{disc}''}"
    by (auto simp: kindSpecs_def)
  then have "(if isPR then ''pr:{owner}/{repo}#{disc}'' else keyfmt s) \<in> set eventFormats"
    by (simp add: eventFormats_def)
  from fill_eventFormats [OF this] obtain k sep where "(k, sep) \<in> set keySep" "key = objKey k sep o' r d"
    unfolding d(4) by (metis prod.collapse)
  moreover have "d \<noteq> []" using d(3) by (auto simp: discField_def Let_def split: option.splits if_splits)
  ultimately show ?thesis using that or d(1,2) by metis
qed

subsection \<open>Lemmas: REST paths\<close>

lemma part_Some: "part p k \<noteq> [] \<Longrightarrow> map_of p k = Some (part p k)"
  by (simp add: part_def split: option.splits)

lemma pathSafe_hexDigit: "n < 16 \<Longrightarrow> pathSafe (hexDigit n)"
  by (auto simp: hexDigit_def pathSafe_def isDigit_def isLetter_def Let_def)

lemma PathEscape_chars: "c \<in> set (PathEscape s) \<Longrightarrow> pathSafe c \<or> c = CHR ''%''"
proof (induction s)
  case Nil
  then show ?case by (simp add: PathEscape_def)
next
  case (Cons x xs)
  have "(of_char x :: nat) div 16 < 16"
    using nat_of_char_less_256 [of x] by (simp add: less_mult_imp_div_less)
  with Cons pathSafe_hexDigit show ?case
    by (fastforce simp: PathEscape_def split: if_split_asm)
qed

lemma pathSafe_neq: "pathSafe c \<Longrightarrow> c \<noteq> CHR ''/'' \<and> c \<noteq> CHR ''?'' \<and> c \<noteq> CHR ''#''"
  by (auto simp: pathSafe_def isLetter_def isDigit_def)

lemma PathEscape_confined: "CHR ''/'' \<notin> set (PathEscape s)" "CHR ''?'' \<notin> set (PathEscape s)" "CHR ''#'' \<notin> set (PathEscape s)"
  using PathEscape_chars pathSafe_neq by fastforce+

text \<open>The collection a kind is fetched from.\<close>

definition restSeg :: "(string \<times> string) list" where
  "restSeg = [(''issue'', ''/issues/''), (''pr'', ''/pulls/''), (''checkRun'', ''/check-runs/''), (''label'', ''/labels/''),
     (''release'', ''/releases/tags/''), (''commit'', ''/commits/'')]"

lemma fillWith_rest:
  assumes "f ''owner'' = Some o'" "f ''repo'' = Some r" "f ''disc'' = Some d"
  shows "fillWith f ''/repos/{owner}/{repo}/issues/{disc}'' = ''/repos/'' @ o' @ ''/'' @ r @ ''/issues/'' @ d"
    "fillWith f ''/repos/{owner}/{repo}/pulls/{disc}'' = ''/repos/'' @ o' @ ''/'' @ r @ ''/pulls/'' @ d"
    "fillWith f ''/repos/{owner}/{repo}/check-runs/{disc}'' = ''/repos/'' @ o' @ ''/'' @ r @ ''/check-runs/'' @ d"
    "fillWith f ''/repos/{owner}/{repo}/labels/{disc}'' = ''/repos/'' @ o' @ ''/'' @ r @ ''/labels/'' @ d"
    "fillWith f ''/repos/{owner}/{repo}/releases/tags/{disc}'' = ''/repos/'' @ o' @ ''/'' @ r @ ''/releases/tags/'' @ d"
    "fillWith f ''/repos/{owner}/{repo}/commits/{disc}'' = ''/repos/'' @ o' @ ''/'' @ r @ ''/commits/'' @ d"
  using assms by (simp_all add: fillWith.simps isLetter_def)

definition restOf :: "string \<Rightarrow> string" where
  "restOf k = (case specByKind k of None \<Rightarrow> [] | Some s \<Rightarrow> rest s)"

lemma restOf_simps:
  "restOf ''issue'' = ''/repos/{owner}/{repo}/issues/{disc}''" "restOf ''pr'' = ''/repos/{owner}/{repo}/pulls/{disc}''"
  "restOf ''checkRun'' = ''/repos/{owner}/{repo}/check-runs/{disc}''" "restOf ''label'' = ''/repos/{owner}/{repo}/labels/{disc}''"
  "restOf ''release'' = ''/repos/{owner}/{repo}/releases/tags/{disc}''" "restOf ''commit'' = ''/repos/{owner}/{repo}/commits/{disc}''"
  by (simp_all add: restOf_def specByKind_def kindSpecs_def)

lemma fillWith_restOf:
  assumes "(k, seg) \<in> set restSeg" "f ''owner'' = Some o'" "f ''repo'' = Some r" "f ''disc'' = Some d"
  shows "fillWith f (restOf k) = ''/repos/'' @ o' @ ''/'' @ r @ seg @ d"
  using assms(1) unfolding restSeg_def set_simps
  by (elim insertE emptyE) (simp_all only: prod.inject restOf_simps fillWith_rest [OF assms(2-4)] append_assoc)

lemma restPath_objKey:
  assumes "(k, sep) \<in> set keySep" "(k, seg) \<in> set restSeg" "scopeName o'" "scopeName r"
  shows "restPath (objKey k sep o' r d) =
    ''/repos/'' @ o' @ ''/'' @ r @ seg @ PathEscape (fst (cut CHR ''/'' (stripHost d)))"
proof -
  let ?p = "parseKey (objKey k sep o' r d)"
  note P = parseKey_objKey [OF assms(1,3,4), of d]
  let ?f = "map_of ((''disc'', PathEscape (part ?p ''disc'')) # (''subid'', PathEscape (part ?p ''subid'')) # ?p)"
  have f: "?f ''owner'' = Some o'" "?f ''repo'' = Some r" "?f ''disc'' = Some (PathEscape (fst (cut CHR ''/'' (stripHost d))))"
    using part_Some [of ?p "''owner''"] part_Some [of ?p "''repo''"] assms(3,4) by (simp_all add: P)
  have "restPath (objKey k sep o' r d) = fillWith ?f (restOf k)"
    by (simp add: restPath_def fill_def Let_def restOf_def kindOf_objKey [OF assms(1)])
  with fillWith_restOf [of k seg ?f, OF assms(2) f] show ?thesis by simp
qed

subsection \<open>Properties\<close>



text \<open>A webhook addresses only its own repository: whatever the payload holds, the key of an
  event has a repository scope that passed the name check and is the payload's own, even
  when the discriminator carries separators of the grammar, and the composite that selects
  the lists to evict is that scope with the kind of the key.\<close>

theorem event_key_scope:
  assumes "eventKey event payload = Some key"
  shows "\<exists>o' r. repoFullName payload = (o', r) \<and> o' \<noteq> [] \<and> r \<noteq> [] \<and> safeName o' \<and> safeName r
    \<and> scopePrefix key = ''repo:'' @ o' @ ''/'' @ r
    \<and> composite key = ''repo:'' @ o' @ ''/'' @ r @ ''|'' @ kindOf key
    \<and> kindOf key \<in> fst ` set keySep"
  using assms
proof (rule eventKey_form)
  fix k sep o' r d
  assume *: "(k, sep) \<in> set keySep" "repoFullName payload = (o', r)" "scopeName o'" "scopeName r" "key = objKey k sep o' r d"
  then show ?thesis
    using scope_objKey [OF *(1,3,4), of d] kindOf_objKey [OF *(1), of o' r d]
    by (auto simp: scopeName_def intro: rev_image_eqI)
qed

definition demoLabel :: obj where
  "demoLabel = [(''repository'', AObj [(''full_name'', AStr ''o/r'')]), (''label'', AObj [(''name'', AStr ''a/../@b'')])]"

theorem event_key_scope_witness:
  "eventKey ''label'' demoLabel = Some ''label:o/r/a/../@b'' \<and> scopePrefix ''label:o/r/a/../@b'' = ''repo:o/r''"
proof -
  have e: "eventKey ''label'' demoLabel = Some ''label:o/r/a/../@b''" by code_simp
  have f: "repoFullName demoLabel = (''o'', ''r'')" by code_simp
  from event_key_scope [OF e] e f show ?thesis by simp
qed

text \<open>A webhook value cannot break out of its path segment: the REST path of a key that an
  event addresses is the repository's collection for the kind followed by one escaped
  segment, which holds no slash, no query and no fragment separator.\<close>

theorem rest_path_confined:
  assumes "eventKey event payload = Some key"
  shows "\<exists>o' r seg d. repoFullName payload = (o', r) \<and> safeName o' \<and> safeName r \<and> (kindOf key, seg) \<in> set restSeg
    \<and> restPath key = ''/repos/'' @ o' @ ''/'' @ r @ seg @ d
    \<and> CHR ''/'' \<notin> set d \<and> CHR ''?'' \<notin> set d \<and> CHR ''#'' \<notin> set d"
  using assms
proof (rule eventKey_form)
  fix k sep o' r d
  assume *: "(k, sep) \<in> set keySep" "repoFullName payload = (o', r)" "scopeName o'" "scopeName r" "key = objKey k sep o' r d"
  from *(1) have "k \<in> fst ` set restSeg"
    unfolding keySep_def restSeg_def set_simps by (elim insertE emptyE) simp_all
  then obtain seg where seg: "(k, seg) \<in> set restSeg" by (auto simp only: image_iff) (metis prod.collapse)
  let ?d = "PathEscape (fst (cut CHR ''/'' (stripHost d)))"
  have a: "restPath key = ''/repos/'' @ o' @ ''/'' @ r @ seg @ ?d" and b: "kindOf key = k"
    using restPath_objKey [OF *(1) seg *(3,4)] kindOf_objKey [OF *(1)] *(5) by simp_all
  have s: "safeName o'" "safeName r" using *(3,4) by (simp_all add: scopeName_def)
  show ?thesis
    unfolding b by (rule exI [of _ o'], rule exI [of _ r], rule exI [of _ seg], rule exI [of _ ?d], intro conjI)
      (fact *(2) s seg a PathEscape_confined)+
qed

theorem rest_path_confined_witness:
  "restPath ''label:o/r/a/../@b'' = ''/repos/o/r/labels/a'' \<and> (''label'', ''/labels/'') \<in> set restSeg"
proof -
  have e: "eventKey ''label'' demoLabel = Some ''label:o/r/a/../@b''" by code_simp
  have "restPath ''label:o/r/a/../@b'' = ''/repos/o/r/labels/a''" "kindOf ''label:o/r/a/../@b'' = ''label''" by code_simp+
  with rest_path_confined [OF e] show ?thesis by (auto simp: restSeg_def)
qed

text \<open>Two discriminators the table does not carry through: a label whose name has a slash is
  fetched by its first part, and the two-dot segment is not escaped.\<close>

lemma restPath_label_slash: "restPath ''label:o/r/area/docs'' = ''/repos/o/r/labels/area''"
  by code_simp

lemma restPath_dot_dot: "restPath ''label:o/r/..'' = ''/repos/o/r/labels/..''"
  by code_simp

text \<open>The key template of \<open>queries/issueComments.graphql\<close> does not follow the grammar of the
  kind: a comment stored under it has no id in its path.\<close>

lemma restPath_comment_list: "restPath ''comment:o/r/7'' = ''/repos/o/r/issues/comments/''"
  by code_simp

end
