(* ===== verification/GithubStore.thy ===== *)
theory GithubStore
  imports GithubKeys CoreStore
begin

text \<open>
  \<open>plugins/github/store.go\<close>: the node cache, the tag index that drives list purges, the hook
  registry and the delivery ids already seen, as tables beside those of the base store.
  Every statement may fail; reads return rows in table order.
\<close>

record nodeRow =
  rKey :: string
  rTypename :: string
  rJSON :: string
  rETag :: string
  rHash :: "string option"
  rPinned :: bool
  rFetched :: string
  rUpdated :: string

record node =
  nKey :: string
  nTypename :: string
  nJSON :: string
  nETag :: string
  nContentHash :: string
  nPinned :: bool
  nFetchedAt :: instant
  nUpdatedAt :: instant

record github_db = core_db +
  nodes :: "nodeRow list"
  tags :: "(string \<times> string) list"
  hooksTbl :: "((string \<times> string) \<times> int) list"
  deliveries :: "(string \<times> string) list"

text \<open>The zero \<open>time.Time\<close>, January 1 of year 1.\<close>

definition zeroTime :: instant where
  "zeroTime = - 62135596800 * 1000000000"

definition rfc :: "instant \<Rightarrow> string" where
  "rfc t = formatRFC3339Nano t"

definition parseRfc :: "string \<Rightarrow> instant" where
  "parseRfc s = (case parseRFC3339 s of None \<Rightarrow> zeroTime | Some t \<Rightarrow> t)"

text \<open>The result of the \<open>ALTER TABLE\<close> is ignored; on this schema the column exists.\<close>

definition migrate :: "'a github_db_scheme \<Rightarrow> unit res \<times> 'a github_db_scheme" where
  "migrate s =
     (let (ok, s1) = stmt s in
      if \<not> ok then (Inl ''github: migrate'', s1)
      else let s2 = fold createTable [''github_nodes'', ''github_tags'', ''github_hooks'', ''github_deliveries''] s1;
               (_, s3) = stmt s2
      in (Inr (), s3))"

subsection \<open>Nodes\<close>

definition rowNode :: "nodeRow \<Rightarrow> node" where
  "rowNode r = \<lparr>nKey = rKey r, nTypename = rTypename r, nJSON = rJSON r, nETag = rETag r,
     nContentHash = (case rHash r of None \<Rightarrow> [] | Some h \<Rightarrow> h), nPinned = rPinned r,
     nFetchedAt = parseRfc (rFetched r), nUpdatedAt = parseRfc (rUpdated r)\<rparr>"

definition nodeToRow :: "node \<Rightarrow> nodeRow" where
  "nodeToRow n = \<lparr>rKey = nKey n, rTypename = nTypename n, rJSON = nJSON n, rETag = nETag n,
     rHash = Some (nContentHash n), rPinned = nPinned n, rFetched = rfc (nFetchedAt n), rUpdated = rfc (nUpdatedAt n)\<rparr>"

definition getNode :: "string \<Rightarrow> 'a github_db_scheme \<Rightarrow> node option res \<times> 'a github_db_scheme" where
  "getNode key s =
     (let (ok, s1) = stmt s in
      if \<not> ok then (Inl ''github: get'', s1)
      else (Inr (map_option rowNode (tblGet rKey key (nodes s1))), s1))"

definition upsert :: "node \<Rightarrow> 'a github_db_scheme \<Rightarrow> unit res \<times> 'a github_db_scheme" where
  "upsert n s =
     (let (ok, s1) = stmt s in
      if \<not> ok then (Inl ''github: upsert'', s1)
      else (Inr (), s1\<lparr>nodes := tblUpsert rKey (nodeToRow n) (nodes s1)\<rparr>))"

definition bumpFetched :: "string \<Rightarrow> instant \<Rightarrow> 'a github_db_scheme \<Rightarrow> unit res \<times> 'a github_db_scheme" where
  "bumpFetched key t s =
     (let (ok, s1) = stmt s in
      if \<not> ok then (Inl ''update'', s1)
      else (Inr (), s1\<lparr>nodes := tblUpdate (\<lambda>r. rKey r = key) (\<lambda>r. r\<lparr>rFetched := rfc t\<rparr>) (nodes s1)\<rparr>))"

definition putList :: "string \<Rightarrow> string \<Rightarrow> string \<Rightarrow> instant \<Rightarrow> 'a github_db_scheme \<Rightarrow> unit res \<times> 'a github_db_scheme" where
  "putList lk body cov t s =
     (case upsert \<lparr>nKey = lk, nTypename = ''_list'', nJSON = body, nETag = [], nContentHash = [], nPinned = False,
             nFetchedAt = t, nUpdatedAt = t\<rparr> s of
        (Inl e, s1) \<Rightarrow> (Inl e, s1)
      | (Inr _, s1) \<Rightarrow>
          if cov = [] then (Inr (), s1)
          else let (ok, s2) = stmt s1 in
          if \<not> ok then (Inl ''insert tag'', s2)
          else (Inr (), s2\<lparr>tags := tblInsertIgnore id (cov, lk) (tags s2)\<rparr>))"

text \<open>The committed effect of evicting one key.\<close>

definition delNode :: "string \<Rightarrow> 'a github_db_scheme \<Rightarrow> 'a github_db_scheme" where
  "delNode k s = s\<lparr>nodes := tblDelete (\<lambda>r. rKey r = k) (nodes s)\<rparr>"

definition delTag :: "string \<Rightarrow> 'a github_db_scheme \<Rightarrow> 'a github_db_scheme" where
  "delTag k s = s\<lparr>tags := tblDelete (\<lambda>t. snd t = k) (tags s)\<rparr>"

fun purgeLists :: "string list \<Rightarrow> 'a github_db_scheme \<Rightarrow> unit res \<times> 'a github_db_scheme" where
  "purgeLists [] s = (Inr (), s)"
| "purgeLists (lk # lks) s =
     (let (ok, s1) = stmt s in
      if \<not> ok then (Inl ''delete node'', s1)
      else let s2 = delNode lk s1; (ok', s3) = stmt s2 in
      if \<not> ok' then (Inl ''delete tag'', s3)
      else purgeLists lks (delTag lk s3))"

text \<open>The end of a purge: the node itself.\<close>

definition purgeOwn :: "string \<Rightarrow> string list \<Rightarrow> 'a github_db_scheme \<Rightarrow> string list res \<times> 'a github_db_scheme" where
  "purgeOwn key lks s =
     (let (ok, s1) = stmt s in
      if \<not> ok then (Inl ''github: purge'', s1)
      else let hit = tblHas rKey key (nodes s1); s2 = delNode key s1; (ok', s3) = stmt s2 in
      if \<not> ok' then (Inl ''delete tag'', s3)
      else (Inr (lks @ (if hit then [key] else [])), delTag key s3))"

definition purge :: "string \<Rightarrow> 'a github_db_scheme \<Rightarrow> string list res \<times> 'a github_db_scheme" where
  "purge key s0 =
     (let cov = composite key in
      if cov = [] then purgeOwn key [] s0
      else let (ok, s1) = stmt s0 in
      if \<not> ok then (Inl ''github: purge scan'', s1)
      else let lks = map snd (filter (\<lambda>t. fst t = cov) (tags s1)) in
      case purgeLists lks s1 of
        (Inl e, s2) \<Rightarrow> (Inl e, s2)
      | (Inr _, s2) \<Rightarrow> purgeOwn key lks s2)"

definition nonPinnedNodes :: "'a github_db_scheme \<Rightarrow> node list res \<times> 'a github_db_scheme" where
  "nonPinnedNodes s =
     (let (ok, s1) = stmt s in
      if \<not> ok then (Inl ''select'', s1)
      else (Inr (map (\<lambda>r. \<lparr>nKey = rKey r, nTypename = [], nJSON = rJSON r, nETag = rETag r,
                 nContentHash = (case rHash r of None \<Rightarrow> [] | Some h \<Rightarrow> h), nPinned = False,
                 nFetchedAt = zeroTime, nUpdatedAt = zeroTime\<rparr>)
               (filter (\<lambda>r. \<not> rPinned r \<and> rTypename r \<noteq> ''_list'') (nodes s1))), s1))"

definition escapeLike :: "string \<Rightarrow> string" where
  "escapeLike s = concat (map (\<lambda>c. if c \<in> set [CHR 0x5C, CHR ''%'', CHR ''_''] then [CHR 0x5C, c] else [c]) s)"

text \<open>SQLite's \<open>s LIKE p ESCAPE '\'\<close>: letters of ASCII match in either case.\<close>

fun sqlLike :: "string \<Rightarrow> string \<Rightarrow> bool" where
  "sqlLike [] s \<longleftrightarrow> s = []"
| "sqlLike (p # ps) s \<longleftrightarrow>
     (if p = CHR ''%'' then (\<exists>k \<in> set [0..<Suc (length s)]. sqlLike ps (drop k s))
      else if p = CHR ''_'' then s \<noteq> [] \<and> sqlLike ps (tl s)
      else if p = CHR 0x5C then
        (case ps of [] \<Rightarrow> False | c # cs \<Rightarrow> s \<noteq> [] \<and> lowerByte (hd s) = lowerByte c \<and> sqlLike cs (tl s))
      else s \<noteq> [] \<and> lowerByte (hd s) = lowerByte p \<and> sqlLike ps (tl s))"

definition nodesByKind :: "string \<Rightarrow> string \<Rightarrow> 'a github_db_scheme \<Rightarrow> (string \<times> string) list res \<times> 'a github_db_scheme" where
  "nodesByKind k scope s =
     (let pat = escapeLike (k @ '':'' @ scope @ ''#'') @ ''%''; (ok, s1) = stmt s in
      if \<not> ok then (Inl ''select'', s1)
      else (Inr (map (\<lambda>r. (rKey r, rJSON r))
              (filter (\<lambda>r. rTypename r \<noteq> ''_list'' \<and> sqlLike pat (rKey r)) (nodes s1))), s1))"

subsection \<open>Deliveries, hooks and cursors\<close>

definition deliverySeen :: "string \<Rightarrow> 'a github_db_scheme \<Rightarrow> bool \<times> 'a github_db_scheme" where
  "deliverySeen i s = (let (ok, s1) = stmt s in (ok \<and> tblHas fst i (deliveries s1), s1))"

definition markDelivery :: "string \<Rightarrow> instant \<Rightarrow> 'a github_db_scheme \<Rightarrow> unit res \<times> 'a github_db_scheme" where
  "markDelivery i t s =
     (let (ok, s1) = stmt s in
      if \<not> ok then (Inl ''insert delivery'', s1)
      else (Inr (), s1\<lparr>deliveries := tblInsertIgnore fst (i, rfc t) (deliveries s1)\<rparr>))"

definition pruneDeliveries :: "instant \<Rightarrow> 'a github_db_scheme \<Rightarrow> unit res \<times> 'a github_db_scheme" where
  "pruneDeliveries before s =
     (let (ok, s1) = stmt s in
      if \<not> ok then (Inl ''delete deliveries'', s1)
      else (Inr (), s1\<lparr>deliveries := tblDelete (\<lambda>d. snd d < rfc before) (deliveries s1)\<rparr>))"

definition hook :: "string \<Rightarrow> string \<Rightarrow> 'a github_db_scheme \<Rightarrow> int option \<times> 'a github_db_scheme" where
  "hook owner repo s =
     (let (ok, s1) = stmt s in
      (if ok then map_option snd (tblGet fst (owner, repo) (hooksTbl s1)) else None, s1))"

definition putHook :: "string \<Rightarrow> string \<Rightarrow> int \<Rightarrow> 'a github_db_scheme \<Rightarrow> unit res \<times> 'a github_db_scheme" where
  "putHook owner repo i s =
     (let (ok, s1) = stmt s in
      if \<not> ok then (Inl ''upsert hook'', s1)
      else (Inr (), s1\<lparr>hooksTbl := tblUpsert fst ((owner, repo), i) (hooksTbl s1)\<rparr>))"

definition hooks :: "'a github_db_scheme \<Rightarrow> (string \<times> string \<times> string) list res \<times> 'a github_db_scheme" where
  "hooks s =
     (let (ok, s1) = stmt s in
      if \<not> ok then (Inl ''select hooks'', s1)
      else (Inr (map (\<lambda>((o', r), i). (o', r, itoa i)) (hooksTbl s1)), s1))"

definition cursor :: "string \<Rightarrow> 'a github_db_scheme \<Rightarrow> string \<times> 'a github_db_scheme" where
  "cursor name s = (case Cursor name s of (Inl _, s1) \<Rightarrow> ([], s1) | (Inr v, s1) \<Rightarrow> (v, s1))"

definition setCursor :: "string \<Rightarrow> string \<Rightarrow> 'a github_db_scheme \<Rightarrow> unit res \<times> 'a github_db_scheme" where
  "setCursor name v s = SetCursor name v s"

subsection \<open>Lemmas: nodes\<close>

definition ghInv :: "'a github_db_scheme \<Rightarrow> bool" where
  "ghInv s \<longleftrightarrow> coreInv s \<and> tblInv rKey (nodes s) \<and> tblInv fst (hooksTbl s) \<and> tblInv fst (deliveries s) \<and> distinct (tags s)"

definition nodeAt :: "'a github_db_scheme \<Rightarrow> string \<Rightarrow> nodeRow option" where
  "nodeAt s k = tblGet rKey k (nodes s)"

definition putNode :: "nodeRow \<Rightarrow> 'a github_db_scheme \<Rightarrow> 'a github_db_scheme" where
  "putNode r s = s\<lparr>nodes := tblUpsert rKey r (nodes s)\<rparr>"

interpretation gh: keyed_store nodeAt putNode rKey ghInv delNode
  by unfold_locales
    (auto simp: nodeAt_def putNode_def delNode_def tbl_simps ghInv_def coreInv_def)

lemma upsert_outcome:
  "(\<exists>fs. upsert n s = (Inl ''github: upsert'', s\<lparr>faults := fs\<rparr>)) \<or>
   (\<exists>fs. upsert n s = (Inr (), putNode (nodeToRow n) (s\<lparr>faults := fs\<rparr>)))"
  by (auto simp: upsert_def stmt_alt putNode_def split: list.splits bool.splits)

lemma upsert_no_faults [simp]: "faults s = [] \<Longrightarrow> upsert n s = (Inr (), putNode (nodeToRow n) s)"
  by (simp add: upsert_def putNode_def)

lemma getNode_no_faults [simp]: "faults s = [] \<Longrightarrow> getNode k s = (Inr (map_option rowNode (nodeAt s k)), s)"
  by (simp add: getNode_def nodeAt_def)

lemma faults_putNode [simp]: "faults (putNode r s) = faults s"
  by (simp add: putNode_def)

lemma rKey_nodeToRow [simp]: "rKey (nodeToRow n) = nKey n"
  by (simp add: nodeToRow_def)

lemma parseRfc_rfc [simp]: "fourDigitYear t \<Longrightarrow> parseRfc (rfc t) = t"
  by (simp add: parseRfc_def rfc_def tm.parse_print)

lemma rowNode_nodeToRow [simp]:
  "fourDigitYear (nFetchedAt n) \<Longrightarrow> fourDigitYear (nUpdatedAt n) \<Longrightarrow> rowNode (nodeToRow n) = n"
  by (simp add: rowNode_def nodeToRow_def)

subsection \<open>Lemmas: purge\<close>

text \<open>A database after the nodes with a key in \<open>D\<close> and the tags of a key in \<open>E\<close> are gone.\<close>

definition evicted :: "string set \<Rightarrow> string set \<Rightarrow> bool list \<Rightarrow> 'a github_db_scheme \<Rightarrow> 'a github_db_scheme" where
  "evicted D E fs s = s\<lparr>faults := fs, nodes := filter (\<lambda>r. rKey r \<notin> D) (nodes s), tags := filter (\<lambda>t. snd t \<notin> E) (tags s)\<rparr>"

lemma evicted_evicted: "evicted D2 E2 fs2 (evicted D1 E1 fs1 s) = evicted (D1 \<union> D2) (E1 \<union> E2) fs2 s"
  by (simp add: evicted_def conj_commute)

lemma delNode_evicted: "delNode k (evicted D E fs s) = evicted (insert k D) E fs s"
  by (simp add: evicted_def delNode_def tblDelete_def conj_commute)

lemma delTag_evicted: "delTag k (evicted D E fs s) = evicted D (insert k E) fs s"
  by (simp add: evicted_def delTag_def tblDelete_def conj_commute)

lemma evicted_faults: "(evicted D E fs s)\<lparr>faults := fs'\<rparr> = evicted D E fs' s"
  by (cases s) (simp add: evicted_def)

lemma faults_evicted [simp]: "faults (evicted D E fs s) = fs"
  by (simp add: evicted_def)

lemma stmt_evicted: "\<exists>b fs'. stmt (evicted D E fs s) = (b, evicted D E fs' s)"
  by (cases fs) (auto simp: stmt_def evicted_faults faults_evicted)

lemma stmt_evicted0: "\<exists>b fs'. stmt s = (b, evicted {} {} fs' s)"
  by (cases "faults s") (auto simp: stmt_alt evicted_def)

lemma purgeLists_evicted:
  "\<exists>r D' E' fs'. purgeLists lks (evicted D E fs s) = (r, evicted D' E' fs' s)
     \<and> D \<subseteq> D' \<and> D' \<subseteq> D \<union> set lks \<and> E \<subseteq> E' \<and> E' \<subseteq> E \<union> set lks
     \<and> (r = Inr () \<longrightarrow> D' = D \<union> set lks \<and> E' = E \<union> set lks)"
proof (induction lks arbitrary: D E fs)
  case Nil
  then show ?case by auto
next
  case (Cons lk lks)
  obtain b1 f1 where 1: "stmt (evicted D E fs s) = (b1, evicted D E f1 s)" using stmt_evicted by blast
  obtain b2 f2 where 2: "stmt (evicted (insert lk D) E f1 s) = (b2, evicted (insert lk D) E f2 s)"
    using stmt_evicted by blast
  show ?case
  proof (cases "b1 \<and> b2")
    case False
    then show ?thesis by (auto simp: 1 2 Let_def delNode_evicted)
  next
    case True
    then have "purgeLists (lk # lks) (evicted D E fs s) = purgeLists lks (evicted (insert lk D) (insert lk E) f2 s)"
      by (simp add: 1 2 Let_def delNode_evicted delTag_evicted)
    with Cons.IH [of "insert lk D" "insert lk E" f2] show ?thesis by fastforce
  qed
qed

text \<open>The keys a purge is to evict.\<close>

definition covering :: "string \<Rightarrow> 'a github_db_scheme \<Rightarrow> string list" where
  "covering key s = (if composite key = [] then [] else map snd (filter (\<lambda>t. fst t = composite key) (tags s)))"

lemma purgeOwn_evicted:
  "\<exists>r D' E' fs'. purgeOwn key lks (evicted D E fs s) = (r, evicted D' E' fs' s)
     \<and> D \<subseteq> D' \<and> D' \<subseteq> insert key D \<and> E \<subseteq> E' \<and> E' \<subseteq> insert key E
     \<and> (\<forall>ks. r = Inr ks \<longrightarrow> D' = insert key D \<and> E' = insert key E
            \<and> ks = lks @ (if key \<notin> D \<and> tblHas rKey key (nodes s) then [key] else []))"
proof -
  obtain b1 f1 where 1: "stmt (evicted D E fs s) = (b1, evicted D E f1 s)" using stmt_evicted by blast
  obtain b2 f2 where 2: "stmt (evicted (insert key D) E f1 s) = (b2, evicted (insert key D) E f2 s)"
    using stmt_evicted by blast
  have hit: "tblHas rKey key (nodes (evicted D E f1 s)) \<longleftrightarrow> key \<notin> D \<and> tblHas rKey key (nodes s)"
    by (auto simp: evicted_def tblHas_def)
  show ?thesis
    by (cases b1; cases b2) (auto simp: purgeOwn_def 1 2 Let_def delNode_evicted delTag_evicted hit)
qed

lemma covering_cons: "composite key \<noteq> [] \<Longrightarrow> map snd (filter (\<lambda>t. fst t = composite key) (tags s)) = covering key s"
  by (simp add: covering_def)

lemma purge_alt:
  "purge key s =
     (if composite key = [] then purgeOwn key [] s
      else let (ok, s1) = stmt s in
      if \<not> ok then (Inl ''github: purge scan'', s1)
      else case purgeLists (covering key s) s1 of
             (Inl e, s2) \<Rightarrow> (Inl e, s2)
           | (Inr _, s2) \<Rightarrow> purgeOwn key (covering key s) s2)"
proof -
  obtain b fs where "stmt s = (b, s\<lparr>faults := fs\<rparr>)" by (rule stmt_obtain)
  then show ?thesis
    by (cases "composite key = []") (simp_all add: purge_def covering_cons Let_def)
qed

lemma evicted_self: "evicted {} {} (faults s) s = s"
  by (simp add: evicted_def)

lemma purge_outcome:
  "\<exists>r D E fs. purge key s = (r, evicted D E fs s)
     \<and> D \<subseteq> insert key (set (covering key s)) \<and> E \<subseteq> insert key (set (covering key s))
     \<and> (\<forall>ks. r = Inr ks \<longrightarrow> D = insert key (set (covering key s)) \<and> E = insert key (set (covering key s))
            \<and> ks = covering key s @ (if key \<notin> set (covering key s) \<and> tblHas rKey key (nodes s) then [key] else []))"
proof (cases "composite key = []")
  case True
  then have "covering key s = []" by (simp add: covering_def)
  with True purgeOwn_evicted [of key "[]" "{}" "{}" "faults s" s, unfolded evicted_self] show ?thesis
    by (simp add: purge_alt)
next
  case False
  let ?C = "covering key s"
  obtain b f where b: "stmt s = (b, evicted {} {} f s)" using stmt_evicted0 by blast
  obtain r1 D1 E1 f1 where 1: "purgeLists ?C (evicted {} {} f s) = (r1, evicted D1 E1 f1 s)"
    "D1 \<subseteq> set ?C" "E1 \<subseteq> set ?C" "r1 = Inr () \<longrightarrow> D1 = set ?C \<and> E1 = set ?C"
    using purgeLists_evicted [of ?C "{}" "{}" f s] by auto
  consider "\<not> b" | x where "b" "r1 = Inl x" | "b" "r1 = Inr ()" by (cases r1) auto
  then show ?thesis
  proof cases
    case 1
    then show ?thesis using False by (auto simp: purge_alt b)
  next
    case 2
    then show ?thesis using False 1 by (auto simp: purge_alt b)
  next
    case 3
    with False 1 have "purge key s = purgeOwn key ?C (evicted (set ?C) (set ?C) f1 s)" by (simp add: purge_alt b)
    moreover from purgeOwn_evicted [of key ?C "set ?C" "set ?C" f1 s] obtain r D E fs where
      "purgeOwn key ?C (evicted (set ?C) (set ?C) f1 s) = (r, evicted D E fs s)"
      "D \<subseteq> insert key (set ?C)" "E \<subseteq> insert key (set ?C)"
      "\<forall>ks. r = Inr ks \<longrightarrow> D = insert key (set ?C) \<and> E = insert key (set ?C)
         \<and> ks = ?C @ (if key \<notin> set ?C \<and> tblHas rKey key (nodes s) then [key] else [])"
      by (elim exE conjE)
    ultimately show ?thesis by (intro exI [of _ r] exI [of _ D] exI [of _ E] exI [of _ fs] conjI) (simp_all only:)
  qed
qed

lemma tags_putNode [simp]: "tags (putNode r s) = tags s"
  by (simp add: putNode_def)

lemma set_insertIgnore_id: "set (tblInsertIgnore id x t) = insert x (set t)"
  by (auto simp: tblInsertIgnore_def tblHas_def)

lemma nodeAt_evicted: "nodeAt (evicted D E fs s) k = (if k \<in> D then None else nodeAt s k)"
proof -
  have "tblGet rKey k (filter (\<lambda>r. rKey r \<notin> D) ns) = (if k \<in> D then None else tblGet rKey k ns)" for ns :: "nodeRow list"
    by (induction ns) auto
  then show ?thesis by (simp add: nodeAt_def evicted_def)
qed

lemma set_covering: "lk \<in> set (covering key s) \<longleftrightarrow> composite key \<noteq> [] \<and> (composite key, lk) \<in> set (tags s)"
  by (auto simp: covering_def intro: rev_image_eqI)

lemma purge_no_faults:
  assumes "faults s = []"
  shows "purge key s = (Inr (covering key s @ (if key \<notin> set (covering key s) \<and> tblHas rKey key (nodes s) then [key] else [])),
    evicted (insert key (set (covering key s))) (insert key (set (covering key s))) [] s)"
proof -
  have lists: "faults u = [] \<Longrightarrow> fst (purgeLists lks u) = Inr () \<and> faults (snd (purgeLists lks u)) = []" for lks and u :: "'a github_db_scheme"
    by (induction lks arbitrary: u) (simp_all add: Let_def delNode_def delTag_def)
  have own: "faults u = [] \<Longrightarrow> (\<exists>ks. fst (purgeOwn key lks u) = Inr ks) \<and> faults (snd (purgeOwn key lks u)) = []" for lks and u :: "'a github_db_scheme"
    by (simp add: purgeOwn_def Let_def delNode_def delTag_def)
  have "(\<exists>ks. fst (purge key s) = Inr ks) \<and> faults (snd (purge key s)) = []"
    using assms lists [OF assms, of "covering key s"] own
    by (auto simp: purge_alt split: prod.splits sum.splits)
  with purge_outcome [of key s] show ?thesis by auto
qed

subsection \<open>Lemmas: LIKE\<close>

lemma sqlLike_percent: "sqlLike ''%'' s"
  by (auto intro: bexI [of _ "length s"])

lemma sqlLike_literal:
  "sqlLike (escapeLike p @ ps) s \<longleftrightarrow>
     length p \<le> length s \<and> map lowerByte (take (length p) s) = map lowerByte p \<and> sqlLike ps (drop (length p) s)"
proof (induction p arbitrary: s)
  case Nil
  then show ?case by (simp add: escapeLike_def)
next
  case (Cons c p)
  have "sqlLike (escapeLike (c # p) @ ps) s \<longleftrightarrow>
      s \<noteq> [] \<and> lowerByte (hd s) = lowerByte c \<and> sqlLike (escapeLike p @ ps) (tl s)"
    by (auto simp: escapeLike_def)
  with Cons.IH [of "tl s"] show ?case by (cases s) auto
qed

lemma like_prefix: "sqlLike (escapeLike p @ ''%'') s \<longleftrightarrow> hasPrefix (map lowerByte s) (map lowerByte p)"
  unfolding sqlLike_literal hasPrefix_def
  by (auto simp: sqlLike_percent take_map simp del: sqlLike.simps dest: arg_cong [of _ _ length])

subsection \<open>Properties\<close>

text \<open>A purge evicts exactly the object and the lists that cover it: every node that is
  neither the key nor tagged with its composite reads as before, whether or not a
  statement failed; nothing is added or rewritten; and when the purge succeeds the object
  and each covering list are gone and are what is reported as deleted.\<close>

theorem purge_exact:
  "let (r, t) = purge key s in
     (\<forall>k. k \<noteq> key \<and> (composite key, k) \<notin> set (tags s) \<longrightarrow> nodeAt t k = nodeAt s k)
     \<and> (\<forall>k. nodeAt t k = None \<or> nodeAt t k = nodeAt s k)
     \<and> deliveries t = deliveries s \<and> hooksTbl t = hooksTbl s \<and> cursors t = cursors s \<and> events t = events s
     \<and> (\<forall>ks. r = Inr ks \<longrightarrow> nodeAt t key = None \<and> (\<forall>lk \<in> set (covering key s). nodeAt t lk = None)
          \<and> set ks = set (covering key s) \<union> (if tblHas rKey key (nodes s) then {key} else {} :: string set))"
proof -
  obtain r D E fs where *: "purge key s = (r, evicted D E fs s)" "D \<subseteq> insert key (set (covering key s))"
    "\<forall>ks. r = Inr ks \<longrightarrow> D = insert key (set (covering key s))
       \<and> ks = covering key s @ (if key \<notin> set (covering key s) \<and> tblHas rKey key (nodes s) then [key] else [])"
    using purge_outcome [of key s] by blast
  have frame: "deliveries (evicted D E fs s) = deliveries s" "hooksTbl (evicted D E fs s) = hooksTbl s"
      "cursors (evicted D E fs s) = cursors s" "events (evicted D E fs s) = events s"
    by (simp_all add: evicted_def)
  have keep: "k \<notin> D" if "k \<noteq> key" "(composite key, k) \<notin> set (tags s)" for k
    using *(2) that set_covering [of k key s] by blast
  show ?thesis
    using keep *(3) by (auto simp: *(1) frame nodeAt_evicted)
qed

definition demoRow :: "string \<Rightarrow> nodeRow" where
  "demoRow k = nodeToRow \<lparr>nKey = k, nTypename = ''Issue'', nJSON = ''{}'', nETag = [], nContentHash = [],
     nPinned = False, nFetchedAt = 0, nUpdatedAt = 0\<rparr>"

definition demoGh :: "nodeRow list \<Rightarrow> (string \<times> string) list \<Rightarrow> github_db" where
  "demoGh ns ts = \<lparr>faults = [], ringCapacity = 10, tables = [], schemaVersions = [], events = [], lastId = 0, cursors = [],
     nodes = ns, tags = ts, hooksTbl = [], deliveries = []\<rparr>"

theorem purge_exact_witness:
  "let s = demoGh [demoRow ''issue:o/r#5''] [(''repo:o/r|issue'', ''list:openIssues:repo:o/r'')]
   in nodeAt (snd (purge ''issue:o/r#6'' s)) ''issue:o/r#5'' = nodeAt s ''issue:o/r#5''"
proof -
  let ?s = "demoGh [demoRow ''issue:o/r#5''] [(''repo:o/r|issue'', ''list:openIssues:repo:o/r'')]"
  have "(composite ''issue:o/r#6'', ''issue:o/r#5'') \<notin> set (tags ?s)"
    by (simp add: demoGh_def)
  with purge_exact [of "''issue:o/r#6''" ?s] show ?thesis
    unfolding Let_def by (auto split: prod.splits simp: demoGh_def)
qed

text \<open>A cached list lives until one of its members is purged: after a list result is stored
  under a composite, a purge of any object with that composite evicts it, and a purge of an
  object with another composite (a sibling repository or kind) leaves it cached.\<close>

theorem list_evicted_by_member:
  assumes "faults s = []" and "cov \<noteq> []" and "\<forall>c. (c, lk) \<in> set (tags s) \<longrightarrow> c = cov" and "lk \<noteq> key"
  shows "let s1 = snd (putList lk body cov t s) in
     map_option nJSON (projr (fst (getNode lk s1))) = Some body
     \<and> (composite key = cov \<longrightarrow> projr (fst (getNode lk (snd (purge key s1)))) = None)
     \<and> (composite key \<noteq> cov \<longrightarrow> projr (fst (getNode lk (snd (purge key s1)))) = projr (fst (getNode lk s1)))"
proof -
  define n where "n = \<lparr>nKey = lk, nTypename = ''_list'', nJSON = body, nETag = [], nContentHash = [], nPinned = False,
             nFetchedAt = t, nUpdatedAt = t\<rparr>"
  define s1 where "s1 = (putNode (nodeToRow n) s)\<lparr>tags := tblInsertIgnore id (cov, lk) (tags s)\<rparr>"
  have pl: "putList lk body cov t s = (Inr (), s1)"
    unfolding putList_def n_def [symmetric] upsert_no_faults [OF assms(1)] prod.case sum.case
    using assms(1,2) by (simp add: s1_def)
  have f: "faults s1 = []" using assms(1) by (simp add: s1_def)
  have at: "nodeAt s1 lk = Some (nodeToRow n)"
    using gh.lookup_put_same [of "nodeToRow n" s] by (simp add: s1_def nodeAt_def n_def)
  have tag: "(c, lk) \<in> set (tags s1) \<longleftrightarrow> c = cov" for c
    using assms(3) set_insertIgnore_id [of "(cov, lk)" "tags s"] by (simp add: s1_def) blast
  have fe: "faults (evicted D E [] s1) = []" for D E by simp
  have hit: "lk \<in> insert key (set (covering key s1)) \<longleftrightarrow> composite key = cov"
    using assms(2,4) by (auto simp: set_covering tag)
  show ?thesis
    unfolding pl snd_conv Let_def purge_no_faults [OF f] getNode_no_faults [OF f] getNode_no_faults [OF fe] nodeAt_evicted at hit
    by (simp add: rowNode_def nodeToRow_def n_def)
qed

theorem list_evicted_by_member_witness:
  "projr (fst (getNode ''list:openIssues:repo:o/r'' (snd (purge ''issue:o/r#5''
     (snd (putList ''list:openIssues:repo:o/r'' ''[]'' ''repo:o/r|issue'' 0
        (demoGh [] []))))))) = None"
proof -
  have "composite ''issue:o/r#5'' = ''repo:o/r|issue''" by code_simp
  then show ?thesis
    using list_evicted_by_member [of "demoGh [] []" "''repo:o/r|issue''"
      "''list:openIssues:repo:o/r''" "''issue:o/r#5''" "''[]''" 0]
    by (simp add: demoGh_def demoRow_def Let_def)
qed

text \<open>A scoped read returns the rows of the scope and no others: the wildcards of \<open>LIKE\<close> in an
  untrusted scope match only themselves, so the rows returned are exactly the object rows
  whose key begins with \<open>kind:scope#\<close> up to the case of ASCII letters.\<close>

theorem scoped_read_exact:
  assumes "faults s = []"
  shows "fst (nodesByKind k scope s) = Inr (map (\<lambda>r. (rKey r, rJSON r)) (filter (\<lambda>r. rTypename r \<noteq> ''_list''
      \<and> hasPrefix (map lowerByte (rKey r)) (map lowerByte (k @ '':'' @ scope @ ''#''))) (nodes s)))"
  using assms by (simp add: nodesByKind_def like_prefix del: append_Cons append_Nil)

theorem scoped_read_exact_witness:
  "fst (nodesByKind ''issue'' ''o/a_b'' (demoGh [demoRow ''issue:o/axb#5''] [])) = Inr []"
proof -
  have "\<not> hasPrefix (map lowerByte ''issue:o/axb#5'') (map lowerByte (''issue'' @ '':'' @ ''o/a_b'' @ ''#''))" by code_simp
  with scoped_read_exact [of "demoGh [demoRow ''issue:o/axb#5''] []" "''issue''" "''o/a_b''"]
  show ?thesis by (simp add: demoGh_def demoRow_def)
qed

text \<open>The text order of the times of \<open>github_deliveries\<close> is not their order: a nanosecond after the
  epoch sorts before the epoch.\<close>

lemma rfc_not_monotone: "(0 :: instant) < 1 \<and> rfc 1 < rfc 0"
proof -
  have "rfc 0 = ''1970-01-01T00:00:00Z''" "rfc 1 = ''1970-01-01T00:00:00.000000001Z''" by code_simp+
  then show ?thesis by (simp add: less_char_def)
qed

end
