(* ===== verification/GoHttp.thy ===== *)
theory GoHttp
  imports GoValue
begin

text \<open>
  The requests and responses of \<open>net/http\<close> that the plugins exchange with other machines. A
  transport is an argument of the definitions that use it.
\<close>

record request =
  reqMethod :: string
  reqURL :: string
  reqHeaders :: "(string \<times> string) list"
  reqBody :: string

record response =
  respStatus :: int
  respHeaders :: "(string \<times> string) list"
  respBody :: string

definition header :: "(string \<times> string) list \<Rightarrow> string \<Rightarrow> string" where
  "header h k = (case map_of h k of None \<Rightarrow> [] | Some v \<Rightarrow> v)"

end
