(* ===== verification/GithubClient.thy ===== *)
theory GithubClient
  imports GithubStore GoHttp
begin

text \<open>
  \<open>plugins/github/github.go\<close> and \<open>client.go\<close>: the resolved configuration, the plugin's state and
  its HTTP layer. GitHub is outside the repository: \<open>Do\<close> stands for \<open>http.Client.Do\<close> on a world
  \<open>'u\<close> that every request may change. The JSON codec, SHA-256 and HMAC are arguments too.
  A handler reads the clock once, the argument \<open>now\<close> of the definitions that use it.
\<close>

record pinConfig =
  pinCommits :: bool
  pinReleases :: bool
  mergedPRsAfterDays :: int
  closedIssuesAfterDays :: int

record ghConfig =
  token :: string
  baseURL :: string
  graphqlURL :: string
  ingress :: string
  webhookSecret :: string
  ghPath :: string
  selfURL :: string
  forwardRepo :: string
  forwardOrg :: string
  forwardEvents :: "string list"
  hookRepos :: "string list"
  reconcileInterval :: duration
  notifications :: bool
  pin :: pinConfig
  ttl :: "(string \<times> duration) list"

text \<open>\<open>New\<close>: \<open>env\<close> is \<open>GITHUB_TOKEN\<close>.\<close>

definition ghNewConfig :: "string \<Rightarrow> obj option \<Rightarrow> ghConfig" where
  "ghNewConfig env raw =
     \<lparr>token = cfgStr raw ''token'' env,
      baseURL = cfgStr raw ''baseURL'' ''https://api.github.com'',
      graphqlURL = cfgStr raw ''graphqlURL'' ''https://api.github.com/graphql'',
      ingress = cfgStr raw ''ingress'' ''forward'',
      webhookSecret = cfgStr raw ''webhookSecret'' [],
      ghPath = cfgStr raw ''ghPath'' ''gh'',
      selfURL = cfgStr raw ''tunnelURL'' (cfgStr raw ''selfURL'' ''http://127.0.0.1:7788''),
      forwardRepo = cfgStr raw ''forwardRepo'' [],
      forwardOrg = cfgStr raw ''forwardOrg'' [],
      forwardEvents = (case cfgStrs raw ''forwardEvents'' of
         Some ev \<Rightarrow> if ev \<noteq> [] then ev else defaultForwardEvents | None \<Rightarrow> defaultForwardEvents),
      hookRepos = (case cfgStrs raw ''hookRepos'' of Some rs \<Rightarrow> rs | None \<Rightarrow> []),
      reconcileInterval = (let n = cfgInt raw ''reconcileIntervalSeconds'' 0 in if n > 0 then durMul n second else hour),
      notifications = cfgBool raw ''notifications'' False,
      pin = (case subMap raw ''pin'' of
         None \<Rightarrow> \<lparr>pinCommits = True, pinReleases = True, mergedPRsAfterDays = 7, closedIssuesAfterDays = 30\<rparr>
       | Some p \<Rightarrow> \<lparr>pinCommits = cfgBool (Some p) ''commits'' True, pinReleases = cfgBool (Some p) ''releases'' True,
            mergedPRsAfterDays = cfgInt (Some p) ''mergedPRsAfterDays'' 7,
            closedIssuesAfterDays = cfgInt (Some p) ''closedIssuesAfterDays'' 30\<rparr>),
      ttl = (case subMap raw ''ttl'' of
         None \<Rightarrow> []
       | Some m \<Rightarrow> map (\<lambda>(k, v). (k, durMul (ToInt v) second)) (filter (\<lambda>(k, v). ToInt v > 0) m))\<rparr>"

subsection \<open>Named operations\<close>

record namedOp =
  opName :: string
  opScope :: string
  opKeys :: "string list"
  opQuery :: string

fun opHeader :: "string \<Rightarrow> namedOp \<Rightarrow> namedOp" where
  "opHeader line op =
     (let t = trimSpace line in
      if hasPrefix t ''# op:'' then op\<lparr>opName := trimSpace (trimPrefix t ''# op:'')\<rparr>
      else if hasPrefix t ''# scope:'' then op\<lparr>opScope := trimSpace (trimPrefix t ''# scope:'')\<rparr>
      else if hasPrefix t ''# keys:'' then op\<lparr>opKeys := opKeys op @ [trimSpace (trimPrefix t ''# keys:'')]\<rparr>
      else op)"

definition loadOp :: "string \<Rightarrow> namedOp" where
  "loadOp b = fold opHeader (splitOn (CHR 0x0A) b) \<lparr>opName = [], opScope = [], opKeys = [], opQuery = b\<rparr>"

text \<open>\<open>loadOps\<close> over the embedded files; a later file of the same name replaces an earlier.\<close>

definition loadOps :: "string list \<Rightarrow> (string \<times> namedOp) list" where
  "loadOps files = fold (\<lambda>b ops. let op = loadOp b in
     if opName op = [] then ops else tblUpsert fst (opName op, op) ops) files []"

subsection \<open>HTTP\<close>

text \<open>The fixed surroundings of the plugin.\<close>

record 'u ghEnv =
  cfg :: ghConfig
  ops :: "(string \<times> namedOp) list"
  Do :: "request \<Rightarrow> 'u \<Rightarrow> response option \<times> 'u"
  marshal :: "any \<Rightarrow> string"
  marshalRaw :: "string list \<Rightarrow> string"
  unmarshal :: "string \<Rightarrow> any option"
  sha256hex :: "string \<Rightarrow> string"
  hmacHex :: "string \<Rightarrow> string \<Rightarrow> string"

text \<open>What the plugin changes: its database, the network, the pauses it took, and the events it
  emitted once \<open>Start\<close> captured the emit function.\<close>

record 'u ghState =
  db :: github_db
  net :: 'u
  slept :: "duration list"
  emitOn :: bool
  emitted :: "envelope list"

definition authorize :: "ghConfig \<Rightarrow> request \<Rightarrow> request" where
  "authorize c r = (if token c \<noteq> [] then r\<lparr>reqHeaders := (''Authorization'', ''token '' @ token c) # reqHeaders r\<rparr> else r)"

definition httpGET ::
  "'u ghEnv \<Rightarrow> string \<Rightarrow> string \<Rightarrow> 'u ghState \<Rightarrow> (int \<times> string \<times> string) option \<times> 'u ghState" where
  "httpGET E path etag p =
     (let req = authorize (cfg E) \<lparr>reqMethod = ''GET'', reqURL = baseURL (cfg E) @ path, reqHeaders = [], reqBody = []\<rparr>;
          req' = (if etag \<noteq> [] then req\<lparr>reqHeaders := (''If-None-Match'', etag) # reqHeaders req\<rparr> else req);
          (resp, u) = Do E req' (net p)
      in (map_option (\<lambda>r. (respStatus r, respBody r, header (respHeaders r) ''ETag'')) resp, p\<lparr>net := u\<rparr>))"

definition httpPOST ::
  "'u ghEnv \<Rightarrow> string \<Rightarrow> any \<Rightarrow> 'u ghState \<Rightarrow> (int \<times> string) option \<times> 'u ghState" where
  "httpPOST E path body p =
     (let req = authorize (cfg E) \<lparr>reqMethod = ''POST'', reqURL = baseURL (cfg E) @ path, reqHeaders = [], reqBody = marshal E body\<rparr>;
          (resp, u) = Do E (req\<lparr>reqHeaders := (''Content-Type'', ''application/json'') # reqHeaders req\<rparr>) (net p)
      in (map_option (\<lambda>r. (respStatus r, respBody r)) resp, p\<lparr>net := u\<rparr>))"

definition floorThresholdGQL :: int where
  "floorThresholdGQL = 10"

definition floorPause :: "instant \<Rightarrow> int \<Rightarrow> instant \<Rightarrow> int \<Rightarrow> 'u ghState \<Rightarrow> 'u ghState" where
  "floorPause now remaining reset limit p =
     (if remaining > limit then p
      else let d = timeSub reset now in
      if d \<le> 0 then p else p\<lparr>slept := slept p @ [d]\<rparr>)"

definition logGraphQLRate :: "instant \<Rightarrow> obj \<Rightarrow> 'u ghState \<Rightarrow> 'u ghState" where
  "logGraphQLRate now data p =
     (case asObj (at data ''rateLimit'') of
        None \<Rightarrow> p
      | Some rl \<Rightarrow>
          floorPause now (ToInt (at rl ''remaining'')) (parseRfc (sprint (at rl ''resetAt''))) floorThresholdGQL p)"

text \<open>A decoded \<open>map[string]any\<close>: the nil map is \<open>ANil\<close> and reads as the empty object. The result
  \<open>None\<close> of a call is a transport error.\<close>

definition decodeMap :: "'u ghEnv \<Rightarrow> string \<Rightarrow> any" where
  "decodeMap E raw = (case unmarshal E raw of Some (AObj m) \<Rightarrow> AObj m | _ \<Rightarrow> ANil)"

definition decodeData :: "'u ghEnv \<Rightarrow> string \<Rightarrow> any" where
  "decodeData E raw =
     (case asObj (at (fieldsOf (decodeMap E raw)) ''data'') of Some d \<Rightarrow> AObj d | None \<Rightarrow> ANil)"

definition graphqlAt ::
  "'u ghEnv \<Rightarrow> instant \<Rightarrow> string \<Rightarrow> string \<Rightarrow> obj \<Rightarrow> 'u ghState \<Rightarrow> any option \<times> 'u ghState" where
  "graphqlAt E now url query vars p =
     (let body = marshal E (AObj [(''query'', AStr query), (''variables'', AObj vars)]);
          req = authorize (cfg E) \<lparr>reqMethod = ''POST'', reqURL = url, reqHeaders = [], reqBody = body\<rparr>;
          (resp, u) = Do E (req\<lparr>reqHeaders := (''Content-Type'', ''application/json'') # reqHeaders req\<rparr>) (net p);
          p1 = p\<lparr>net := u\<rparr> in
      case resp of
        None \<Rightarrow> (None, p1)
      | Some r \<Rightarrow> let data = decodeData E (respBody r) in (Some data, logGraphQLRate now (fieldsOf data) p1))"

definition httpGraphQL :: "'u ghEnv \<Rightarrow> instant \<Rightarrow> string \<Rightarrow> obj \<Rightarrow> 'u ghState \<Rightarrow> any option \<times> 'u ghState" where
  "httpGraphQL E now query vars p = graphqlAt E now (graphqlURL (cfg E)) query vars p"

text \<open>\<open>doEmit\<close> drops the event before \<open>Start\<close>; the error of the emit itself is ignored.\<close>

definition doEmit :: "envelope \<Rightarrow> 'u ghState \<Rightarrow> 'u ghState" where
  "doEmit e p = (if emitOn p then p\<lparr>emitted := emitted p @ [e]\<rparr> else p)"

text \<open>\<open>Start\<close> up to its loops: dormant without a token.\<close>

definition ghStart :: "'u ghEnv \<Rightarrow> 'u ghState \<Rightarrow> bool \<times> 'u ghState" where
  "ghStart E p = (if token (cfg E) = [] then (False, p) else (True, p\<lparr>emitOn := True\<rparr>))"

definition ghCursor :: "'u ghEnv \<Rightarrow> 'u ghState \<Rightarrow> string" where
  "ghCursor E p = (if token (cfg E) = [] then ''dormant: no [plugins.github] config''
     else fst (cursor ''reconcile:cursor'' (db p)))"

text \<open>Running a statement of the store inside the plugin.\<close>

definition onDb :: "(github_db \<Rightarrow> 'r \<times> github_db) \<Rightarrow> 'u ghState \<Rightarrow> 'r \<times> 'u ghState" where
  "onDb f p = (let (r, d) = f (db p) in (r, p\<lparr>db := d\<rparr>))"

lemma onDb_fields [simp]:
  "net (snd (onDb f p)) = net p" "emitted (snd (onDb f p)) = emitted p" "emitOn (snd (onDb f p)) = emitOn p"
  "slept (snd (onDb f p)) = slept p" "db (snd (onDb f p)) = snd (f (db p))" "fst (onDb f p) = fst (f (db p))"
  by (simp_all add: onDb_def split: prod.splits)

lemma onDb_pair: "onDb f p = (fst (f (db p)), p\<lparr>db := snd (f (db p))\<rparr>)"
  by (simp add: onDb_def split: prod.splits)

lemma doEmit_fields [simp]:
  "net (doEmit e p) = net p" "db (doEmit e p) = db p" "emitOn (doEmit e p) = emitOn p" "slept (doEmit e p) = slept p"
  by (simp_all add: doEmit_def)

lemma logGraphQLRate_fields [simp]:
  "net (logGraphQLRate now d p) = net p" "db (logGraphQLRate now d p) = db p"
  "emitted (logGraphQLRate now d p) = emitted p" "emitOn (logGraphQLRate now d p) = emitOn p"
  by (auto simp: logGraphQLRate_def floorPause_def Let_def split: option.splits)

lemma httpGET_fields [simp]:
  "db (snd (httpGET E path etag p)) = db p" "emitted (snd (httpGET E path etag p)) = emitted p"
  "emitOn (snd (httpGET E path etag p)) = emitOn p"
  by (simp_all add: httpGET_def Let_def split: prod.splits)

lemma graphqlAt_fields [simp]:
  "db (snd (graphqlAt E now url q vars p)) = db p" "emitted (snd (graphqlAt E now url q vars p)) = emitted p"
  "emitOn (snd (graphqlAt E now url q vars p)) = emitOn p"
  by (simp_all add: graphqlAt_def Let_def split: prod.splits option.splits)

lemma httpPOST_fields [simp]:
  "db (snd (httpPOST E path b p)) = db p" "emitted (snd (httpPOST E path b p)) = emitted p"
  "emitOn (snd (httpPOST E path b p)) = emitOn p"
  by (simp_all add: httpPOST_def Let_def split: prod.splits)

end
