(* ===== verification/GithubProxy.thy ===== *)
theory GithubProxy
  imports GithubClient
begin

text \<open>
  \<open>plugins/github/proxy.go\<close>: the read-through core of the cache. A hit is served from the store;
  a miss or an expired node is fetched conditionally, stored in its canonical shape and
  announced only when its content changed. Concurrent misses on one key share a flight: the
  step relation \<open>flightReach\<close> interleaves any number of callers.
\<close>

datatype fetchOutcome = outcomeOther | outcomeNotModified | outcomeUnchanged | outcomeChanged

definition expired :: "'u ghEnv \<Rightarrow> instant \<Rightarrow> node \<Rightarrow> bool" where
  "expired E now n =
     (case map_of (ttl (cfg E)) (kindOf (nKey n)) of
        None \<Rightarrow> False
      | Some d \<Rightarrow> d > 0 \<and> timeSub now (nFetchedAt n) > d)"

definition contentHash :: "'u ghEnv \<Rightarrow> string \<Rightarrow> string" where
  "contentHash E b = sha256hex E b"

definition graphqlPointOps :: "(string \<times> string \<times> string) list" where
  "graphqlPointOps = [(''issue'', ''issue'', ''issue''), (''pr'', ''pr'', ''pullRequest'')]"

definition isGraphQLShape :: "string \<Rightarrow> bool" where
  "isGraphQLShape raw = containsStr raw (CHR 0x22 # ''updatedAt'' @ [CHR 0x22])"

definition canonicalBody :: "'u ghEnv \<Rightarrow> instant \<Rightarrow> string \<Rightarrow> 'u ghState \<Rightarrow> string option \<times> 'u ghState" where
  "canonicalBody E now key p =
     (case map_of graphqlPointOps (kindOf key) of
        None \<Rightarrow> (None, p)
      | Some (opn, fld) \<Rightarrow>
          (case map_of (ops E) opn of
             None \<Rightarrow> (None, p)
           | Some op \<Rightarrow>
               (let parts = parseKey key in
                case atoi (part parts ''disc'') of
                  AtoiOk number \<Rightarrow>
                    (let vars = [(''owner'', AStr (part parts ''owner'')), (''repo'', AStr (part parts ''repo'')),
                                 (''number'', AInt number)];
                         (res, p1) = graphqlAt E now (graphqlURL (cfg E)) (opQuery op) vars p in
                     case res of
                       None \<Rightarrow> (None, p1)
                     | Some data \<Rightarrow>
                         (case asObj (at (fieldsOf data) ''repository'') of
                            None \<Rightarrow> (None, p1)
                          | Some repo \<Rightarrow>
                              (case asObj (at repo fld) of
                                 None \<Rightarrow> (None, p1)
                               | Some ob \<Rightarrow> (Some (marshal E (AObj ob)), p1))))
                | _ \<Rightarrow> (None, p))))"

subsection \<open>Pinning\<close>

definition days :: "int \<Rightarrow> duration" where
  "days n = durMul (durMul n 24) hour"

definition timeField :: "obj \<Rightarrow> string \<Rightarrow> instant option" where
  "timeField body f =
     (case asStr (at body f) of
        None \<Rightarrow> None
      | Some s \<Rightarrow> if s = [] then None else parseRFC3339 s)"

fun firstTime :: "obj \<Rightarrow> string list \<Rightarrow> instant option" where
  "firstTime body [] = None"
| "firstTime body (f # fs) = (case timeField body f of Some t \<Rightarrow> Some t | None \<Rightarrow> firstTime body fs)"

definition isClosed :: "obj \<Rightarrow> bool" where
  "isClosed body = equalFold (case asStr (at body ''state'') of None \<Rightarrow> [] | Some s \<Rightarrow> s) ''closed''"

definition evalPin :: "'u ghEnv \<Rightarrow> instant \<Rightarrow> string \<Rightarrow> obj \<Rightarrow> bool" where
  "evalPin E now key body =
     (let k = kindOf key; pc = pin (cfg E);
          closedPast = (\<lambda>n. isClosed body \<and>
            (case firstTime body [''closedAt'', ''closed_at''] of None \<Rightarrow> False | Some t \<Rightarrow> timeSub now t > days n)) in
      if k = ''commit'' then pinCommits pc
      else if k = ''release'' then pinReleases pc
      else if k = ''pr'' then
        (case firstTime body [''mergedAt'', ''merged_at''] of
           Some t \<Rightarrow> timeSub now t > days (mergedPRsAfterDays pc)
         | None \<Rightarrow> closedPast (mergedPRsAfterDays pc))
      else if k = ''issue'' then closedPast (closedIssuesAfterDays pc)
      else False)"

subsection \<open>Fetching\<close>

definition updatedEvent :: "'u ghEnv \<Rightarrow> node \<Rightarrow> envelope" where
  "updatedEvent E n = \<lparr>TS = nUpdatedAt n, Source = ''github'', EType = ''github.node.updated'', V = 1, Key = nKey n,
     Payload = marshal E (AObj [(''key'', AStr (nKey n)), (''etag'', AStr (nETag n)), (''typename'', AStr (nTypename n))])\<rparr>"

definition emitUpdated :: "'u ghEnv \<Rightarrow> node \<Rightarrow> 'u ghState \<Rightarrow> 'u ghState" where
  "emitUpdated E n p = doEmit (updatedEvent E n) p"

definition bodyMap :: "'u ghEnv \<Rightarrow> string \<Rightarrow> obj" where
  "bodyMap E raw = fieldsOf (decodeMap E raw)"

text \<open>Storing a fetched body: the end of \<open>fetchNode\<close>.\<close>

definition landNode ::
  "'u ghEnv \<Rightarrow> instant \<Rightarrow> string \<Rightarrow> node option \<Rightarrow> string \<Rightarrow> string \<Rightarrow> 'u ghState
     \<Rightarrow> (node option \<times> fetchOutcome) res \<times> 'u ghState" where
  "landNode E now key stored canonical etag p =
     (let hash = contentHash E canonical;
          n = \<lparr>nKey = key, nTypename = typenameFor key, nJSON = canonical, nETag = etag, nContentHash = hash,
               nPinned = evalPin E now key (bodyMap E canonical), nFetchedAt = now, nUpdatedAt = now\<rparr> in
      case onDb (upsert n) p of
        (Inl e, p1) \<Rightarrow> (Inl e, p1)
      | (Inr _, p1) \<Rightarrow>
          if stored = None \<or> map_option nContentHash stored \<noteq> Some hash
          then (Inr (Some n, outcomeChanged), emitUpdated E n p1)
          else (Inr (Some n, outcomeUnchanged), p1))"

definition fetchNode ::
  "'u ghEnv \<Rightarrow> instant \<Rightarrow> string \<Rightarrow> node option \<Rightarrow> 'u ghState
     \<Rightarrow> (node option \<times> fetchOutcome) res \<times> 'u ghState" where
  "fetchNode E now key stored p0 =
     (let etag = (case stored of None \<Rightarrow> [] | Some n \<Rightarrow> nETag n);
          (res, p1) = httpGET E (restPath key) etag p0 in
      case res of
        None \<Rightarrow> (Inr (stored, outcomeOther), p1)
      | Some (status, body, respETag) \<Rightarrow>
          if status = 304 \<and> stored \<noteq> None then
            (let (_, p2) = onDb (bumpFetched key now) p1 in (Inr (stored, outcomeNotModified), p2))
          else if status \<noteq> 200 then (Inr (stored, outcomeOther), p1)
          else (case canonicalBody E now key p1 of
                  (Some cb, p2) \<Rightarrow> landNode E now key stored cb respETag p2
                | (None, p2) \<Rightarrow>
                    if (case stored of None \<Rightarrow> False | Some n \<Rightarrow> isGraphQLShape (nJSON n))
                       \<and> map_of graphqlPointOps (kindOf key) \<noteq> None
                    then (Inr (stored, outcomeOther), p2)
                    else landNode E now key stored body respETag p2))"

definition fetch ::
  "'u ghEnv \<Rightarrow> instant \<Rightarrow> string \<Rightarrow> node option \<Rightarrow> 'u ghState \<Rightarrow> node option res \<times> 'u ghState" where
  "fetch E now key stored p =
     (case fetchNode E now key stored p of (Inl e, p1) \<Rightarrow> (Inl e, p1) | (Inr (n, _), p1) \<Rightarrow> (Inr n, p1))"

text \<open>\<open>resolve\<close> for a caller that finds no flight on its key.\<close>

definition resolve ::
  "'u ghEnv \<Rightarrow> instant \<Rightarrow> string \<Rightarrow> 'u ghState \<Rightarrow> node option res \<times> 'u ghState" where
  "resolve E now key p =
     (case onDb (getNode key) p of
        (Inl e, p1) \<Rightarrow> (Inl e, p1)
      | (Inr n, p1) \<Rightarrow>
          (case n of
             Some nd \<Rightarrow> if nPinned nd \<or> \<not> expired E now nd then (Inr (Some nd), p1) else fetch E now key n p1
           | None \<Rightarrow> fetch E now key None p1))"

subsection \<open>Singleflight\<close>

text \<open>A caller is at one of the points of \<open>singleflight\<close>: about to enter, waiting on a flight,
  running its own fetch, done fetching (the flight still in the map), out of the map with the
  waiters not yet released, or returned.\<close>

datatype 'r caller = Entering string | Waiting string nat | Fetching string nat | Landing string nat 'r | Unmapped nat 'r | Returned 'r

text \<open>\<open>inflight\<close> is the map of flights, \<open>results\<close> what a finished flight holds once its wait group
  is done.\<close>

record 'r flights =
  inflight :: "(string \<times> nat) list"
  results :: "(nat \<times> 'r) list"
  callers :: "'r caller list"
  nextFlight :: nat

definition enter :: "nat \<Rightarrow> 'r flights \<Rightarrow> 'r flights option" where
  "enter i f =
     (case callers f ! i of
        Entering key \<Rightarrow>
          (case tblGet fst key (inflight f) of
             Some (_, fl) \<Rightarrow> Some (f\<lparr>callers := (callers f)[i := Waiting key fl]\<rparr>)
           | None \<Rightarrow> Some (f\<lparr>inflight := inflight f @ [(key, nextFlight f)],
                             callers := (callers f)[i := Fetching key (nextFlight f)],
                             nextFlight := Suc (nextFlight f)\<rparr>))
      | _ \<Rightarrow> None)"

definition finishFetch :: "nat \<Rightarrow> 'r \<Rightarrow> 'r flights \<Rightarrow> 'r flights option" where
  "finishFetch i r f =
     (case callers f ! i of
        Fetching key fl \<Rightarrow> Some (f\<lparr>callers := (callers f)[i := Landing key fl r]\<rparr>)
      | _ \<Rightarrow> None)"

definition unmap :: "nat \<Rightarrow> 'r flights \<Rightarrow> 'r flights option" where
  "unmap i f =
     (case callers f ! i of
        Landing key fl r \<Rightarrow> Some (f\<lparr>inflight := tblDelete (\<lambda>x. fst x = key) (inflight f),
                               callers := (callers f)[i := Unmapped fl r]\<rparr>)
      | _ \<Rightarrow> None)"

definition release :: "nat \<Rightarrow> 'r flights \<Rightarrow> 'r flights option" where
  "release i f =
     (case callers f ! i of
        Unmapped fl r \<Rightarrow> Some (f\<lparr>results := results f @ [(fl, r)], callers := (callers f)[i := Returned r]\<rparr>)
      | _ \<Rightarrow> None)"

definition wake :: "nat \<Rightarrow> 'r flights \<Rightarrow> 'r flights option" where
  "wake i f =
     (case callers f ! i of
        Waiting key fl \<Rightarrow>
          map_option (\<lambda>(_, r). f\<lparr>callers := (callers f)[i := Returned r]\<rparr>) (tblGet fst fl (results f))
      | _ \<Rightarrow> None)"

inductive flightStep :: "'r flights \<Rightarrow> 'r flights \<Rightarrow> bool" where
  arrive: "flightStep f (f\<lparr>callers := callers f @ [Entering key]\<rparr>)"
| enters: "i < length (callers f) \<Longrightarrow> enter i f = Some f' \<Longrightarrow> flightStep f f'"
| fetches: "i < length (callers f) \<Longrightarrow> finishFetch i r f = Some f' \<Longrightarrow> flightStep f f'"
| unmaps: "i < length (callers f) \<Longrightarrow> unmap i f = Some f' \<Longrightarrow> flightStep f f'"
| releases: "i < length (callers f) \<Longrightarrow> release i f = Some f' \<Longrightarrow> flightStep f f'"
| wakes: "i < length (callers f) \<Longrightarrow> wake i f = Some f' \<Longrightarrow> flightStep f f'"

definition noFlights :: "'r flights" where
  "noFlights = \<lparr>inflight = [], results = [], callers = [], nextFlight = 0\<rparr>"

inductive flightReach :: "'r flights \<Rightarrow> bool" where
  start: "flightReach noFlights"
| step: "flightReach f \<Longrightarrow> flightStep f f' \<Longrightarrow> flightReach f'"

subsection \<open>Lemmas: singleflight\<close>

text \<open>The flight a caller runs, and the flight it runs while it is in the map.\<close>

fun owns :: "'r caller \<Rightarrow> nat option" where
  "owns (Fetching key fl) = Some fl" | "owns (Landing key fl r) = Some fl" | "owns (Unmapped fl r) = Some fl"
| "owns (Entering key) = None" | "owns (Waiting key fl) = None" | "owns (Returned r) = None"

fun mapped :: "'r caller \<Rightarrow> (string \<times> nat) option" where
  "mapped (Fetching key fl) = Some (key, fl)" | "mapped (Landing key fl r) = Some (key, fl)"
| "mapped (Unmapped fl r) = None" | "mapped (Entering key) = None" | "mapped (Waiting key fl) = None" | "mapped (Returned r) = None"

lemma mapped_owns: "mapped c = Some (key, fl) \<Longrightarrow> owns c = Some fl"
  by (cases c) auto

text \<open>No flight is run by two callers; the map holds exactly the flights that are run and not yet
  unmapped; and a waiter's flight is still run by somebody or its result is there.\<close>

definition flightInv :: "'r flights \<Rightarrow> bool" where
  "flightInv f \<longleftrightarrow>
     (\<forall>i < length (callers f). \<forall>j < length (callers f). \<forall>fl.
        owns (callers f ! i) = Some fl \<and> owns (callers f ! j) = Some fl \<longrightarrow> i = j)
   \<and> (\<forall>i < length (callers f). \<forall>fl. owns (callers f ! i) = Some fl \<longrightarrow> fl < nextFlight f)
   \<and> (\<forall>i < length (callers f). \<forall>key fl. mapped (callers f ! i) = Some (key, fl) \<longrightarrow> tblGet fst key (inflight f) = Some (key, fl))
   \<and> (\<forall>key fl. tblGet fst key (inflight f) = Some (key, fl) \<longrightarrow> (\<exists>i < length (callers f). mapped (callers f ! i) = Some (key, fl)))
   \<and> (\<forall>i < length (callers f). \<forall>key fl. callers f ! i = Waiting key fl \<longrightarrow>
        (\<exists>j < length (callers f). owns (callers f ! j) = Some fl) \<or> tblHas fst fl (results f))"

lemma flightInvD:
  assumes "flightInv f"
  shows "i < length (callers f) \<Longrightarrow> j < length (callers f) \<Longrightarrow> owns (callers f ! i) = Some fl \<Longrightarrow> owns (callers f ! j) = Some fl \<Longrightarrow> i = j"
    and "i < length (callers f) \<Longrightarrow> owns (callers f ! i) = Some fl \<Longrightarrow> fl < nextFlight f"
    and "i < length (callers f) \<Longrightarrow> mapped (callers f ! i) = Some (key, fl) \<Longrightarrow> tblGet fst key (inflight f) = Some (key, fl)"
    and "tblGet fst key (inflight f) = Some (key, fl) \<Longrightarrow> \<exists>i < length (callers f). mapped (callers f ! i) = Some (key, fl)"
    and "i < length (callers f) \<Longrightarrow> callers f ! i = Waiting key fl \<Longrightarrow>
        (\<exists>j < length (callers f). owns (callers f ! j) = Some fl) \<or> tblHas fst fl (results f)"
  using assms unfolding flightInv_def by blast+

lemma flightInvI:
  assumes "\<And>i j fl. i < length (callers f) \<Longrightarrow> j < length (callers f) \<Longrightarrow> owns (callers f ! i) = Some fl \<Longrightarrow>
        owns (callers f ! j) = Some fl \<Longrightarrow> i = j"
    and "\<And>i fl. i < length (callers f) \<Longrightarrow> owns (callers f ! i) = Some fl \<Longrightarrow> fl < nextFlight f"
    and "\<And>i key fl. i < length (callers f) \<Longrightarrow> mapped (callers f ! i) = Some (key, fl) \<Longrightarrow> tblGet fst key (inflight f) = Some (key, fl)"
    and "\<And>key fl. tblGet fst key (inflight f) = Some (key, fl) \<Longrightarrow> \<exists>i < length (callers f). mapped (callers f ! i) = Some (key, fl)"
    and "\<And>i key fl. i < length (callers f) \<Longrightarrow> callers f ! i = Waiting key fl \<Longrightarrow>
        (\<exists>j < length (callers f). owns (callers f ! j) = Some fl) \<or> tblHas fst fl (results f)"
  shows "flightInv f"
  using assms unfolding flightInv_def by blast

text \<open>A step moves one caller \<open>i\<close> to \<open>c\<close>. The invariant survives when \<open>c\<close> runs a flight nobody else runs, the map changes by
  what \<open>c\<close> and the old state of \<open>i\<close> put there, and a flight that \<open>i\<close> stops running leaves its result.\<close>

lemma flightInv_move:
  assumes inv: "flightInv f" and i: "i < length (callers f)" and cs: "callers f' = (callers f)[i := c]"
    and nxt: "nextFlight f \<le> nextFlight f'"
    and own: "\<And>fl. owns c = Some fl \<Longrightarrow> fl < nextFlight f' \<and> (\<forall>j < length (callers f). j \<noteq> i \<longrightarrow> owns (callers f ! j) \<noteq> Some fl)"
    and mapc: "\<And>k fl. mapped c = Some (k, fl) \<Longrightarrow> tblGet fst k (inflight f') = Some (k, fl)"
    and keep: "\<And>j k fl. j < length (callers f) \<Longrightarrow> j \<noteq> i \<Longrightarrow> mapped (callers f ! j) = Some (k, fl) \<Longrightarrow>
        tblGet fst k (inflight f') = Some (k, fl)"
    and get: "\<And>k fl. tblGet fst k (inflight f') = Some (k, fl) \<Longrightarrow>
        mapped c = Some (k, fl) \<or> tblGet fst k (inflight f) = Some (k, fl) \<and> mapped (callers f ! i) \<noteq> Some (k, fl)"
    and wait: "\<And>k fl. c = Waiting k fl \<Longrightarrow> (\<exists>j < length (callers f). j \<noteq> i \<and> owns (callers f ! j) = Some fl) \<or> tblHas fst fl (results f')"
    and res: "\<And>fl. tblHas fst fl (results f) \<Longrightarrow> tblHas fst fl (results f')"
    and ends: "\<And>fl. owns (callers f ! i) = Some fl \<Longrightarrow> owns c = Some fl \<or> tblHas fst fl (results f')"
  shows "flightInv f'"
proof (rule flightInvI, unfold cs length_list_update)
  let ?cs = "(callers f)[i := c]"
  have at: "?cs ! j = (if j = i then c else callers f ! j)" for j using i by (simp add: nth_list_update)
  have live: "(\<exists>j < length (callers f). owns (?cs ! j) = Some fl) \<or> tblHas fst fl (results f')"
    if "j < length (callers f)" "owns (callers f ! j) = Some fl" for j fl
    using that i ends [of fl] by (cases "j = i") (auto simp: at)
  show "a = b" if "a < length (callers f)" "b < length (callers f)" "owns (?cs ! a) = Some fl" "owns (?cs ! b) = Some fl" for a b fl
    using that own [of fl] flightInvD(1) [OF inv that(1,2), of fl] by (auto simp: at split: if_splits)
  show "fl < nextFlight f'" if "a < length (callers f)" "owns (?cs ! a) = Some fl" for a fl
    using that own [of fl] flightInvD(2) [OF inv that(1), of fl] nxt by (auto simp: at split: if_splits)
  show "tblGet fst k (inflight f') = Some (k, fl)" if "a < length (callers f)" "mapped (?cs ! a) = Some (k, fl)" for a k fl
    using that mapc keep by (auto simp: at split: if_splits)
  show "\<exists>a < length (callers f). mapped (?cs ! a) = Some (k, fl)" if "tblGet fst k (inflight f') = Some (k, fl)" for k fl
    using get [OF that] i flightInvD(4) [OF inv, of k fl] by (metis at)
  show "(\<exists>j < length (callers f). owns (?cs ! j) = Some fl) \<or> tblHas fst fl (results f')"
    if "a < length (callers f)" "?cs ! a = Waiting k fl" for a k fl
  proof -
    have "(\<exists>j < length (callers f). owns (callers f ! j) = Some fl) \<or> tblHas fst fl (results f')"
      using that wait [of k fl] res flightInvD(5) [OF inv that(1), of k fl] by (cases "a = i") (auto simp: at)
    with live show ?thesis by blast
  qed
qed

text \<open>A step that changes caller \<open>i\<close> to \<open>c\<close> without changing the flight it runs or its place in the map.\<close>

lemma flightInv_quiet:
  assumes "flightInv f" "i < length (callers f)" "owns c = owns (callers f ! i)" "mapped c = mapped (callers f ! i)"
    "\<And>key fl. c = Waiting key fl \<Longrightarrow> (\<exists>j < length (callers f). owns (callers f ! j) = Some fl) \<or> tblHas fst fl (results f)"
  shows "flightInv (f\<lparr>callers := (callers f)[i := c]\<rparr>)"
proof (rule flightInv_move [OF assms(1,2), of _ c])
  fix k fl
  assume w: "c = Waiting k fl"
  then have "owns (callers f ! i) = None" using assms(3) by simp
  then show "(\<exists>j < length (callers f). j \<noteq> i \<and> owns (callers f ! j) = Some fl) \<or> tblHas fst fl (results (f\<lparr>callers := (callers f)[i := c]\<rparr>))"
    using assms(5) [OF w] by fastforce
qed (use assms flightInvD [OF assms(1)] in \<open>auto dest: mapped_owns\<close>)

lemma flightInv_arrive: "flightInv f \<Longrightarrow> flightInv (f\<lparr>callers := callers f @ [Entering key]\<rparr>)"
  unfolding flightInv_def by (auto simp: nth_append less_Suc_eq) (metis less_SucI nth_append)+

lemma flightInv_enter:
  assumes "flightInv f" "i < length (callers f)" "enter i f = Some f'"
  shows "flightInv f'"
proof -
  obtain key where key: "callers f ! i = Entering key" using assms(3) by (auto simp: enter_def split: caller.splits)
  show ?thesis
  proof (cases "tblGet fst key (inflight f)")
    case (Some x)
    then obtain fl where fl: "tblGet fst key (inflight f) = Some (key, fl)" by (auto dest: tblGet_fst)
    then have "f' = f\<lparr>callers := (callers f)[i := Waiting key fl]\<rparr>" using assms(3) key by (simp add: enter_def)
    moreover have "\<exists>j < length (callers f). owns (callers f ! j) = Some fl"
      using flightInvD(4) [OF assms(1) fl] mapped_owns by blast
    ultimately show ?thesis using assms(1,2) key by (auto intro: flightInv_quiet)
  next
    case None
    let ?n = "nextFlight f"
    have f': "f' = f\<lparr>inflight := inflight f @ [(key, ?n)], callers := (callers f)[i := Fetching key ?n], nextFlight := Suc ?n\<rparr>"
      using assms(3) key None by (simp add: enter_def)
    have get: "tblGet fst k (inflight f') = (if k = key then Some (key, ?n) else tblGet fst k (inflight f))" for k
      using None by (auto simp: f' tblGet_append split: option.splits)
    have fresh: "j < length (callers f) \<Longrightarrow> owns (callers f ! j) \<noteq> Some ?n" for j
      using flightInvD(2) [OF assms(1), of j ?n] by auto
    have free: "j < length (callers f) \<Longrightarrow> mapped (callers f ! j) \<noteq> Some (key, fl)" for j fl
      using flightInvD(3) [OF assms(1), of j key fl] None by auto
    have F: "callers f' = (callers f)[i := Fetching key ?n]" "results f' = results f" "nextFlight f' = Suc ?n" by (simp_all add: f')
    show ?thesis
    proof (rule flightInv_move [OF assms(1,2), of f' "Fetching key ?n"])
      show "tblGet fst k (inflight f') = Some (k, fl)" if "j < length (callers f)" "mapped (callers f ! j) = Some (k, fl)" for j k fl
        using that flightInvD(3) [OF assms(1) that] free by (auto simp: get)
    qed (use fresh key in \<open>auto simp: get F split: if_splits\<close>)
  qed
qed

lemma flightInv_finish:
  assumes "flightInv f" "i < length (callers f)" "finishFetch i r f = Some f'"
  shows "flightInv f'"
  using assms by (auto simp: finishFetch_def split: caller.splits intro!: flightInv_quiet)

lemma flightInv_wake:
  assumes "flightInv f" "i < length (callers f)" "wake i f = Some f'"
  shows "flightInv f'"
  using assms by (auto simp: wake_def split: caller.splits intro!: flightInv_quiet)

lemma flightInv_unmap:
  assumes "flightInv f" "i < length (callers f)" "unmap i f = Some f'"
  shows "flightInv f'"
proof -
  obtain key fl r where c: "callers f ! i = Landing key fl r" using assms(3) by (auto simp: unmap_def split: caller.splits)
  have f': "f' = f\<lparr>inflight := tblDelete (\<lambda>x. fst x = key) (inflight f), callers := (callers f)[i := Unmapped fl r]\<rparr>"
    using assms(3) c by (simp add: unmap_def)
  have here: "tblGet fst key (inflight f) = Some (key, fl)"
    using flightInvD(3) [OF assms(1,2), of key fl] c by simp
  have only: "a = i" if "a < length (callers f)" "mapped (callers f ! a) = Some (key, x)" for a x
  proof -
    have "x = fl" using flightInvD(3) [OF assms(1) that] here by simp
    then show ?thesis using flightInvD(1) [OF assms(1) that(1) assms(2), of fl] that(2) c mapped_owns by auto
  qed
  show ?thesis
  proof (rule flightInv_move [OF assms(1,2), of f' "Unmapped fl r"])
    show "x < nextFlight f' \<and> (\<forall>j < length (callers f). j \<noteq> i \<longrightarrow> owns (callers f ! j) \<noteq> Some x)" if "owns (Unmapped fl r) = Some x" for x
      using that c flightInvD(1,2) [OF assms(1)] assms(2) by (fastforce simp: f')
    show "tblGet fst k (inflight f') = Some (k, x)" if "j < length (callers f)" "j \<noteq> i" "mapped (callers f ! j) = Some (k, x)" for j k x
      using that only flightInvD(3) [OF assms(1) that(1,3)] by (auto simp: f' tblGet_delete)
  qed (use c in \<open>auto simp: f' tblGet_delete split: if_splits\<close>)
qed

lemma flightInv_release:
  assumes "flightInv f" "i < length (callers f)" "release i f = Some f'"
  shows "flightInv f'"
proof -
  obtain fl r where c: "callers f ! i = Unmapped fl r" using assms(3) by (auto simp: release_def split: caller.splits)
  have f': "f' = f\<lparr>results := results f @ [(fl, r)], callers := (callers f)[i := Returned r]\<rparr>"
    using assms(3) c by (simp add: release_def)
  show ?thesis
    by (rule flightInv_move [OF assms(1,2), of f' "Returned r"])
      (use c flightInvD(3) [OF assms(1)] in \<open>auto simp: f' tblHas_def\<close>)
qed

lemma flightReach_inv: "flightReach f \<Longrightarrow> flightInv f"
proof (induction rule: flightReach.induct)
  case start
  show ?case by (simp add: flightInv_def noFlights_def)
next
  case (step f f')
  from step(2) show ?case
  proof (cases rule: flightStep.cases)
    case arrive
    then show ?thesis using flightInv_arrive [OF step(3)] by simp
  next
    case enters
    then show ?thesis by (rule flightInv_enter [OF step(3)])
  next
    case fetches
    then show ?thesis by (rule flightInv_finish [OF step(3)])
  next
    case unmaps
    then show ?thesis by (rule flightInv_unmap [OF step(3)])
  next
    case releases
    then show ?thesis by (rule flightInv_release [OF step(3)])
  next
    case wakes
    then show ?thesis by (rule flightInv_wake [OF step(3)])
  qed
qed



subsection \<open>Lemmas: fetching\<close>

lemma canonicalBody_fields [simp]:
  "db (snd (canonicalBody E now key p)) = db p" "emitted (snd (canonicalBody E now key p)) = emitted p"
  "emitOn (snd (canonicalBody E now key p)) = emitOn p"
proof -
  have "snd (canonicalBody E now key p) = p \<or> (\<exists>url q vars. snd (canonicalBody E now key p) = snd (graphqlAt E now url q vars p))"
    by (auto simp: canonicalBody_def Let_def split: option.splits atoi_result.splits prod.splits) (metis snd_conv)+
  then show "db (snd (canonicalBody E now key p)) = db p" "emitted (snd (canonicalBody E now key p)) = emitted p"
    "emitOn (snd (canonicalBody E now key p)) = emitOn p"
    by auto
qed

lemma emitUpdated_emitted [simp]: "emitted (emitUpdated E n p) = emitted p @ (if emitOn p then [updatedEvent E n] else [])"
  by (simp add: emitUpdated_def doEmit_def)

lemma emitUpdated_db [simp]: "db (emitUpdated E n p) = db p"
  by (simp add: emitUpdated_def)

lemma nodeAt_faults [simp]: "nodeAt (s\<lparr>faults := fs\<rparr>) k = nodeAt s k"
  by (simp add: nodeAt_def)

lemma nodeAt_bump:
  "nodeAt (snd (bumpFetched key t s)) k =
     (if k = key \<and> fst (bumpFetched key t s) = Inr () then map_option (\<lambda>r. r\<lparr>rFetched := rfc t\<rparr>) (nodeAt s k) else nodeAt s k)"
proof -
  have "tblGet rKey k (tblUpdate (\<lambda>r. rKey r = key) (\<lambda>r. r\<lparr>rFetched := rfc t\<rparr>) ns)
      = map_option (\<lambda>r. if rKey r = key then r\<lparr>rFetched := rfc t\<rparr> else r) (tblGet rKey k ns)" for ns :: "nodeRow list"
    by (rule tblGet_update) simp
  moreover obtain b fs where "stmt s = (b, s\<lparr>faults := fs\<rparr>)" by (rule stmt_obtain)
  ultimately show ?thesis
    by (cases "tblGet rKey k (nodes s)") (auto simp: bumpFetched_def nodeAt_def dest: tblGet_SomeD)
qed

text \<open>What every outcome of a fetch means for the result, the cache and the events.\<close>

definition fetchSpec ::
  "'u ghEnv \<Rightarrow> instant \<Rightarrow> string \<Rightarrow> node option \<Rightarrow> github_db \<Rightarrow> envelope list \<Rightarrow> bool
     \<Rightarrow> (node option \<times> fetchOutcome) res \<Rightarrow> 'u ghState \<Rightarrow> bool" where
  "fetchSpec E now key stored d em on r p' \<longleftrightarrow>
     (\<forall>k. k \<noteq> key \<longrightarrow> nodeAt (db p') k = nodeAt d k) \<and>
     (case r of
        Inl _ \<Rightarrow> nodeAt (db p') key = nodeAt d key \<and> emitted p' = em
      | Inr (n, outcomeOther) \<Rightarrow> n = stored \<and> nodeAt (db p') key = nodeAt d key \<and> emitted p' = em
      | Inr (n, outcomeNotModified) \<Rightarrow> n = stored \<and> stored \<noteq> None \<and> emitted p' = em
          \<and> map_option rJSON (nodeAt (db p') key) = map_option rJSON (nodeAt d key)
      | Inr (n, outcomeUnchanged) \<Rightarrow> (\<exists>nd. n = Some nd \<and> nKey nd = key \<and> nFetchedAt nd = now \<and> nodeAt (db p') key = Some (nodeToRow nd)
          \<and> map_option nContentHash stored = Some (contentHash E (nJSON nd)) \<and> emitted p' = em)
      | Inr (n, outcomeChanged) \<Rightarrow> (\<exists>nd. n = Some nd \<and> nKey nd = key \<and> nFetchedAt nd = now \<and> nodeAt (db p') key = Some (nodeToRow nd)
          \<and> map_option nContentHash stored \<noteq> Some (contentHash E (nJSON nd))
          \<and> emitted p' = em @ (if on then [updatedEvent E nd] else [])))"

lemma landNode_spec:
  assumes "landNode E now key stored body etag p = (r, p')"
  shows "fetchSpec E now key stored (db p) (emitted p) (emitOn p) r p'"
proof -
  define n where "n = \<lparr>nKey = key, nTypename = typenameFor key, nJSON = body, nETag = etag, nContentHash = contentHash E body,
               nPinned = evalPin E now key (bodyMap E body), nFetchedAt = now, nUpdatedAt = now\<rparr>"
  have n: "nKey n = key" "nFetchedAt n = now" "nJSON n = body" "nContentHash n = contentHash E body" by (simp_all add: n_def)
  have def: "landNode E now key stored body etag p = (case onDb (upsert n) p of (Inl e, p1) \<Rightarrow> (Inl e, p1)
      | (Inr _, p1) \<Rightarrow> if stored = None \<or> map_option nContentHash stored \<noteq> Some (contentHash E body)
          then (Inr (Some n, outcomeChanged), emitUpdated E n p1) else (Inr (Some n, outcomeUnchanged), p1))"
    unfolding landNode_def Let_def n_def ..
  from upsert_outcome [of n "db p"] show ?thesis
  proof (elim disjE exE)
    fix fs
    assume "upsert n (db p) = (Inl ''github: upsert'', (db p)\<lparr>faults := fs\<rparr>)"
    with assms show ?thesis by (auto simp: def onDb_pair fetchSpec_def)
  next
    fix fs
    assume u: "upsert n (db p) = (Inr (), putNode (nodeToRow n) ((db p)\<lparr>faults := fs\<rparr>))"
    have at: "nodeAt (putNode (nodeToRow n) ((db p)\<lparr>faults := fs\<rparr>)) k = (if k = key then Some (nodeToRow n) else nodeAt (db p) k)" for k
      using gh.lookup_put [of "nodeToRow n" "(db p)\<lparr>faults := fs\<rparr>" k] by (simp add: n)
    show ?thesis
      using assms u at n by (auto simp: def onDb_pair fetchSpec_def split: if_splits)
  qed
qed

lemma fetchNode_spec:
  assumes "fetchNode E now key stored p = (r, p')"
  shows "fetchSpec E now key stored (db p) (emitted p) (emitOn p) r p'"
proof -
  define etag where "etag = (case stored of None \<Rightarrow> [] | Some n \<Rightarrow> nETag n)"
  obtain res p1 where g: "httpGET E (restPath key) etag p = (res, p1)" by (cases "httpGET E (restPath key) etag p")
  have p1: "db p1 = db p" "emitted p1 = emitted p" "emitOn p1 = emitOn p"
    using httpGET_fields [of E "restPath key" etag p] by (simp_all add: g)
  have def: "fetchNode E now key stored p =
     (case res of None \<Rightarrow> (Inr (stored, outcomeOther), p1)
      | Some (status, body, respETag) \<Rightarrow>
          if status = 304 \<and> stored \<noteq> None then
            (let (_, p2) = onDb (bumpFetched key now) p1 in (Inr (stored, outcomeNotModified), p2))
          else if status \<noteq> 200 then (Inr (stored, outcomeOther), p1)
          else (case canonicalBody E now key p1 of
                  (Some cb, p2) \<Rightarrow> landNode E now key stored cb respETag p2
                | (None, p2) \<Rightarrow>
                    if (case stored of None \<Rightarrow> False | Some n \<Rightarrow> isGraphQLShape (nJSON n))
                       \<and> map_of graphqlPointOps (kindOf key) \<noteq> None
                    then (Inr (stored, outcomeOther), p2)
                    else landNode E now key stored body respETag p2))"
    unfolding fetchNode_def etag_def [symmetric] g Let_def prod.case ..
  have other: "fetchSpec E now key stored (db p) (emitted p) (emitOn p) (Inr (stored, outcomeOther)) q" if "db q = db p" "emitted q = emitted p" for q
    using that by (simp add: fetchSpec_def)
  obtain cb p2 where c: "canonicalBody E now key p1 = (cb, p2)" by (cases "canonicalBody E now key p1")
  have p2: "db p2 = db p" "emitted p2 = emitted p" "emitOn p2 = emitOn p"
    using canonicalBody_fields [of E now key p1] p1 by (simp_all add: c)
  have land: "fetchSpec E now key stored (db p) (emitted p) (emitOn p) r p'" if "landNode E now key stored b t p2 = (r, p')" for b t
    using landNode_spec [OF that] unfolding p2 .
  show ?thesis
  proof (cases res)
    case None
    with assms p1 show ?thesis by (auto simp: def intro: other)
  next
    case (Some x)
    obtain status body t where x: "x = (status, body, t)" by (cases x)
    consider "status = 304" "stored \<noteq> None" | "\<not> (status = 304 \<and> stored \<noteq> None)" "status \<noteq> 200" | "status = 200" by blast
    then show ?thesis
    proof cases
      case 1
      then have "r = Inr (stored, outcomeNotModified)" "p' = p1\<lparr>db := snd (bumpFetched key now (db p))\<rparr>"
        using assms by (simp_all add: def Some x onDb_pair p1)
      with 1 p1 show ?thesis by (auto simp: fetchSpec_def nodeAt_bump option.map_comp comp_def)
    next
      case 2
      then have "r = Inr (stored, outcomeOther)" "p' = p1"
        using assms by (auto simp: def Some x)
      with p1 show ?thesis by (simp add: other)
    next
      case 3
      with assms land p2 show ?thesis
        by (cases cb) (auto simp: def Some x c intro: other split: if_splits)
    qed
  qed
qed

subsection \<open>Properties\<close>


text \<open>A read of a cached node that is pinned or not expired is served without any upstream call,
  event or write: the network and the cache are as before.\<close>

theorem resolve_hit_local:
  assumes "faults (db p) = []" and "nodeAt (db p) key = Some row"
    and "rPinned row \<or> \<not> expired E now (rowNode row)"
  shows "resolve E now key p = (Inr (Some (rowNode row)), p)"
proof -
  have "nPinned (rowNode row) = rPinned row" by (simp add: rowNode_def)
  then show ?thesis using assms by (simp add: resolve_def onDb_pair)
qed

definition demoEnv :: "unit ghEnv" where
  "demoEnv = \<lparr>cfg = ghNewConfig ''tok'' None, ops = [], Do = (\<lambda>r u. (None, u)), marshal = (\<lambda>v. ''{}''), marshalRaw = (\<lambda>bs. ''[]''), unmarshal = (\<lambda>s. None),
     sha256hex = (\<lambda>s. s), hmacHex = (\<lambda>k b. k @ b)\<rparr>"

definition demoState :: "github_db \<Rightarrow> unit ghState" where
  "demoState d = \<lparr>db = d, net = (), slept = [], emitOn = True, emitted = []\<rparr>"

theorem resolve_hit_local_witness:
  "resolve demoEnv 0 ''issue:o/r#5'' (demoState (demoGh [demoRow ''issue:o/r#5''] []))
     = (Inr (Some (rowNode (demoRow ''issue:o/r#5''))), demoState (demoGh [demoRow ''issue:o/r#5''] []))"
  by (rule resolve_hit_local)
    (simp_all add: demoState_def demoGh_def nodeAt_def demoRow_def nodeToRow_def expired_def demoEnv_def ghNewConfig_def subMap_def)

text \<open>A cached issue or pull request in the GraphQL shape is never overwritten by the flat REST
  body: when the canonical re-read fails, the stored node is kept and returned.\<close>

theorem graphql_shape_kept:
  assumes "fetchNode E now key (Some n) p = (Inr (Some m, out), p')" and "isGraphQLShape (nJSON n)"
    and "kindOf key = ''issue'' \<or> kindOf key = ''pr''"
  shows "nJSON m = nJSON n \<or> (\<exists>q cb q'. canonicalBody E now key q = (Some cb, q') \<and> nJSON m = cb)"
proof -
  have k: "map_of graphqlPointOps (kindOf key) \<noteq> None" using assms(3) by (auto simp: graphqlPointOps_def)
  have land: "nJSON m = b" if "landNode E now key (Some n) b t q = (Inr (Some m, out), p')" for b t q
    using that by (auto simp: landNode_def Let_def split: prod.splits sum.splits if_splits)
  obtain res p1 where g: "httpGET E (restPath key) (nETag n) p = (res, p1)" by (cases "httpGET E (restPath key) (nETag n) p")
  show ?thesis
    using assms(1,2) k
    by (auto simp: fetchNode_def g Let_def split: option.splits prod.splits if_splits dest: land)
qed

definition demoOk :: "unit ghEnv" where
  "demoOk = demoEnv\<lparr>Do := (\<lambda>r u. (Some \<lparr>respStatus = 200, respHeaders = [], respBody = ''{}''\<rparr>, u))\<rparr>"

definition demoShaped :: node where
  "demoShaped = (rowNode (demoRow ''issue:o/r#5''))\<lparr>nJSON := CHR 0x22 # ''updatedAt'' @ [CHR 0x22]\<rparr>"

theorem graphql_shape_kept_witness:
  "fetchNode demoOk 0 ''issue:o/r#5'' (Some demoShaped) (demoState (demoGh [] [])) =
     (Inr (Some demoShaped, outcomeOther), demoState (demoGh [] []))
   \<and> (nJSON demoShaped = nJSON demoShaped \<or>
      (\<exists>q cb q'. canonicalBody demoOk 0 ''issue:o/r#5'' q = (Some cb, q') \<and> nJSON demoShaped = cb))"
proof -
  have k: "kindOf ''issue:o/r#5'' = ''issue''" by code_simp
  have s: "isGraphQLShape (nJSON demoShaped)" by (simp add: demoShaped_def isGraphQLShape_def containsStr_iff) (metis append_Nil append_Nil2)
  have f: "fetchNode demoOk 0 ''issue:o/r#5'' (Some demoShaped) (demoState (demoGh [] [])) =
     (Inr (Some demoShaped, outcomeOther), demoState (demoGh [] []))"
    using s by (simp add: fetchNode_def httpGET_def demoOk_def demoEnv_def demoState_def canonicalBody_def k graphqlPointOps_def)
  from graphql_shape_kept [OF f s] k f show ?thesis by blast
qed

end
