(* ===== verification/GithubExecutor.thy ===== *)
theory GithubExecutor
  imports GithubProxy
begin

text \<open>
  \<open>plugins/github/executor.go\<close>: the named-operation executor behind
  \<open>POST /plugins/github/graphql\<close>. A point operation resolves its declared keys through the
  cache; a list operation is answered from the cached list or from GitHub, stores every
  object of the answer under its own key and caches the list under its covering tag. The
  GraphQL parser is outside the repository: \<open>parse\<close> gives the top-level selections of every
  operation of a document.
\<close>

datatype selection = SelField string | SelOther

definition isIntrospectionOnly :: "(string \<Rightarrow> selection list list option) \<Rightarrow> string \<Rightarrow> bool" where
  "isIntrospectionOnly parse query =
     (case parse query of
        None \<Rightarrow> False
      | Some oprs \<Rightarrow> oprs \<noteq> [] \<and> list_all (\<lambda>sels. sels \<noteq> [] \<and>
          list_all (\<lambda>s. s = SelField ''__schema'' \<or> s = SelField ''__type'') sels) oprs)"

record nodeResult =
  nrKey :: string
  nrETag :: string
  nrTypename :: string
  nrNode :: string

record queryResult =
  qData :: "(string \<times> string) list"
  qNodes :: "nodeResult list"
  qScope :: string

definition substitute :: "string \<Rightarrow> obj \<Rightarrow> string" where
  "substitute template vars = fillWith (\<lambda>n. map_option coerce (map_of vars n)) template"

definition hasAll :: "obj \<Rightarrow> string list \<Rightarrow> bool" where
  "hasAll m fs = list_all (\<lambda>f. map_of m f \<noteq> None) fs"

fun collectObjects :: "any \<Rightarrow> string list \<Rightarrow> obj list" where
  "collectObjects (AObj m) fs =
     (if hasAll m fs then [m] else []) @ concat (map (\<lambda>(k, c). collectObjects c fs) m)"
| "collectObjects (AArr xs) fs = concat (map (\<lambda>c. collectObjects c fs) xs)"
| "collectObjects _ fs = []"

text \<open>\<open>strings.ReplaceAll(key, "{f}", v)\<close>.\<close>

function replaceAll :: "string \<Rightarrow> string \<Rightarrow> string \<Rightarrow> string" where
  "replaceAll s old new =
     (if old = [] \<or> s = [] then s
      else if hasPrefix s old then new @ replaceAll (drop (length old) s) old new
      else hd s # replaceAll (tl s) old new)"
  by pat_completeness auto
termination
  by (relation "measure (\<lambda>(s, old, new). length s)") (auto simp: neq_Nil_conv)

declare replaceAll.simps [simp del]

definition objectKey :: "string \<Rightarrow> string list \<Rightarrow> obj \<Rightarrow> string" where
  "objectKey resolved want ob = fold (\<lambda>f key. replaceAll key (''{'' @ f @ ''}'') (coerce (at ob f))) want resolved"

definition resultOf :: "node \<Rightarrow> nodeResult" where
  "resultOf n = \<lparr>nrKey = nKey n, nrETag = nETag n, nrTypename = nTypename n, nrNode = nJSON n\<rparr>"

definition objectNode :: "'u ghEnv \<Rightarrow> instant \<Rightarrow> string \<Rightarrow> obj \<Rightarrow> node" where
  "objectNode E now key ob =
     (let body = marshal E (AObj ob) in
      \<lparr>nKey = key, nTypename = typenameFor key, nJSON = body, nETag = [], nContentHash = contentHash E body,
       nPinned = evalPin E now key ob, nFetchedAt = now, nUpdatedAt = now\<rparr>)"

fun storeObjects ::
  "'u ghEnv \<Rightarrow> instant \<Rightarrow> string \<Rightarrow> string list \<Rightarrow> obj list \<Rightarrow> 'u ghState \<Rightarrow> nodeResult list \<times> 'u ghState" where
  "storeObjects E now resolved want [] p = ([], p)"
| "storeObjects E now resolved want (ob # obs) p =
     (let n = objectNode E now (objectKey resolved want ob) ob in
      case onDb (upsert n) p of
        (Inl _, p1) \<Rightarrow> storeObjects E now resolved want obs p1
      | (Inr _, p1) \<Rightarrow> let (out, p2) = storeObjects E now resolved want obs p1 in (resultOf n # out, p2))"

definition extractAndStore ::
  "'u ghEnv \<Rightarrow> instant \<Rightarrow> string \<Rightarrow> obj \<Rightarrow> any \<Rightarrow> 'u ghState \<Rightarrow> nodeResult list \<times> 'u ghState" where
  "extractAndStore E now template vars data p =
     (let resolved = substitute template vars; want = placeholders resolved in
      if want = [] then
        (case resolve E now resolved p of
           (Inr (Some n), p1) \<Rightarrow> ([resultOf n], p1)
         | (_, p1) \<Rightarrow> ([], p1))
      else storeObjects E now resolved want (collectObjects data want) p)"

fun resolveKeys ::
  "'u ghEnv \<Rightarrow> instant \<Rightarrow> string list \<Rightarrow> obj \<Rightarrow> 'u ghState \<Rightarrow> node list res \<times> 'u ghState" where
  "resolveKeys E now [] vars p = (Inr [], p)"
| "resolveKeys E now (kt # kts) vars p =
     (case resolve E now (substitute kt vars) p of
        (Inl e, p1) \<Rightarrow> (Inl e, p1)
      | (Inr n, p1) \<Rightarrow>
          (case resolveKeys E now kts vars p1 of
             (Inl e, p2) \<Rightarrow> (Inl e, p2)
           | (Inr ns, p2) \<Rightarrow> (Inr ((case n of None \<Rightarrow> [] | Some nd \<Rightarrow> [nd]) @ ns), p2)))"

fun extractAll ::
  "'u ghEnv \<Rightarrow> instant \<Rightarrow> string list \<Rightarrow> obj \<Rightarrow> any \<Rightarrow> 'u ghState \<Rightarrow> nodeResult list \<times> 'u ghState" where
  "extractAll E now [] vars data p = ([], p)"
| "extractAll E now (kt # kts) vars data p =
     (let (ns, p1) = extractAndStore E now kt vars data p; (ms, p2) = extractAll E now kts vars data p1 in (ns @ ms, p2))"

text \<open>The tag of a list: its scope and the kind of its first key template.\<close>

definition coverTag :: "string \<Rightarrow> string list \<Rightarrow> string" where
  "coverTag scope kts = (case kts of [] \<Rightarrow> [] | kt # _ \<Rightarrow> scope @ ''|'' @ kindOf kt)"

definition runOp :: "'u ghEnv \<Rightarrow> instant \<Rightarrow> namedOp \<Rightarrow> obj \<Rightarrow> 'u ghState \<Rightarrow> queryResult res \<times> 'u ghState" where
  "runOp E now op vars p0 =
     (if opScope op = [] then
        (case resolveKeys E now (opKeys op) vars p0 of
           (Inl e, p1) \<Rightarrow> (Inl e, p1)
         | (Inr ns, p1) \<Rightarrow>
             (let data = (case ns of [] \<Rightarrow> ''null'' | [n] \<Rightarrow> nJSON n | _ \<Rightarrow> marshalRaw E (map nJSON ns))
              in (Inr \<lparr>qData = [(opName op, data)], qNodes = map resultOf ns, qScope = []\<rparr>, p1)))
      else
        (let scope = substitute (opScope op) vars;
             lk = listKey (opName op) scope;
             (cached, p1) = onDb (getNode lk) p0;
             (data, p2) = (case cached of
                 Inr (Some n) \<Rightarrow> (Some (decodeMap E (nJSON n)), p1)
               | _ \<Rightarrow> httpGraphQL E now (opQuery op) vars p1) in
         case data of
           None \<Rightarrow> (Inl ''upstream'', p2)
         | Some d \<Rightarrow>
             (let raw = marshal E d;
                  (nds, p3) = extractAll E now (opKeys op) vars d p2 in
              case onDb (putList lk raw (coverTag scope (opKeys op)) now) p3 of
                (Inl e, p4) \<Rightarrow> (Inl e, p4)
              | (Inr _, p4) \<Rightarrow> (Inr \<lparr>qData = [(opName op, raw)], qNodes = nds, qScope = scope\<rparr>, p4))))"

record gqlReq =
  rqQuery :: string
  rqOp :: string
  rqVars :: obj

datatype gqlResp = GqlError int string | GqlData any | GqlResult queryResult

text \<open>\<open>handleGraphQL\<close>: \<open>req\<close> is the decoded request or the error of reading it.\<close>

definition handleGraphQL ::
  "(string \<Rightarrow> selection list list option) \<Rightarrow> 'u ghEnv \<Rightarrow> instant \<Rightarrow> read_err + gqlReq \<Rightarrow> 'u ghState \<Rightarrow> gqlResp \<times> 'u ghState" where
  "handleGraphQL parse E now req p =
     (case req of
        Inl e \<Rightarrow> (GqlError (ReadErrStatus e) ''bad request'', p)
      | Inr rq \<Rightarrow>
          if rqOp rq = [] then
            (if \<not> isIntrospectionOnly parse (rqQuery rq)
             then (GqlError 400 ''request must set op: raw {query} passthrough is disabled'', p)
             else case httpGraphQL E now (rqQuery rq) (rqVars rq) p of
                    (None, p1) \<Rightarrow> (GqlError 502 ''upstream'', p1)
                  | (Some d, p1) \<Rightarrow> (GqlData d, p1))
          else
            (case map_of (ops E) (rqOp rq) of
               None \<Rightarrow> (GqlError 404 ''unknown op'', p)
             | Some op \<Rightarrow>
                 if \<not> safeName (coerce (at (rqVars rq) ''owner'')) \<or> \<not> safeName (coerce (at (rqVars rq) ''repo''))
                 then (GqlError 400 ''invalid owner/repo in variables'', p)
                 else (case runOp E now op (rqVars rq) p of
                         (Inl e, p1) \<Rightarrow> (GqlError 502 e, p1)
                       | (Inr r, p1) \<Rightarrow> (GqlResult r, p1))))"

subsection \<open>Lemmas\<close>

lemma storeObjects_step: "snd (storeObjects E now rs want (ob # obs) p) =
    snd (storeObjects E now rs want obs (snd (onDb (upsert (objectNode E now (objectKey rs want ob) ob)) p)))"
  by (simp add: Let_def case_prod_unfold split: sum.splits)

lemma storeObjects_frame [simp]:
  "net (snd (storeObjects E now rs want obs p)) = net p" "slept (snd (storeObjects E now rs want obs p)) = slept p"
  "emitted (snd (storeObjects E now rs want obs p)) = emitted p"
  by (induction obs arbitrary: p) (simp_all add: storeObjects_step del: storeObjects.simps(2))

lemma storeObjects_db:
  "faults (db p) = [] \<Longrightarrow> faults (db (snd (storeObjects E now rs want obs p))) = []
     \<and> tags (db (snd (storeObjects E now rs want obs p))) = tags (db p)"
  by (induction obs arbitrary: p) (simp_all add: storeObjects_step del: storeObjects.simps(2))

lemma extractAll_objects:
  assumes "\<forall>kt \<in> set kts. placeholders (substitute kt vars) \<noteq> []"
  shows "net (snd (extractAll E now kts vars d p)) = net p \<and> slept (snd (extractAll E now kts vars d p)) = slept p
    \<and> emitted (snd (extractAll E now kts vars d p)) = emitted p
    \<and> (faults (db p) = [] \<longrightarrow> faults (db (snd (extractAll E now kts vars d p))) = []
         \<and> tags (db (snd (extractAll E now kts vars d p))) = tags (db p))"
  using assms
proof (induction kts arbitrary: p)
  case Nil
  then show ?case by simp
next
  case (Cons kt kts)
  let ?p1 = "snd (extractAndStore E now kt vars d p)"
  have s: "extractAndStore E now kt vars d p = storeObjects E now (substitute kt vars) (placeholders (substitute kt vars))
      (collectObjects d (placeholders (substitute kt vars))) p"
    using Cons.prems by (simp add: extractAndStore_def Let_def)
  have one: "net ?p1 = net p" "slept ?p1 = slept p" "emitted ?p1 = emitted p"
    "faults (db p) = [] \<longrightarrow> faults (db ?p1) = [] \<and> tags (db ?p1) = tags (db p)"
    using storeObjects_db [of p E now "substitute kt vars" "placeholders (substitute kt vars)"] by (simp_all add: s)
  have IH: "net (snd (extractAll E now kts vars d ?p1)) = net ?p1 \<and> slept (snd (extractAll E now kts vars d ?p1)) = slept ?p1
    \<and> emitted (snd (extractAll E now kts vars d ?p1)) = emitted ?p1
    \<and> (faults (db ?p1) = [] \<longrightarrow> faults (db (snd (extractAll E now kts vars d ?p1))) = []
         \<and> tags (db (snd (extractAll E now kts vars d ?p1))) = tags (db ?p1))"
    using Cons by simp
  have "snd (extractAll E now (kt # kts) vars d p) = snd (extractAll E now kts vars d ?p1)"
    by (simp add: Let_def split: prod.splits)
  with IH one show ?case by simp
qed

lemma putList_no_faults:
  assumes "faults s = []" "cov \<noteq> []"
  shows "\<exists>s'. putList lk body cov t s = (Inr (), s') \<and> faults s' = [] \<and> (cov, lk) \<in> set (tags s')"
  using assms by (auto simp: putList_def set_insertIgnore_id)

subsection \<open>Properties\<close>

text \<open>A list operation whose result is cached is answered locally: no upstream call, no pause and
  no event, whatever the cached body holds.\<close>

theorem cached_list_local:
  assumes "opScope op \<noteq> []" and "faults (db p) = []"
    and "nodeAt (db p) (listKey (opName op) (substitute (opScope op) vars)) = Some row"
    and "\<forall>kt \<in> set (opKeys op). placeholders (substitute kt vars) \<noteq> []"
  shows "net (snd (runOp E now op vars p)) = net p \<and> slept (snd (runOp E now op vars p)) = slept p
    \<and> emitted (snd (runOp E now op vars p)) = emitted p"
proof -
  let ?d = "decodeMap E (nJSON (rowNode row))"
  let ?lk = "listKey (opName op) (substitute (opScope op) vars)"
  obtain nds p3 where x: "extractAll E now (opKeys op) vars ?d p = (nds, p3)" by (cases "extractAll E now (opKeys op) vars ?d p")
  have p3: "net p3 = net p" "slept p3 = slept p" "emitted p3 = emitted p"
    using extractAll_objects [OF assms(4), of E now ?d p] by (simp_all add: x)
  have "onDb (getNode ?lk) p = (Inr (Some (rowNode row)), p)"
    using assms(2,3) by (simp add: onDb_pair)
  with assms(1) p3 show ?thesis
    by (auto simp: runOp_def Let_def x onDb_pair split: sum.splits prod.splits)
qed

definition demoOp :: namedOp where
  "demoOp = \<lparr>opName = ''openIssues'', opScope = ''repo:{owner}/{repo}'', opKeys = [''issue:{owner}/{repo}#{number}''], opQuery = ''q''\<rparr>"

definition demoVars :: obj where
  "demoVars = [(''owner'', AStr ''o''), (''repo'', AStr ''r'')]"

lemma demo_substitute:
  "substitute ''repo:{owner}/{repo}'' demoVars = ''repo:o/r''"
  "substitute ''issue:{owner}/{repo}#{number}'' demoVars = ''issue:o/r#{number}''"
  by code_simp+

lemma demo_placeholders: "placeholders ''issue:o/r#{number}'' = [''number'']"
  by code_simp

theorem cached_list_local_witness:
  "net (snd (runOp demoEnv 0 demoOp demoVars (demoState (demoGh [demoRow ''list:openIssues:repo:o/r''] [])))) = ()
   \<and> emitted (snd (runOp demoEnv 0 demoOp demoVars (demoState (demoGh [demoRow ''list:openIssues:repo:o/r''] [])))) = []"
proof -
  have "nodeAt (demoGh [demoRow ''list:openIssues:repo:o/r''] []) (listKey (opName demoOp) (substitute (opScope demoOp) demoVars))
      = Some (demoRow ''list:openIssues:repo:o/r'')"
    by (simp add: demoOp_def demo_substitute listKey_def nodeAt_def demoGh_def demoRow_def)
  then show ?thesis
    using cached_list_local [of demoOp "demoState (demoGh [demoRow ''list:openIssues:repo:o/r''] [])" demoVars _ demoEnv 0]
    by (simp add: demoState_def demoGh_def demoOp_def demo_substitute demo_placeholders)
qed

text \<open>C19. A list result and its members stay consistent: after a list operation over a repository
  scope succeeded, a purge of any object of the listed kind in that repository, a member or
  not, evicts the cached list, so the next read goes upstream.\<close>

theorem list_op_evicted_by_member:
  assumes "runOp E now op vars p = (Inr r, p')" and "faults (db p) = []"
    and "substitute (opScope op) vars = ''repo:'' @ o' @ ''/'' @ rp" and "scopeName o'" and "scopeName rp"
    and "opKeys op = kt # kts" and "(kindOf kt, sep) \<in> set keySep"
    and "\<forall>t \<in> set (opKeys op). placeholders (substitute t vars) \<noteq> []"
  shows "nodeAt (snd (purge (objKey (kindOf kt) sep o' rp d) (db p'))) (listKey (opName op) (substitute (opScope op) vars)) = None"
proof -
  let ?scope = "substitute (opScope op) vars"
  let ?lk = "listKey (opName op) ?scope"
  let ?cov = "coverTag ?scope (opKeys op)"
  have sc: "opScope op \<noteq> []" using assms(3) by (auto simp: substitute_def fillWith.simps)
  obtain cached p1 where g: "onDb (getNode ?lk) p = (cached, p1)" by (cases "onDb (getNode ?lk) p")
  then have p1: "db p1 = db p" "faults (db p1) = []" using assms(2) by (auto simp: onDb_pair)
  obtain data p2 where h: "(case cached of Inr (Some n) \<Rightarrow> (Some (decodeMap E (nJSON n)), p1)
      | _ \<Rightarrow> httpGraphQL E now (opQuery op) vars p1) = (data, p2)" by (metis surj_pair)
  then have "p2 = p1 \<or> p2 = snd (graphqlAt E now (graphqlURL (cfg E)) (opQuery op) vars p1)"
    by (auto simp: httpGraphQL_def split: sum.splits option.splits)
  then have p2: "faults (db p2) = []" using p1 by auto
  obtain d0 where d0: "data = Some d0"
    using assms(1) sc by (cases data) (simp_all add: runOp_def Let_def g h)
  obtain nds p3 where x: "extractAll E now (opKeys op) vars d0 p2 = (nds, p3)" by (cases "extractAll E now (opKeys op) vars d0 p2")
  then have "faults (db p3) = []" using extractAll_objects [OF assms(8), of E now d0 p2] p2 by simp
  moreover have cov: "?cov = ''repo:'' @ o' @ ''/'' @ rp @ ''|'' @ kindOf kt" "?cov \<noteq> []"
    by (simp_all add: coverTag_def assms(3,6))
  ultimately obtain s where s: "putList ?lk (marshal E d0) ?cov now (db p3) = (Inr (), s)" "faults s = []" "(?cov, ?lk) \<in> set (tags s)"
    using putList_no_faults by metis
  have o: "onDb (putList ?lk (marshal E d0) ?cov now) p3 = (Inr (), p3\<lparr>db := s\<rparr>)" by (simp add: onDb_pair s(1))
  have "db p' = s" using assms(1) sc by (simp add: runOp_def Let_def g h d0 x o) auto
  moreover have "composite (objKey (kindOf kt) sep o' rp d) = ?cov" using scope_objKey [OF assms(7,4,5)] cov by simp
  ultimately show ?thesis
    using s cov(2) by (simp add: purge_no_faults nodeAt_evicted set_covering)
qed

theorem list_op_evicted_by_member_witness:
  "let p' = snd (runOp demoOk 0 demoOp demoVars (demoState (demoGh [] [])))
   in nodeAt (snd (purge ''issue:o/r#5'' (db p'))) ''list:openIssues:repo:o/r'' = None"
proof -
  let ?p = "demoState (demoGh [] [])"
  obtain r p' where run: "runOp demoOk 0 demoOp demoVars ?p = (Inr r, p')"
    by (auto simp: runOp_def demoOp_def demo_substitute listKey_def onDb_pair demoState_def demoGh_def nodeAt_def httpGraphQL_def
        graphqlAt_def demoOk_def demoEnv_def decodeData_def decodeMap_def extractAndStore_def demo_placeholders Let_def
        logGraphQLRate_def putList_def coverTag_def)
  have "safeName ''o''" "safeName ''r''" "kindOf ''issue:{owner}/{repo}#{number}'' = ''issue''" by code_simp+
  then have "nodeAt (snd (purge (objKey (kindOf ''issue:{owner}/{repo}#{number}'') CHR ''#'' ''o'' ''r'' ''5'') (db p')))
      (listKey (opName demoOp) (substitute (opScope demoOp) demoVars)) = None"
    by (intro list_op_evicted_by_member [OF run])
      (simp_all add: demoOp_def demo_substitute demo_placeholders demoState_def demoGh_def scopeName_def keySep_def)
  moreover have "objKey (kindOf ''issue:{owner}/{repo}#{number}'') CHR ''#'' ''o'' ''r'' ''5'' = ''issue:o/r#5''"
    "listKey (opName demoOp) (substitute (opScope demoOp) demoVars) = ''list:openIssues:repo:o/r''" by code_simp+
  ultimately show ?thesis by (simp only: run Let_def snd_conv)
qed

text \<open>The executor is closed to untrusted names and raw documents: a request can change the
  plugin's state only as an introspection query, which leaves the cache alone, or as a
  known operation whose owner and repository variables passed the name check.\<close>

theorem executor_guarded:
  assumes "snd (handleGraphQL parse E now req p) \<noteq> p"
  shows "\<exists>rq. req = Inr rq \<and>
    (if rqOp rq = [] then isIntrospectionOnly parse (rqQuery rq) \<and> db (snd (handleGraphQL parse E now req p)) = db p
     else (\<exists>op. map_of (ops E) (rqOp rq) = Some op) \<and> safeName (coerce (at (rqVars rq) ''owner''))
        \<and> safeName (coerce (at (rqVars rq) ''repo'')))"
proof (cases req)
  case (Inl e)
  with assms show ?thesis by (simp add: handleGraphQL_def)
next
  case (Inr rq)
  have "db (snd (httpGraphQL E now (rqQuery rq) (rqVars rq) p)) = db p" by (simp add: httpGraphQL_def)
  with Inr assms show ?thesis
    by (auto simp: handleGraphQL_def split: if_splits option.splits prod.splits)
qed

theorem executor_guarded_witness:
  "let req = Inr \<lparr>rqQuery = [], rqOp = ''openIssues'', rqVars = demoVars\<rparr>;
       E = demoOk\<lparr>ops := [(''openIssues'', demoOp)]\<rparr>
   in snd (handleGraphQL (\<lambda>_. None) E 0 req (demoState (demoGh [] []))) \<noteq> demoState (demoGh [] [])
      \<and> safeName (coerce (at demoVars ''owner''))"
proof -
  let ?req = "Inr \<lparr>rqQuery = [], rqOp = ''openIssues'', rqVars = demoVars\<rparr>"
  let ?E = "demoOk\<lparr>ops := [(''openIssues'', demoOp)]\<rparr>"
  have s: "safeName (coerce (at demoVars ''owner''))" "safeName (coerce (at demoVars ''repo''))" by code_simp+
  have "nodes (db (snd (handleGraphQL (\<lambda>_. None) ?E 0 ?req (demoState (demoGh [] []))))) \<noteq> []"
    using s by (simp add: handleGraphQL_def runOp_def demoOp_def demo_substitute listKey_def onDb_pair demoState_def demoGh_def nodeAt_def httpGraphQL_def
        graphqlAt_def demoOk_def demoEnv_def decodeData_def decodeMap_def extractAndStore_def demo_placeholders Let_def
        logGraphQLRate_def putList_def coverTag_def putNode_def tblUpsert_def tblMerge_def)
  then have c: "snd (handleGraphQL (\<lambda>_. None) ?E 0 ?req (demoState (demoGh [] []))) \<noteq> demoState (demoGh [] [])"
    by (auto simp: demoState_def demoGh_def)
  from executor_guarded [OF c] c show ?thesis by simp
qed

end
