(* ===== verification/GithubWebhook.thy ===== *)
theory GithubWebhook
  imports GithubExecutor
begin

text \<open>
  \<open>plugins/github/webhook.go\<close>: the webhook receiver. It checks the signature, drops a delivery
  it has seen, and evicts what the event touches.
\<close>

definition maxWebhookBody :: nat where
  "maxWebhookBody = 2 ^ 20"

definition verifySignature :: "'u ghEnv \<Rightarrow> string \<Rightarrow> string \<Rightarrow> bool" where
  "verifySignature E body sig =
     (if webhookSecret (cfg E) = [] \<or> sig = [] then False
      else ''sha256='' @ hmacHex E (webhookSecret (cfg E)) body = sig)"

definition purgedEvent :: "'u ghEnv \<Rightarrow> instant \<Rightarrow> string \<Rightarrow> envelope" where
  "purgedEvent E now key = \<lparr>TS = now, Source = ''github'', EType = ''github.node.purged'', V = 1, Key = key,
     Payload = marshal E (AObj [(''key'', AStr key)])\<rparr>"

definition emitPurged :: "'u ghEnv \<Rightarrow> instant \<Rightarrow> string \<Rightarrow> 'u ghState \<Rightarrow> 'u ghState" where
  "emitPurged E now key p = doEmit (purgedEvent E now key) p"

fun purgeRelated :: "'u ghEnv \<Rightarrow> instant \<Rightarrow> string \<Rightarrow> string list \<Rightarrow> 'u ghState \<Rightarrow> 'u ghState" where
  "purgeRelated E now key [] p = p"
| "purgeRelated E now key (rk # rks) p =
     (if rk = key then purgeRelated E now key rks p
      else case onDb (purge rk) p of
             (Inl _, p1) \<Rightarrow> purgeRelated E now key rks p1
           | (Inr _, p1) \<Rightarrow> purgeRelated E now key rks (emitPurged E now rk p1))"

text \<open>The request: its body, cut off by \<open>MaxBytesReader\<close> past the cap, and its headers.\<close>

record hookReq =
  hkBody :: "read_err + string"
  hkSignature :: string
  hkDelivery :: string
  hkEvent :: string

definition readBody :: "read_err + string \<Rightarrow> read_err + string" where
  "readBody b = (case b of Inl e \<Rightarrow> Inl e | Inr s \<Rightarrow> if length s > maxWebhookBody then Inl MaxBytesError else Inr s)"

text \<open>The part of \<open>handleWebhook\<close> after the deduplication.\<close>

definition applyEvent :: "'u ghEnv \<Rightarrow> instant \<Rightarrow> string \<Rightarrow> string \<Rightarrow> 'u ghState \<Rightarrow> int \<times> 'u ghState" where
  "applyEvent E now event body p =
     (let payload = fieldsOf (decodeMap E body) in
      case eventKey event payload of
        None \<Rightarrow> (200, p)
      | Some key \<Rightarrow>
          (case onDb (purge key) p of
             (Inl _, p1) \<Rightarrow> (500, p1)
           | (Inr _, p1) \<Rightarrow> (200, purgeRelated E now key (relatedKeys event payload) (emitPurged E now key p1))))"

definition handleWebhook :: "'u ghEnv \<Rightarrow> instant \<Rightarrow> hookReq \<Rightarrow> 'u ghState \<Rightarrow> int \<times> 'u ghState" where
  "handleWebhook E now r p =
     (case readBody (hkBody r) of
        Inl e \<Rightarrow> (ReadErrStatus e, p)
      | Inr body \<Rightarrow>
          if \<not> verifySignature E body (hkSignature r) then (401, p)
          else if hkDelivery r = [] then applyEvent E now (hkEvent r) body p
          else (case onDb (deliverySeen (hkDelivery r)) p of
                  (True, p1) \<Rightarrow> (200, p1)
                | (False, p1) \<Rightarrow>
                    applyEvent E now (hkEvent r) body (snd (onDb (markDelivery (hkDelivery r) now) p1))))"

subsection \<open>Lemmas\<close>

lemma deliveries_purge [simp]: "deliveries (snd (purge k s)) = deliveries s"
  using purge_outcome [of k s] by (auto simp: evicted_def)

lemma purgeRelated_frame [simp]:
  "net (purgeRelated E now key rks p) = net p \<and> deliveries (db (purgeRelated E now key rks p)) = deliveries (db p)"
  by (induction rks arbitrary: p) (auto simp: onDb_pair emitPurged_def split: sum.splits)

lemma ReadErrStatus_cases: "ReadErrStatus e = 400 \<or> ReadErrStatus e = 413"
  by (cases e) simp_all

text \<open>A purge never brings a node back.\<close>

lemma purge_gone: "nodeAt s k = None \<Longrightarrow> nodeAt (snd (purge key s)) k = None"
  using purge_outcome [of key s] by (auto simp: nodeAt_evicted)

lemma purgeRelated_gone: "nodeAt (db p) k = None \<Longrightarrow> nodeAt (db (purgeRelated E now key rks p)) k = None"
  by (induction rks arbitrary: p) (auto simp: onDb_pair emitPurged_def purge_gone split: sum.splits)

lemma purgeRelated_no_faults:
  "faults (db p) = [] \<Longrightarrow> emitOn p \<Longrightarrow>
     emitted (purgeRelated E now key rks p) = emitted p @ map (purgedEvent E now) (filter (\<lambda>k. k \<noteq> key) rks)
     \<and> (\<forall>k \<in> set rks. k \<noteq> key \<longrightarrow> nodeAt (db (purgeRelated E now key rks p)) k = None)"
proof (induction rks arbitrary: p)
  case Nil
  then show ?case by simp
next
  case (Cons rk rks)
  show ?case
  proof (cases "rk = key")
    case True
    with Cons show ?thesis by simp
  next
    case False
    obtain ks s where pg: "purge rk (db p) = (Inr ks, s)" "faults s = []" "nodeAt s rk = None"
      using purge_no_faults [OF Cons.prems(1), of rk] by (simp add: nodeAt_evicted)
    let ?p = "emitPurged E now rk (p\<lparr>db := s\<rparr>)"
    have p: "faults (db ?p) = []" "emitOn ?p" "emitted ?p = emitted p @ [purgedEvent E now rk]" "nodeAt (db ?p) rk = None"
      using pg Cons.prems by (simp_all add: emitPurged_def doEmit_def)
    have step: "purgeRelated E now key (rk # rks) p = purgeRelated E now key rks ?p"
      using False pg by (simp add: onDb_pair)
    show ?thesis
      unfolding step using Cons.IH [OF p(1,2)] p(3) purgeRelated_gone [OF p(4)] False by auto
  qed
qed

lemma emitted_onDb_emit: "emitted (emitPurged E now k p) = emitted p @ (if emitOn p then [purgedEvent E now k] else [])"
  by (simp add: emitPurged_def doEmit_def)

lemma applyEvent_no_faults:
  assumes "faults (db p) = []" "emitOn p" "eventKey event (fieldsOf (decodeMap E body)) = Some key"
  shows "\<exists>p'. applyEvent E now event body p = (200, p') \<and> nodeAt (db p') key = None
    \<and> (\<forall>lk \<in> set (covering key (db p)). nodeAt (db p') lk = None)
    \<and> (\<forall>rk \<in> set (relatedKeys event (fieldsOf (decodeMap E body))). nodeAt (db p') rk = None)
    \<and> emitted p' = emitted p @ purgedEvent E now key #
         map (purgedEvent E now) (filter (\<lambda>k. k \<noteq> key) (relatedKeys event (fieldsOf (decodeMap E body))))"
proof -
  obtain ks s where pg: "purge key (db p) = (Inr ks, s)" "faults s = []"
      "nodeAt s key = None" "\<forall>lk \<in> set (covering key (db p)). nodeAt s lk = None"
    using purge_no_faults [OF assms(1), of key] by (simp add: nodeAt_evicted)
  let ?p = "emitPurged E now key (p\<lparr>db := s\<rparr>)"
  have p: "faults (db ?p) = []" "emitOn ?p" "emitted ?p = emitted p @ [purgedEvent E now key]" "db ?p = s"
    using pg assms(2) by (simp_all add: emitPurged_def doEmit_def)
  let ?rks = "relatedKeys event (fieldsOf (decodeMap E body))"
  have "applyEvent E now event body p = (200, purgeRelated E now key ?rks ?p)"
    using assms(3) pg by (simp add: applyEvent_def onDb_pair)
  then show ?thesis
    using purgeRelated_no_faults [OF p(1,2), of E now key ?rks] purgeRelated_gone [of ?p _ E now key ?rks] pg(3,4) p(3,4)
    by auto
qed


definition demoHook :: "unit ghEnv" where
  "demoHook = demoEnv\<lparr>cfg := (cfg demoEnv)\<lparr>webhookSecret := ''s''\<rparr>,
     unmarshal := (\<lambda>_. Some (AObj [(''repository'', AObj [(''full_name'', AStr ''o/r'')]), (''issue'', AObj [(''number'', AFloat 5 0)])]))\<rparr>"

definition demoReq :: hookReq where
  "demoReq = \<lparr>hkBody = Inr ''b'', hkSignature = ''sha256=sb'', hkDelivery = ''d1'', hkEvent = ''issues''\<rparr>"

lemma demoHook_event: "eventKey ''issues'' (fieldsOf (decodeMap demoHook x)) = Some ''issue:o/r#5''"
proof -
  have "eventKey ''issues'' [(''repository'', AObj [(''full_name'', AStr ''o/r'')]), (''issue'', AObj [(''number'', AFloat 5 0)])]
      = Some ''issue:o/r#5''" by code_simp
  then show ?thesis by (simp add: decodeMap_def demoHook_def)
qed

lemma demoHook_signed: "verifySignature demoHook ''b'' ''sha256=sb''"
  by (simp add: verifySignature_def demoHook_def demoEnv_def)

subsection \<open>Properties\<close>

text \<open>C6. Only a request signed with the configured secret gets in: without a secret, without a
  signature or with one that is not the HMAC of the body, the answer is 401 (or the error of
  an oversized or unreadable body) and nothing of the plugin's state changes.\<close>

theorem webhook_needs_signature:
  assumes "handleWebhook E now r p = (status, p')" and "p' \<noteq> p \<or> status = 200 \<or> status = 500"
  shows "webhookSecret (cfg E) \<noteq> [] \<and> (\<exists>body. hkBody r = Inr body \<and> length body \<le> maxWebhookBody
    \<and> hkSignature r = ''sha256='' @ hmacHex E (webhookSecret (cfg E)) body)"
proof -
  have "status \<in> {400, 413, 401} \<and> p' = p \<or> (\<exists>body. readBody (hkBody r) = Inr body \<and> verifySignature E body (hkSignature r))"
    using assms(1) ReadErrStatus_cases by (auto simp: handleWebhook_def split: sum.splits if_splits)
  then obtain body where "readBody (hkBody r) = Inr body" "verifySignature E body (hkSignature r)"
    using assms(2) by auto
  then show ?thesis by (auto simp: readBody_def verifySignature_def split: sum.splits if_splits)
qed

theorem webhook_needs_signature_witness:
  "handleWebhook demoHook 0 demoReq (demoState (demoGh [] [])) \<noteq> (401, demoState (demoGh [] []))
   \<and> webhookSecret (cfg demoHook) \<noteq> []"
proof -
  have v: "fst (handleWebhook demoHook 0 demoReq (demoState (demoGh [] []))) = 200"
    using demoHook_signed demoHook_event
    by (simp add: handleWebhook_def demoReq_def readBody_def maxWebhookBody_def onDb_pair deliverySeen_def markDelivery_def
        demoState_def demoGh_def applyEvent_def purge_no_faults split: prod.splits)
  then obtain q where "handleWebhook demoHook 0 demoReq (demoState (demoGh [] [])) = (200, q)" by (metis prod.collapse)
  with webhook_needs_signature [OF this] show ?thesis by simp
qed



text \<open>A delivery takes effect once: replaying a recorded delivery id with a valid signature is
  answered 200 and changes nothing, so a redelivery after a successful first attempt emits no
  second purge.\<close>

theorem webhook_replay_inert:
  assumes "faults (db p) = []" and "hkDelivery r \<noteq> []" and "tblHas fst (hkDelivery r) (deliveries (db p))"
    and "hkBody r = Inr body" and "length body \<le> maxWebhookBody" and "verifySignature E body (hkSignature r)"
  shows "handleWebhook E now r p = (200, p)"
  using assms by (simp add: handleWebhook_def readBody_def onDb_pair deliverySeen_def)

theorem webhook_replay_inert_witness:
  "handleWebhook demoHook 0 demoReq (demoState (demoGh [] [] \<lparr>deliveries := [(''d1'', [])]\<rparr>))
     = (200, demoState (demoGh [] [] \<lparr>deliveries := [(''d1'', [])]\<rparr>))"
  by (rule webhook_replay_inert [of _ _ "''b''"])
    (use demoHook_signed in \<open>simp_all add: demoState_def demoGh_def demoReq_def maxWebhookBody_def\<close>)

text \<open>The delivery is recorded before the purge it is meant to cause: when the first attempt fails in
  the purge (the fourth statement), GitHub is told 500, but its redelivery of the same id is
  then dropped with 200 and the stale node stays in the cache.\<close>

theorem webhook_failed_purge_lost:
  "let p = demoState ((demoGh [demoRow ''issue:o/r#5''] [])\<lparr>faults := [False, False, False, True]\<rparr>);
       (st1, p1) = handleWebhook demoHook 0 demoReq p;
       (st2, p2) = handleWebhook demoHook 1 demoReq p1
   in st1 = 500 \<and> st2 = 200 \<and> p2 = p1 \<and> nodeAt (db p2) ''issue:o/r#5'' = Some (demoRow ''issue:o/r#5'')"
proof -
  let ?s = "demoGh [demoRow ''issue:o/r#5''] [] \<lparr>deliveries := [(''d1'', rfc 0)]\<rparr>"
  have c: "composite ''issue:o/r#5'' = ''repo:o/r|issue''" by code_simp
  have 1: "handleWebhook demoHook 0 demoReq (demoState ((demoGh [demoRow ''issue:o/r#5''] [])\<lparr>faults := [False, False, False, True]\<rparr>))
      = (500, demoState ?s)"
    using demoHook_signed demoHook_event
    by (simp add: handleWebhook_def demoReq_def readBody_def maxWebhookBody_def onDb_pair deliverySeen_def markDelivery_def
        demoState_def demoGh_def applyEvent_def purge_def purgeOwn_def c stmt_def tblInsertIgnore_def Let_def)
  have 2: "handleWebhook demoHook 1 demoReq (demoState ?s) = (200, demoState ?s)"
    using demoHook_signed
    by (simp add: handleWebhook_def demoReq_def readBody_def maxWebhookBody_def onDb_pair deliverySeen_def demoState_def demoGh_def)
  have "nodeAt (db (demoState ?s)) ''issue:o/r#5'' = Some (demoRow ''issue:o/r#5'')"
    by (simp add: nodeAt_def demoState_def demoGh_def demoRow_def)
  then show ?thesis unfolding 1 2 Let_def prod.case by simp
qed

end
