(* ===== verification/GithubSync.thy ===== *)
theory GithubSync
  imports GithubWebhook
begin

text \<open>
  \<open>plugins/github/ingest.go\<close> and \<open>reconcile.go\<close>: redelivery of missed webhooks, the supervised
  \<open>gh webhook forward\<close> child with its backoff, the notifications poll, and the reconcile pass
  that discovers repositories, creates hooks, pulls by cursor and revalidates the cache. The
  endless loops are given by one round of theirs; paging is bounded by fuel.
\<close>

subsection \<open>Ingest\<close>

definition backoffInitial :: duration where
  "backoffInitial = 500 * millisecond"

definition backoffMax :: duration where
  "backoffMax = 30 * second"

text \<open>\<open>if backoff *= 2; backoff > backoffMax { backoff = backoffMax }\<close>, for a maximum \<open>m\<close>.\<close>

definition doubleBackoff :: "duration \<Rightarrow> duration \<Rightarrow> duration" where
  "doubleBackoff b m = (let b' = wrap64 (b * 2) in if b' > m then m else b')"

definition forwardArgs :: "'u ghEnv \<Rightarrow> string list option" where
  "forwardArgs E =
     (let c = cfg E;
          args = [''webhook'', ''forward'', ''--url'', selfURL c @ ''/plugins/github/webhook'',
                  ''--secret'', webhookSecret c, ''--events'', joinStr '','' (forwardEvents c)] in
      if forwardRepo c \<noteq> [] then Some (args @ [''--repo'', forwardRepo c])
      else if forwardOrg c \<noteq> [] then Some (args @ [''--org'', forwardOrg c])
      else None)"

definition decodeRows :: "'u ghEnv \<Rightarrow> string \<Rightarrow> obj list" where
  "decodeRows E body = (case unmarshal E body of Some (AArr xs) \<Rightarrow> map fieldsOf xs | _ \<Rightarrow> [])"

definition decodeDeliveries :: "'u ghEnv \<Rightarrow> string \<Rightarrow> (int \<times> string) list" where
  "decodeDeliveries E body = map (\<lambda>m. (jsonInt (jsonField m ''id''), jsonStr (jsonField m ''status''))) (decodeRows E body)"

text \<open>The loop over the deliveries of one hook: the running maximum and the attempts it asks for.\<close>

fun replay :: "'u ghEnv \<Rightarrow> string \<Rightarrow> int \<Rightarrow> (int \<times> string) list \<Rightarrow> int \<Rightarrow> 'u ghState \<Rightarrow> int \<times> 'u ghState" where
  "replay E base prev [] m p = (m, p)"
| "replay E base prev ((i, st) # ds) m p =
     (if i \<le> prev then replay E base prev ds m p
      else let p1 = (if st \<noteq> ''OK'' then snd (httpPOST E (base @ itoa i @ ''/attempts'') ANil p) else p)
           in replay E base prev ds (if i > m then i else m) p1)"

definition redeliverHook :: "'u ghEnv \<Rightarrow> string \<times> string \<times> string \<Rightarrow> 'u ghState \<Rightarrow> 'u ghState" where
  "redeliverHook E h p0 =
     (case h of (owner, repo, hookID) \<Rightarrow>
        (let cur = ''hook:'' @ owner @ ''/'' @ repo @ '':lastDeliveryId'';
             (v, p1) = onDb (cursor cur) p0;
             prev = atoiVal (atoi v);
             base = ''/repos/'' @ owner @ ''/'' @ repo @ ''/hooks/'' @ hookID @ ''/deliveries'';
             (res, p2) = httpGET E base [] p1 in
         case res of
           None \<Rightarrow> p2
         | Some (status, body, _) \<Rightarrow>
             if status \<noteq> 200 then p2
             else (case replay E (base @ ''/'') prev (decodeDeliveries E body) prev p2 of
                     (m, p3) \<Rightarrow> if m > prev then snd (onDb (setCursor cur (itoa m)) p3) else p3)))"

definition redeliver :: "'u ghEnv \<Rightarrow> 'u ghState \<Rightarrow> 'u ghState" where
  "redeliver E p =
     (case onDb hooks p of
        (Inl _, p1) \<Rightarrow> p1
      | (Inr hs, p1) \<Rightarrow> fold (redeliverHook E) hs p1)"

text \<open>One round of \<open>forwardSupervisor\<close>: the child to run, or \<open>None\<close> when the supervisor stops; then
  the pause and the next backoff.\<close>

definition forwardRound :: "'u ghEnv \<Rightarrow> duration \<Rightarrow> 'u ghState \<Rightarrow> (string list \<times> duration) option \<times> 'u ghState" where
  "forwardRound E backoff p =
     (let p1 = redeliver E p in
      if ghPath (cfg E) = [] then (None, p1)
      else case forwardArgs E of
             None \<Rightarrow> (None, p1)
           | Some args \<Rightarrow> (Some (args, doubleBackoff backoff backoffMax), p1\<lparr>slept := slept p1 @ [backoff]\<rparr>))"

definition pollOnce :: "'u ghEnv \<Rightarrow> 'u ghState \<Rightarrow> int \<times> 'u ghState" where
  "pollOnce E p =
     (let (ims, p1) = onDb (cursor ''notif:lastModified'') p;
          req = authorize (cfg E) \<lparr>reqMethod = ''GET'', reqURL = baseURL (cfg E) @ ''/notifications'', reqHeaders = [], reqBody = []\<rparr>;
          req' = (if ims \<noteq> [] then req\<lparr>reqHeaders := (''If-Modified-Since'', ims) # reqHeaders req\<rparr> else req);
          (resp, u) = Do E req' (net p1);
          p2 = p1\<lparr>net := u\<rparr> in
      case resp of
        None \<Rightarrow> (60, p2)
      | Some r \<Rightarrow>
          (let poll = (case atoi (header (respHeaders r) ''X-Poll-Interval'') of AtoiOk n \<Rightarrow> if n > 0 then n else 60 | _ \<Rightarrow> 60);
               lm = header (respHeaders r) ''Last-Modified'' in
           if respStatus r = 304 then (poll, p2)
           else (poll, if lm \<noteq> [] then snd (onDb (setCursor ''notif:lastModified'' lm) p2) else p2)))"

definition notificationsRound :: "'u ghEnv \<Rightarrow> 'u ghState \<Rightarrow> 'u ghState" where
  "notificationsRound E p = (let (poll, p1) = pollOnce E p in p1\<lparr>slept := slept p1 @ [durMul poll second]\<rparr>)"

subsection \<open>Reconcile\<close>

fun discoverRepos :: "'u ghEnv \<Rightarrow> nat \<Rightarrow> int \<Rightarrow> 'u ghState \<Rightarrow> (string list \<times> 'u ghState) option" where
  "discoverRepos E 0 page p = None"
| "discoverRepos E (Suc fuel) page p =
     (case httpGET E (''/user/repos?affiliation=owner&per_page=100&page='' @ itoa page) [] p of
        (None, p1) \<Rightarrow> Some ([], p1)
      | (Some (status, body, _), p1) \<Rightarrow>
          if status \<noteq> 200 then Some ([], p1)
          else (let rows = decodeRows E body;
                    names = filter (\<lambda>n. n \<noteq> []) (map (\<lambda>m. jsonStr (jsonField m ''full_name'')) rows) in
                if length rows < 100 then Some (names, p1)
                else map_option (\<lambda>(rs, p2). (names @ rs, p2)) (discoverRepos E fuel (wrap64 (page + 1)) p1)))"

definition hookAllowed :: "'u ghEnv \<Rightarrow> string \<Rightarrow> string \<Rightarrow> bool" where
  "hookAllowed E owner repo = list_ex (\<lambda>r. r = owner @ ''/'' @ repo) (hookRepos (cfg E))"

definition ensureHook :: "'u ghEnv \<Rightarrow> string \<Rightarrow> string \<Rightarrow> 'u ghState \<Rightarrow> 'u ghState" where
  "ensureHook E owner repo p =
     (case onDb (hook owner repo) p of
        (Some _, p1) \<Rightarrow> p1
      | (None, p1) \<Rightarrow>
          if \<not> hookAllowed E owner repo then p1
          else (let req = AObj [(''name'', AStr ''web''), (''events'', AArr [AStr ''*'']),
                      (''config'', AObj [(''url'', AStr (selfURL (cfg E) @ ''/plugins/github/webhook'')),
                          (''secret'', AStr (webhookSecret (cfg E))), (''content_type'', AStr ''json'')])];
                    (res, p2) = httpPOST E (''/repos/'' @ owner @ ''/'' @ repo @ ''/hooks'') req p1 in
                case res of
                  None \<Rightarrow> p2
                | Some (status, body) \<Rightarrow>
                    if status \<noteq> 201 then p2
                    else snd (onDb (putHook owner repo (jsonInt (jsonField (fieldsOf (decodeMap E body)) ''id''))) p2)))"

text \<open>\<open>url.QueryEscape\<close>.\<close>

definition QueryEscape :: "string \<Rightarrow> string" where
  "QueryEscape s = concat (map (\<lambda>c. if isLetter c \<or> isDigit c \<or> c \<in> set ''-_.~'' then [c] else if c = CHR '' '' then ''+''
     else [CHR ''%'', hexDigit (of_char c div 16), hexDigit (of_char c mod 16)]) s)"

definition sinceReconcile :: "'u ghEnv \<Rightarrow> instant \<Rightarrow> string \<Rightarrow> string \<Rightarrow> 'u ghState \<Rightarrow> 'u ghState" where
  "sinceReconcile E now owner repo p =
     (case map_of (ops E) ''openIssues'' of
        None \<Rightarrow> p
      | Some op \<Rightarrow>
          (let cur = ''since:'' @ owner @ ''/'' @ repo;
               (v, p1) = onDb (cursor cur) p;
               endpoint = graphqlURL (cfg E) @
                 (if v = [] then [] else case parseRFC3339 v of None \<Rightarrow> []
                    | Some t \<Rightarrow> ''?since='' @ QueryEscape (formatRFC3339 (t - 60 * second)));
               vars = [(''owner'', AStr owner), (''repo'', AStr repo)];
               (res, p2) = graphqlAt E now endpoint (opQuery op) vars p1 in
           case res of
             None \<Rightarrow> p2
           | Some data \<Rightarrow>
               (let (_, p3) = extractAll E now (opKeys op) vars data p2
                in snd (onDb (setCursor cur (formatRFC3339 now)) p3))))"

text \<open>The tally of a revalidation: checked, not modified, fetched, changed.\<close>

record tally =
  checked :: nat
  notModified :: nat
  fetched :: nat
  changed :: nat

definition count :: "(node option \<times> fetchOutcome) res \<Rightarrow> tally \<Rightarrow> tally" where
  "count r t =
     (let t1 = t\<lparr>checked := checked t + 1\<rparr> in
      case r of
        Inr (_, outcomeNotModified) \<Rightarrow> t1\<lparr>notModified := notModified t1 + 1\<rparr>
      | Inr (_, outcomeUnchanged) \<Rightarrow> t1\<lparr>fetched := fetched t1 + 1\<rparr>
      | Inr (_, outcomeChanged) \<Rightarrow> t1\<lparr>fetched := fetched t1 + 1, changed := changed t1 + 1\<rparr>
      | _ \<Rightarrow> t1)"

fun revalidateNodes :: "'u ghEnv \<Rightarrow> instant \<Rightarrow> node list \<Rightarrow> tally \<Rightarrow> 'u ghState \<Rightarrow> tally \<times> 'u ghState" where
  "revalidateNodes E now [] t p = (t, p)"
| "revalidateNodes E now (n # ns) t p =
     (let (r, p1) = fetchNode E now (nKey n) (Some n) p in revalidateNodes E now ns (count r t) p1)"

definition revalidate :: "'u ghEnv \<Rightarrow> instant \<Rightarrow> 'u ghState \<Rightarrow> tally \<times> 'u ghState" where
  "revalidate E now p =
     (let (res, p1) = onDb nonPinnedNodes p
      in revalidateNodes E now (case res of Inl _ \<Rightarrow> [] | Inr ns \<Rightarrow> ns) \<lparr>checked = 0, notModified = 0, fetched = 0, changed = 0\<rparr> p1)"

definition reconcileRepo :: "'u ghEnv \<Rightarrow> instant \<Rightarrow> string \<Rightarrow> 'u ghState \<Rightarrow> 'u ghState" where
  "reconcileRepo E now full p =
     (case cut CHR ''/'' full of
        (owner, repo, ok) \<Rightarrow> if \<not> ok then p else sinceReconcile E now owner repo (ensureHook E owner repo p))"

definition reconcileOnce :: "'u ghEnv \<Rightarrow> instant \<Rightarrow> nat \<Rightarrow> 'u ghState \<Rightarrow> 'u ghState option" where
  "reconcileOnce E now fuel p =
     (case discoverRepos E fuel 1 p of
        None \<Rightarrow> None
      | Some (repos, p1) \<Rightarrow>
          (let p2 = fold (reconcileRepo E now) repos p1;
               (_, p3) = revalidate E now p2;
               p4 = snd (onDb (pruneDeliveries (now - 7 * 24 * hour)) p3)
           in Some (snd (onDb (setCursor ''reconcile:cursor'' (formatRFC3339 now)) p4))))"

subsection \<open>Lemmas\<close>

lemma doubleBackoff_law: "0 < b \<Longrightarrow> b \<le> m \<Longrightarrow> m < 2 ^ 62 \<Longrightarrow> doubleBackoff b m = min (2 * b) m"
proof -
  assume "0 < b" "b \<le> m" "m < 2 ^ 62"
  then have "in64 (b * 2)" by (simp add: in64_def)
  then show ?thesis by (simp add: doubleBackoff_def wrap64_id Let_def min_def)
qed

interpretation ghbo: capped_backoff doubleBackoff
  by unfold_locales (rule doubleBackoff_law)

lemma replay_old: "\<forall>(i, st) \<in> set ds. i \<le> prev \<Longrightarrow> replay E base prev ds m p = (m, p)"
  by (induction ds) auto

lemma replay_frame: "db (snd (replay E base prev ds m p)) = db p"
  by (induction ds arbitrary: m p) (auto simp: Let_def)

lemma replay_max:
  "m \<le> fst (replay E base prev ds m p) \<and> (\<forall>(i, st) \<in> set ds. i \<le> max prev (fst (replay E base prev ds m p)))
     \<and> (fst (replay E base prev ds m p) = m \<or> fst (replay E base prev ds m p) \<in> fst ` set ds)"
proof (induction ds arbitrary: m p)
  case Nil
  then show ?case by simp
next
  case (Cons d ds)
  obtain i st where d: "d = (i, st)" by (cases d)
  define p1 where "p1 = (if st \<noteq> ''OK'' then snd (httpPOST E (base @ itoa i @ ''/attempts'') ANil p) else p)"
  show ?case
  proof (cases "i \<le> prev")
    case True
    with Cons.IH [of m p] show ?thesis by (auto simp: d)
  next
    case False
    define r where "r = fst (replay E base prev ds (if i > m then i else m) p1)"
    have r: "fst (replay E base prev (d # ds) m p) = r"
      using False by (simp add: d p1_def r_def Let_def)
    have IH: "(if i > m then i else m) \<le> r" "\<forall>(i, st) \<in> set ds. i \<le> max prev r"
      "r = (if i > m then i else m) \<or> r \<in> fst ` set ds"
      using Cons.IH [of "if i > m then i else m" p1] by (simp_all add: r_def)
    show ?thesis unfolding r using IH by (simp add: d split: if_splits) auto
  qed
qed

lemma replay_in64:
  assumes "in64 prev"
  shows "in64 (fst (replay E base prev (decodeDeliveries E body) prev p))"
  using replay_max [of prev E base prev "decodeDeliveries E body" p] assms by (auto simp: decodeDeliveries_def)

lemma cursor_no_faults [simp]:
  "faults s = [] \<Longrightarrow> cursor n s = (case cursorRow s n of None \<Rightarrow> [] | Some r \<Rightarrow> snd r, s)"
  by (simp add: cursor_def)

lemma cursorRow_put: "cursorRow (putCursor (n, v) s) k = (if k = n then Some (n, v) else cursorRow s k)"
  using cur.lookup_put [of "(n, v)" s k] by simp


lemma fetchSpec_emitted:
  assumes "fetchSpec E now key stored d em on r p'"
  shows "length (emitted p') = length em + (if on \<and> (\<exists>n. r = Inr (n, outcomeChanged)) then 1 else 0)"
  using assms by (auto simp: fetchSpec_def split: sum.splits prod.splits fetchOutcome.splits)

lemma fetchNode_emitOn: "emitOn (snd (fetchNode E now key stored p)) = emitOn p"
proof -
  have land: "emitOn (snd (landNode E now key st b t q)) = emitOn q" for st b t q
    by (auto simp: landNode_def Let_def onDb_pair emitUpdated_def split: sum.splits)
  show ?thesis
    by (auto simp: fetchNode_def Let_def case_prod_unfold onDb_pair land split: option.splits)
qed

lemma count_fields:
  "checked (count r t) = checked t + 1"
  "changed (count r t) = changed t + (if \<exists>n. r = Inr (n, outcomeChanged) then 1 else 0)"
  "notModified (count r t) + fetched (count r t) \<le> notModified t + fetched t + 1"
  "changed t \<le> fetched t \<Longrightarrow> changed (count r t) \<le> fetched (count r t)"
  by (auto simp: count_def Let_def split: sum.splits prod.splits fetchOutcome.splits)

lemma revalidateNodes_counts:
  "case revalidateNodes E now ns t p of (t', p') \<Rightarrow>
     checked t' = checked t + length ns
     \<and> notModified t' + fetched t' \<le> notModified t + fetched t + length ns
     \<and> (changed t \<le> fetched t \<longrightarrow> changed t' \<le> fetched t')
     \<and> (emitOn p \<longrightarrow> length (emitted p') + changed t = length (emitted p) + changed t')"
proof (induction ns arbitrary: t p)
  case Nil
  then show ?case by simp
next
  case (Cons n ns)
  obtain r p1 where f: "fetchNode E now (nKey n) (Some n) p = (r, p1)" by (cases "fetchNode E now (nKey n) (Some n) p")
  have on: "emitOn p1 = emitOn p" using fetchNode_emitOn [of E now "nKey n" "Some n" p] by (simp add: f)
  have e: "length (emitted p1) = length (emitted p) + (if emitOn p \<and> (\<exists>n. r = Inr (n, outcomeChanged)) then 1 else 0)"
    using fetchSpec_emitted [OF fetchNode_spec [OF f]] .
  obtain t' p' where rest: "revalidateNodes E now ns (count r t) p1 = (t', p')"
    by (cases "revalidateNodes E now ns (count r t) p1")
  show ?case
    using Cons.IH [of "count r t" p1] count_fields(1-3) [of r t] count_fields(4) [of t r] on e
    by (auto simp: f rest split: if_splits)
qed

subsection \<open>Properties\<close>

text \<open>The restarts of \<open>gh webhook forward\<close> back off exponentially and stay capped: the pause
  before restart \<open>n\<close> is 500 ms doubled \<open>n\<close> times, at most 30 s, with no overflow.\<close>

theorem forward_backoff:
  "((\<lambda>b. doubleBackoff b backoffMax) ^^ n) backoffInitial = min (backoffInitial * 2 ^ n) backoffMax"
  by (rule ghbo.iterate) (simp_all add: backoffInitial_def backoffMax_def millisecond_def second_def nsPerSec_def)

text \<open>Redelivery never goes back and never repeats itself: after a hook's deliveries were read,
  its cursor is at least what it was, no other cursor moved, and a second pass over the listing
  just answered asks for no further attempt.\<close>

theorem redelivery_monotone:
  assumes "faults (db p) = []"
  shows "let cn = ''hook:'' @ owner @ ''/'' @ repo @ '':lastDeliveryId'';
             base = ''/repos/'' @ owner @ ''/'' @ repo @ ''/hooks/'' @ hid @ ''/deliveries'';
             p' = redeliverHook E (owner, repo, hid) p;
             m = atoiVal (atoi (fst (cursor cn (db p)))); m' = atoiVal (atoi (fst (cursor cn (db p')))) in
     m \<le> m' \<and> (\<forall>n. n \<noteq> cn \<longrightarrow> cursorRow (db p') n = cursorRow (db p) n)
     \<and> (\<forall>body t q. fst (httpGET E base [] p) = Some (200, body, t) \<longrightarrow>
          replay E (base @ ''/'') m' (decodeDeliveries E body) m' q = (m', q))"
proof -
  define cn where "cn = ''hook:'' @ owner @ ''/'' @ repo @ '':lastDeliveryId''"
  define base where "base = ''/repos/'' @ owner @ ''/'' @ repo @ ''/hooks/'' @ hid @ ''/deliveries''"
  define m where "m = atoiVal (atoi (fst (cursor cn (db p))))"
  define p' where "p' = redeliverHook E (owner, repo, hid) p"
  define m' where "m' = atoiVal (atoi (fst (cursor cn (db p'))))"
  have m64: "in64 m" by (simp add: m_def)
  have c: "onDb (cursor cn) p = (fst (cursor cn (db p)), p)" using assms by (simp add: onDb_pair)
  obtain res p2 where g: "httpGET E base [] p = (res, p2)" by (cases "httpGET E base [] p")
  have p2: "db p2 = db p" using httpGET_fields(1) [of E base "[]" p] by (simp add: g)
  have def: "p' = (case res of None \<Rightarrow> p2 | Some (status, body, _) \<Rightarrow>
             if status \<noteq> 200 then p2
             else (case replay E (base @ ''/'') m (decodeDeliveries E body) m p2 of
                     (x, p3) \<Rightarrow> if x > m then snd (onDb (setCursor cn (itoa x)) p3) else p3))"
    unfolding p'_def redeliverHook_def prod.case cn_def [symmetric] base_def [symmetric] Let_def c m_def g ..
  show ?thesis
  proof (cases "\<exists>body t. res = Some (200, body, t)")
    case False
    then have "p' = p2" by (auto simp: def split: option.splits)
    with p2 False show ?thesis
      unfolding Let_def cn_def [symmetric] base_def [symmetric] p'_def [symmetric] m_def [symmetric] m'_def [symmetric]
      by (simp add: g m_def m'_def)
  next
    case True
    then obtain body t where r: "res = Some (200, body, t)" by blast
    obtain x p3 where x: "replay E (base @ ''/'') m (decodeDeliveries E body) m p2 = (x, p3)"
      by (cases "replay E (base @ ''/'') m (decodeDeliveries E body) m p2")
    have p3: "db p3 = db p" using replay_frame [of E "base @ ''/''" m "decodeDeliveries E body" m p2] p2 by (simp add: x)
    have x64: "in64 x" using replay_in64 [OF m64, of E "base @ ''/''" body p2] by (simp add: x)
    have mx: "m \<le> x" "\<forall>(i, st) \<in> set (decodeDeliveries E body). i \<le> x"
      using replay_max [of m E "base @ ''/''" m "decodeDeliveries E body" p2] by (auto simp: x max_def split: if_splits)
    have "db p' = (if x > m then putCursor (cn, itoa x) (db p) else db p)"
      using assms p3 by (simp add: def r x onDb_pair setCursor_def)
    then have m': "m' = x" and other: "\<forall>n. n \<noteq> cn \<longrightarrow> cursorRow (db p') n = cursorRow (db p) n"
      using assms x64 mx(1) by (auto simp: m'_def cursorRow_put m_def)
    have "replay E (base @ ''/'') m' (decodeDeliveries E body) m' q = (m', q)" for q
      by (rule replay_old) (use mx(2) m' in simp)
    with mx(1) m' other show ?thesis
      unfolding Let_def cn_def [symmetric] base_def [symmetric] p'_def [symmetric] m_def [symmetric] m'_def [symmetric]
      by (simp add: g r)
  qed
qed

theorem redelivery_monotone_witness:
  "let p = demoState (demoGh [] []); p' = redeliverHook demoOk (''o'', ''r'', ''1'') p
   in 0 \<le> atoiVal (atoi (fst (cursor ''hook:o/r:lastDeliveryId'' (db p'))))"
proof -
  have f: "faults (db (demoState (demoGh [] []))) = []" by (simp add: demoState_def demoGh_def)
  have z: "atoiVal (atoi (fst (cursor ''hook:o/r:lastDeliveryId'' (db (demoState (demoGh [] [])))))) = 0"
    by (simp add: demoState_def demoGh_def cursorRow_def atoi_def)
  from redelivery_monotone [where p = "demoState (demoGh [] [])" and owner = "''o''" and repo = "''r''" and E = demoOk and hid = "''1''", OF f] z show ?thesis by (simp add: Let_def)
qed

text \<open>No hook is created outside the allowlist: for a repository that is not listed (an empty
  list lists none), \<open>ensureHook\<close> makes no request and records nothing.\<close>

theorem hooks_need_allowlist:
  assumes "owner @ ''/'' @ repo \<notin> set (hookRepos (cfg E))"
  shows "net (ensureHook E owner repo p) = net p \<and> hooksTbl (db (ensureHook E owner repo p)) = hooksTbl (db p)
    \<and> nodes (db (ensureHook E owner repo p)) = nodes (db p)"
proof -
  obtain b fs where s: "stmt (db p) = (b, (db p)\<lparr>faults := fs\<rparr>)" by (rule stmt_obtain)
  have "\<not> hookAllowed E owner repo" using assms by (auto simp: hookAllowed_def list_ex_iff)
  then show ?thesis by (auto simp: ensureHook_def onDb_pair hook_def s split: option.splits)
qed

theorem hooks_need_allowlist_witness:
  "net (ensureHook demoOk ''o'' ''r'' (demoState (demoGh [] []))) = ()
   \<and> hooksTbl (db (ensureHook demoOk ''o'' ''r'' (demoState (demoGh [] [])))) = []"
  using hooks_need_allowlist [of "''o''" "''r''" demoOk "demoState (demoGh [] [])"]
  by (simp add: demoOk_def demoEnv_def ghNewConfig_def cfgStrs_def demoState_def demoGh_def)

text \<open>The tally of a revalidation is truthful: every cached node that is neither pinned nor a list is
  checked once, no node is counted twice among not-modified and fetched, the changed ones are
  among the fetched, and exactly one update event was emitted per changed node.\<close>

theorem revalidate_tally:
  "let (t, p') = revalidate E now p in
     (faults (db p) = [] \<longrightarrow> checked t = length (filter (\<lambda>r. \<not> rPinned r \<and> rTypename r \<noteq> ''_list'') (nodes (db p))))
     \<and> notModified t + fetched t \<le> checked t \<and> changed t \<le> fetched t
     \<and> (emitOn p \<longrightarrow> length (emitted p') = length (emitted p) + changed t)"
proof -
  obtain res p1 where r: "onDb nonPinnedNodes p = (res, p1)" by (cases "onDb nonPinnedNodes p")
  have p1: "emitOn p1 = emitOn p" "emitted p1 = emitted p"
    using onDb_fields [of nonPinnedNodes p] by (simp_all add: r)
  define ns where "ns = (case res of Inl _ \<Rightarrow> [] | Inr ns \<Rightarrow> ns)"
  define t0 where "t0 = \<lparr>checked = 0, notModified = 0, fetched = 0, changed = 0\<rparr>"
  obtain t p' where rv: "revalidateNodes E now ns t0 p1 = (t, p')" by (cases "revalidateNodes E now ns t0 p1")
  have "faults (db p) = [] \<Longrightarrow> length ns = length (filter (\<lambda>r. \<not> rPinned r \<and> rTypename r \<noteq> ''_list'') (nodes (db p)))"
    using r by (auto simp: onDb_pair nonPinnedNodes_def ns_def)
  then show ?thesis
    using revalidateNodes_counts [where E = E and now = now and ns = ns and t = t0 and p = p1] p1
    by (auto simp: revalidate_def r ns_def [symmetric] t0_def [symmetric] rv) (auto simp: t0_def)
qed

theorem revalidate_tally_witness:
  "let (t, p') = revalidate demoEnv 0 (demoState (demoGh [demoRow ''issue:o/r#5''] [])) in
     checked t = 1 \<and> length (emitted p') = changed t"
  using revalidate_tally [of demoEnv 0 "demoState (demoGh [demoRow ''issue:o/r#5''] [])"]
  by (auto simp: demoState_def demoGh_def demoRow_def nodeToRow_def)

text \<open>C33. Repository discovery ends: if some page comes back short, empty or with an error whenever it
  is asked for, the paging loop returns after at most that many pages.\<close>

theorem discovery_terminates:
  assumes "\<And>q. case fst (httpGET E (''/user/repos?affiliation=owner&per_page=100&page='' @ itoa (int k)) [] q) of
       Some (status, body, _) \<Rightarrow> status = 200 \<longrightarrow> length (decodeRows E body) < 100 | None \<Rightarrow> True"
    and "1 \<le> n" and "n \<le> k" and "int k < 2 ^ 62" and "k - n < fuel"
  shows "\<exists>repos p'. discoverRepos E fuel (int n) p = Some (repos, p')"
  using assms(2,3,5)
proof (induction fuel arbitrary: n p)
  case 0
  then show ?case by simp
next
  case (Suc fuel)
  obtain res p1 where g: "httpGET E (''/user/repos?affiliation=owner&per_page=100&page='' @ itoa (int n)) [] p = (res, p1)"
    by (cases "httpGET E (''/user/repos?affiliation=owner&per_page=100&page='' @ itoa (int n)) [] p")
  show ?case
  proof (cases "n = k")
    case True
    with assms(1) [of p] g show ?thesis by (auto simp: Let_def split: option.splits prod.splits)
  next
    case False
    then have w: "wrap64 (int n + 1) = int n + 1"
      using Suc.prems assms(4) by (subst wrap64_id) (auto simp: in64_def)
    have "\<exists>repos p'. discoverRepos E fuel (int (Suc n)) p1 = Some (repos, p')"
      using Suc.prems False by (intro Suc.IH) auto
    then obtain repos p' where "discoverRepos E fuel (wrap64 (int n + 1)) p1 = Some (repos, p')"
      unfolding w by (auto simp: add.commute)
    with g [simplified] show ?thesis by (auto simp: Let_def split: option.splits prod.splits)
  qed
qed

theorem discovery_terminates_witness:
  "\<exists>repos p'. discoverRepos demoEnv 1 1 (demoState (demoGh [] [])) = Some (repos, p')"
  using discovery_terminates [of demoEnv 1 1 1 "demoState (demoGh [] [])"]
  by (simp add: httpGET_def demoEnv_def)

end
