(* ===== verification/GithubQuery.thy ===== *)
theory GithubQuery
  imports GithubSync
begin

text \<open>
  \<open>plugins/github/query.go\<close>: the typed reads over the cache that the graph resolvers call. The
  key is authoritative for identity, the stored body for the mutable fields; a read never
  leaves the store. The current instance is \<open>None\<close> before \<open>New\<close> and \<open>Migrate\<close> have run. The
  memo of an issue's branches hangs off the node behind a pointer; \<open>Branches\<close> passes its state.
\<close>

record IssueNode =
  iOwner :: string
  iRepo :: string
  iNumber :: int
  iTitle :: string
  iState :: string
  iURL :: string
  iUpdatedAt :: "instant option"
  iLabels :: "string list"
  iAssignees :: "string list"

type_synonym issueMemo = "string set option"

text \<open>\<open>sync.Once\<close>: the first caller's \<open>compute\<close> fills the memo.\<close>

definition Branches :: "(unit \<Rightarrow> string set) \<Rightarrow> issueMemo \<Rightarrow> string set \<times> issueMemo" where
  "Branches compute m = (case m of Some b \<Rightarrow> (b, m) | None \<Rightarrow> let b = compute () in (b, Some b))"

record PRNode =
  prOwner :: string
  prRepo :: string
  prNumber :: int
  prTitle :: string
  prState :: string
  prURL :: string
  prUpdatedAt :: "instant option"
  prLabels :: "string list"
  prHeadRefName :: string
  prBaseRefName :: "string option"
  prBody :: string
  prDraft :: bool
  prReviewDecision :: "string option"
  prStatusCheckRollup :: "string option"
  prMergeStateStatus :: "string option"

text \<open>\<open>nodeJSON\<close>; \<open>jCommits\<close> are the rollups of \<open>commits.nodes\<close>, \<open>None\<close> for a null rollup.\<close>

record nodeJSON =
  jTitle :: string
  jState :: string
  jURL :: string
  jUpdatedAt :: string
  jBody :: string
  jHeadRef :: string
  jBaseRef :: string
  jIsDraft :: bool
  jReviewDec :: string
  jMergeSt :: string
  jCommits :: "string option list"
  jLabels :: "string list"
  jAssignees :: "string list"

definition nodesOf :: "obj \<Rightarrow> string \<Rightarrow> obj list" where
  "nodesOf m f = map fieldsOf (jsonArr (jsonField (fieldsOf (jsonField m f)) ''nodes''))"

definition decodeNode :: "'u ghEnv \<Rightarrow> string \<Rightarrow> nodeJSON" where
  "decodeNode E raw =
     (let m = fieldsOf (decodeMap E raw); str = (\<lambda>f. jsonStr (jsonField m f)) in
      \<lparr>jTitle = str ''title'', jState = str ''state'', jURL = str ''url'', jUpdatedAt = str ''updatedAt'',
       jBody = str ''body'', jHeadRef = str ''headRefName'', jBaseRef = str ''baseRefName'',
       jIsDraft = jsonBool (jsonField m ''isDraft''), jReviewDec = str ''reviewDecision'',
       jMergeSt = str ''mergeStateStatus'',
       jCommits = map (\<lambda>c. map_option (\<lambda>r. jsonStr (jsonField r ''state''))
                    (asObj (jsonField (fieldsOf (jsonField c ''commit'')) ''statusCheckRollup''))) (nodesOf m ''commits''),
       jLabels = map (\<lambda>l. jsonStr (jsonField l ''name'')) (nodesOf m ''labels''),
       jAssignees = map (\<lambda>a. jsonStr (jsonField a ''login'')) (nodesOf m ''assignees'')\<rparr>)"

definition keyParts :: "string \<Rightarrow> string \<times> string \<times> int" where
  "keyParts key = (let p = parseKey key in (part p ''owner'', part p ''repo'', atoiVal (atoi (part p ''disc''))))"

definition labelsOf :: "nodeJSON \<Rightarrow> string list" where
  "labelsOf j = jLabels j"

definition assigneesOf :: "nodeJSON \<Rightarrow> string list" where
  "assigneesOf j = jAssignees j"

definition parseUpdated :: "string \<Rightarrow> instant option" where
  "parseUpdated s = parseRFC3339 s"

definition mapIssue :: "'u ghEnv \<Rightarrow> string \<Rightarrow> string \<Rightarrow> IssueNode" where
  "mapIssue E key raw =
     (let j = decodeNode E raw; (owner, repo, number) = keyParts key in
      \<lparr>iOwner = owner, iRepo = repo, iNumber = number, iTitle = jTitle j, iState = jState j, iURL = jURL j,
       iUpdatedAt = parseUpdated (jUpdatedAt j), iLabels = labelsOf j, iAssignees = assigneesOf j\<rparr>)"

definition safeKey :: "string \<Rightarrow> bool" where
  "safeKey key = (let p = parseKey key in safeName (part p ''owner'') \<and> safeName (part p ''repo''))"

definition ptrIf :: "string \<Rightarrow> string option" where
  "ptrIf s = (if s = [] then None else Some s)"

definition mapPR :: "'u ghEnv \<Rightarrow> string \<Rightarrow> string \<Rightarrow> PRNode" where
  "mapPR E key raw =
     (let j = decodeNode E raw; (owner, repo, number) = keyParts key in
      \<lparr>prOwner = owner, prRepo = repo, prNumber = number, prTitle = jTitle j, prState = jState j, prURL = jURL j,
       prUpdatedAt = parseUpdated (jUpdatedAt j), prLabels = labelsOf j, prHeadRefName = jHeadRef j,
       prBaseRefName = (if jBaseRef j \<noteq> [] then Some (jBaseRef j) else None), prBody = jBody j,
       prDraft = jIsDraft j, prReviewDecision = ptrIf (jReviewDec j),
       prStatusCheckRollup = (case jCommits j of Some st # _ \<Rightarrow> ptrIf st | _ \<Rightarrow> None),
       prMergeStateStatus = ptrIf (jMergeSt j)\<rparr>)"

text \<open>\<open>p.store.get\<close> with its error dropped.\<close>

definition getOrNil :: "string \<Rightarrow> github_db \<Rightarrow> node option \<times> github_db" where
  "getOrNil key s = (case getNode key s of (Inl _, s1) \<Rightarrow> (None, s1) | (Inr n, s1) \<Rightarrow> (n, s1))"

definition Issue :: "'u ghEnv \<Rightarrow> string \<Rightarrow> github_db single_ptr \<Rightarrow> IssueNode option \<times> github_db single_ptr" where
  "Issue E key cur =
     (case singleGet cur of
        None \<Rightarrow> (None, cur)
      | Some s \<Rightarrow>
          if kindOf key \<noteq> ''issue'' \<or> \<not> safeKey key then (None, cur)
          else (case getOrNil key s of
                  (None, s1) \<Rightarrow> (None, singleSet s1 cur)
                | (Some n, s1) \<Rightarrow> (Some (mapIssue E key (nJSON n)), singleSet s1 cur)))"

definition PullRequest :: "'u ghEnv \<Rightarrow> string \<Rightarrow> github_db single_ptr \<Rightarrow> PRNode option \<times> github_db single_ptr" where
  "PullRequest E key cur =
     (case singleGet cur of
        None \<Rightarrow> (None, cur)
      | Some s \<Rightarrow>
          if kindOf key \<noteq> ''pr'' \<or> \<not> safeKey key then (None, cur)
          else (case getOrNil key s of
                  (None, s1) \<Rightarrow> (None, singleSet s1 cur)
                | (Some n, s1) \<Rightarrow> (Some (mapPR E key (nJSON n)), singleSet s1 cur)))"

definition IssuesForRepo ::
  "'u ghEnv \<Rightarrow> string \<Rightarrow> string \<Rightarrow> github_db single_ptr \<Rightarrow> IssueNode list \<times> github_db single_ptr" where
  "IssuesForRepo E owner repo cur =
     (case singleGet cur of
        None \<Rightarrow> ([], cur)
      | Some s \<Rightarrow>
          if \<not> safeName owner \<or> \<not> safeName repo then ([], cur)
          else (case nodesByKind ''issue'' (owner @ ''/'' @ repo) s of
                  (Inl _, s1) \<Rightarrow> ([], singleSet s1 cur)
                | (Inr ns, s1) \<Rightarrow> (map (\<lambda>(k, j). mapIssue E k j) ns, singleSet s1 cur)))"

definition CachedPRs ::
  "'u ghEnv \<Rightarrow> string \<Rightarrow> string \<Rightarrow> github_db single_ptr \<Rightarrow> PRNode list \<times> github_db single_ptr" where
  "CachedPRs E owner repo cur =
     (case singleGet cur of
        None \<Rightarrow> ([], cur)
      | Some s \<Rightarrow>
          if \<not> safeName owner \<or> \<not> safeName repo then ([], cur)
          else (case nodesByKind ''pr'' (owner @ ''/'' @ repo) s of
                  (Inl _, s1) \<Rightarrow> ([], singleSet s1 cur)
                | (Inr ns, s1) \<Rightarrow> (map (\<lambda>(k, j). mapPR E k j) ns, singleSet s1 cur)))"

subsection \<open>Lemmas\<close>

lemma Branches_once: "fst (Branches f (snd (Branches g m))) = fst (Branches g m)"
  by (auto simp: Branches_def Let_def split: option.splits)

lemma scopeName_safe: "scopeName s \<Longrightarrow> safeName s"
  by (simp add: scopeName_def)

lemma itoa_no_seps: "CHR ''/'' \<notin> set (itoa n)" "CHR ''@'' \<notin> set (itoa n)"
  using set_itoa [of "CHR ''/''" n] set_itoa [of "CHR ''@''" n] by (auto simp: isDigit_def)

lemma keyParts_objKey:
  assumes "(k, sep) \<in> set keySep" "scopeName o'" "scopeName r" "in64 n"
  shows "keyParts (objKey k sep o' r (itoa n)) = (o', r, n)"
  using assms(4) by (simp add: keyParts_def Let_def parseKey_objKey [OF assms(1-3)] itoa_no_seps)

lemma safeKey_objKey:
  assumes "(k, sep) \<in> set keySep" "scopeName o'" "scopeName r"
  shows "safeKey (objKey k sep o' r d)"
  using assms(2,3) by (simp add: safeKey_def Let_def parseKey_objKey [OF assms] scopeName_safe)

lemma mapIssue_key:
  "iOwner (mapIssue E key raw) = fst (keyParts key)" "iRepo (mapIssue E key raw) = fst (snd (keyParts key))"
  "iNumber (mapIssue E key raw) = snd (snd (keyParts key))"
  by (simp_all add: mapIssue_def Let_def split: prod.splits)

subsection \<open>Properties\<close>

text \<open>A cached issue reads back under its identity: what was stored for issue \<open>n\<close> of \<open>o/r\<close> is
  returned with exactly that owner, repository and number, whatever its body claims, with the
  body's title and state, and the read leaves the store as it was; a key of another kind
  returns nothing.\<close>

theorem issue_reads_back:
  assumes "scopeName o'" "scopeName r" "in64 n" "faults s = []"
    and "nKey nd = objKey ''issue'' CHR ''#'' o' r (itoa n)"
  shows "(\<exists>i. Issue E (nKey nd) (Some (snd (upsert nd s))) = (Some i, Some (snd (upsert nd s)))
      \<and> iOwner i = o' \<and> iRepo i = r \<and> iNumber i = n
      \<and> iTitle i = jTitle (decodeNode E (nJSON nd)) \<and> iState i = jState (decodeNode E (nJSON nd)))
    \<and> PullRequest E (nKey nd) (Some (snd (upsert nd s))) = (None, Some (snd (upsert nd s)))"
proof (intro conjI exI [of _ "mapIssue E (nKey nd) (nJSON nd)"])
  have k: "(''issue'', CHR ''#'') \<in> set keySep" by (simp add: keySep_def)
  have parts: "keyParts (nKey nd) = (o', r, n)" "kindOf (nKey nd) = ''issue''" "safeKey (nKey nd)"
    using keyParts_objKey [OF k assms(1-3)] kindOf_objKey [OF k] safeKey_objKey [OF k assms(1,2)] assms(5) by simp_all
  have get: "nodeAt (putNode (nodeToRow nd) s) (nKey nd) = Some (nodeToRow nd)"
    using gh.lookup_put [of "nodeToRow nd" s "nKey nd"] by simp
  have "getOrNil (nKey nd) (putNode (nodeToRow nd) s) = (Some (rowNode (nodeToRow nd)), putNode (nodeToRow nd) s)"
    using assms(4) get by (simp add: getOrNil_def)
  then show "Issue E (nKey nd) (Some (snd (upsert nd s)))
      = (Some (mapIssue E (nKey nd) (nJSON nd)), Some (snd (upsert nd s)))"
    using assms(4) parts by (simp add: Issue_def singleGet_def singleSet_def rowNode_def nodeToRow_def)
  show "PullRequest E (nKey nd) (Some (snd (upsert nd s))) = (None, Some (snd (upsert nd s)))"
    using parts by (simp add: PullRequest_def singleGet_def)
  show "iOwner (mapIssue E (nKey nd) (nJSON nd)) = o'" "iRepo (mapIssue E (nKey nd) (nJSON nd)) = r"
    "iNumber (mapIssue E (nKey nd) (nJSON nd)) = n"
    using parts by (simp_all add: mapIssue_key)
  show "iTitle (mapIssue E (nKey nd) (nJSON nd)) = jTitle (decodeNode E (nJSON nd))"
    "iState (mapIssue E (nKey nd) (nJSON nd)) = jState (decodeNode E (nJSON nd))"
    by (simp_all add: mapIssue_def Let_def split: prod.splits)
qed

theorem issue_reads_back_witness:
  "\<exists>i cur. Issue demoEnv ''issue:o/r#5'' (Some (snd (upsert (rowNode (demoRow ''issue:o/r#5'')) (demoGh [] [])))) = (Some i, cur)
     \<and> iNumber i = 5"
proof -
  have n: "scopeName ''o''" "scopeName ''r''" "in64 5" by code_simp+
  have itoa5: "itoa 5 = ''5''" by code_simp
  have k: "nKey (rowNode (demoRow ''issue:o/r#5'')) = objKey ''issue'' CHR ''#'' ''o'' ''r'' (itoa 5)"
    by (simp add: rowNode_def demoRow_def nodeToRow_def objKey_def itoa5)
  have k': "nKey (rowNode (demoRow ''issue:o/r#5'')) = ''issue:o/r#5''"
    by (simp add: rowNode_def demoRow_def nodeToRow_def)
  have f: "faults (demoGh [] []) = []" by (simp add: demoGh_def)
  from issue_reads_back [OF n f k, of demoEnv] show ?thesis unfolding k' by blast
qed

end
