(* ===== verification/PeerStore.thy ===== *)
theory PeerStore
  imports CoreStore GoValue
begin

text \<open>
  \<open>plugins/peer/store.go\<close>: the mirror (\<open>peer_nodes\<close>) and the liveness rows (\<open>peer_state\<close>) of the
  peer plugin. A \<open>float64\<close> lag is the decimal \<open>(m, k)\<close>; a NULL column is \<open>None\<close>. SQLite compares
  the \<open>TEXT\<close> times byte by byte.
\<close>

record mnodeRow =
  mrKey :: string
  mrHost :: string
  mrJSON :: string
  mrSeen :: string

record stateRow =
  srHost :: string
  srURL :: string
  srSeen :: "string option"
  srStale :: "string option"
  srLag :: "int \<times> nat"

record peer_db = core_db +
  peerNodes :: "mnodeRow list"
  peerStates :: "stateRow list"

definition peerMigrate :: "'a peer_db_scheme \<Rightarrow> unit res \<times> 'a peer_db_scheme" where
  "peerMigrate s =
     (let (ok, s1) = stmt s in
      if \<not> ok then (Inl ''peer: migrate'', s1)
      else (Inr (), fold createTable [''peer_nodes'', ''peer_state''] s1))"

record mirroredNode =
  mnKey :: string
  mnHost :: string
  mnJSON :: string
  mnLastSeenAt :: instant

definition mnRow :: "mirroredNode \<Rightarrow> mnodeRow" where
  "mnRow n = \<lparr>mrKey = mnKey n, mrHost = mnHost n, mrJSON = mnJSON n, mrSeen = formatRFC3339Nano (mnLastSeenAt n)\<rparr>"

definition upsertNode :: "mirroredNode \<Rightarrow> 'a peer_db_scheme \<Rightarrow> unit res \<times> 'a peer_db_scheme" where
  "upsertNode n s =
     (let (ok, s1) = stmt s in
      if \<not> ok then (Inl (''peer: upsert '' @ mnKey n), s1)
      else (Inr (), s1\<lparr>peerNodes := tblUpsert mrKey (mnRow n) (peerNodes s1)\<rparr>))"

text \<open>A time that does not parse reads as the zero time.\<close>

definition timeOrZero :: "string \<Rightarrow> instant" where
  "timeOrZero t = (case parseRFC3339 t of None \<Rightarrow> - 62135596800 * 1000000000 | Some x \<Rightarrow> x)"

definition scanMirrored :: "mnodeRow \<Rightarrow> mirroredNode" where
  "scanMirrored r = \<lparr>mnKey = mrKey r, mnHost = mrHost r, mnJSON = mrJSON r, mnLastSeenAt = timeOrZero (mrSeen r)\<rparr>"

definition nodesForHost :: "string \<Rightarrow> 'a peer_db_scheme \<Rightarrow> mirroredNode list res \<times> 'a peer_db_scheme" where
  "nodesForHost host s =
     (let (ok, s1) = stmt s in
      if \<not> ok then (Inl (''peer: nodesForHost '' @ host), s1)
      else (Inr (map scanMirrored (sort_key mrKey (filter (\<lambda>r. mrHost r = host) (peerNodes s1)))), s1))"

definition purgeStale :: "string \<Rightarrow> instant \<Rightarrow> 'a peer_db_scheme \<Rightarrow> unit res \<times> 'a peer_db_scheme" where
  "purgeStale host cutoff s =
     (let (ok, s1) = stmt s in
      if \<not> ok then (Inl ''delete'', s1)
      else (Inr (), s1\<lparr>peerNodes :=
              tblDelete (\<lambda>r. mrHost r = host \<and> mrSeen r < formatRFC3339Nano cutoff) (peerNodes s1)\<rparr>))"

definition countForHost :: "string \<Rightarrow> 'a peer_db_scheme \<Rightarrow> int res \<times> 'a peer_db_scheme" where
  "countForHost host s =
     (let (ok, s1) = stmt s in
      if \<not> ok then (Inl ''count'', s1) else (Inr (int (length (filter (\<lambda>r. mrHost r = host) (peerNodes s1)))), s1))"

record peerState =
  psHost :: string
  psURL :: string
  psLastSeenAt :: "instant option"
  psStaleSince :: "instant option"
  psLagSeconds :: "int \<times> nat"

definition initState :: "string \<Rightarrow> string \<Rightarrow> 'a peer_db_scheme \<Rightarrow> unit res \<times> 'a peer_db_scheme" where
  "initState host url s =
     (let (ok, s1) = stmt s in
      if \<not> ok then (Inl ''insert'', s1)
      else (Inr (), s1\<lparr>peerStates := tblInsertIgnore srHost
             \<lparr>srHost = host, srURL = url, srSeen = None, srStale = None, srLag = (0, 0)\<rparr> (peerStates s1)\<rparr>))"

text \<open>The two updates as functions of the text they store.\<close>

definition rowSeen :: "int \<times> nat \<Rightarrow> string \<Rightarrow> string \<Rightarrow> 'a peer_db_scheme \<Rightarrow> 'a peer_db_scheme" where
  "rowSeen lag host t s = s\<lparr>peerStates :=
     tblUpdate (\<lambda>r. srHost r = host) (\<lambda>r. r\<lparr>srSeen := Some t, srStale := None, srLag := lag\<rparr>) (peerStates s)\<rparr>"

definition rowStale :: "string \<Rightarrow> string \<Rightarrow> 'a peer_db_scheme \<Rightarrow> 'a peer_db_scheme" where
  "rowStale host t s = s\<lparr>peerStates :=
     tblUpdate (\<lambda>r. srHost r = host \<and> srStale r = None) (\<lambda>r. r\<lparr>srStale := Some t\<rparr>) (peerStates s)\<rparr>"

definition markSeen :: "string \<Rightarrow> instant \<Rightarrow> int \<times> nat \<Rightarrow> 'a peer_db_scheme \<Rightarrow> unit res \<times> 'a peer_db_scheme" where
  "markSeen host tm lag s =
     (let (ok, s1) = stmt s in
      if \<not> ok then (Inl ''update'', s1) else (Inr (), rowSeen lag host (formatRFC3339Nano tm) s1))"

definition markStale :: "string \<Rightarrow> instant \<Rightarrow> 'a peer_db_scheme \<Rightarrow> bool res \<times> 'a peer_db_scheme" where
  "markStale host tm s =
     (let (ok, s1) = stmt s in
      if \<not> ok then (Inl ''update'', s1)
      else (Inr (list_ex (\<lambda>r. srHost r = host \<and> srStale r = None) (peerStates s1)),
            rowStale host (formatRFC3339Nano tm) s1))"

definition parseNullTime :: "string option \<Rightarrow> instant option" where
  "parseNullTime t = (case t of None \<Rightarrow> None | Some x \<Rightarrow> if x = [] then None else parseRFC3339 x)"

definition scanState :: "stateRow \<Rightarrow> peerState" where
  "scanState r = \<lparr>psHost = srHost r, psURL = srURL r, psLastSeenAt = parseNullTime (srSeen r),
     psStaleSince = parseNullTime (srStale r), psLagSeconds = srLag r\<rparr>"

definition state :: "string \<Rightarrow> 'a peer_db_scheme \<Rightarrow> peerState res \<times> 'a peer_db_scheme" where
  "state host s =
     (let (ok, s1) = stmt s in
      if \<not> ok then (Inl ''select'', s1)
      else case tblGet srHost host (peerStates s1) of
             None \<Rightarrow> (Inl ''sql: no rows in result set'', s1)
           | Some r \<Rightarrow> (Inr (scanState r), s1))"

definition states :: "'a peer_db_scheme \<Rightarrow> peerState list res \<times> 'a peer_db_scheme" where
  "states s =
     (let (ok, s1) = stmt s in
      if \<not> ok then (Inl ''select'', s1) else (Inr (map scanState (sort_key srHost (peerStates s1))), s1))"

subsection \<open>Lemmas\<close>

definition staleText :: "'a peer_db_scheme \<Rightarrow> string \<Rightarrow> string option" where
  "staleText s host = Option.bind (tblGet srHost host (peerStates s)) srStale"

definition trackedHost :: "'a peer_db_scheme \<Rightarrow> string \<Rightarrow> bool" where
  "trackedHost s host = tblHas srHost host (peerStates s)"

lemma get_rowSeen:
  "tblGet srHost k (peerStates (rowSeen lag h t s))
     = map_option (\<lambda>r. if k = h then r\<lparr>srSeen := Some t, srStale := None, srLag := lag\<rparr> else r) (tblGet srHost k (peerStates s))"
  by (cases "tblGet srHost k (peerStates s)") (auto simp: rowSeen_def tblGet_update dest: tblGet_SomeD)

lemma get_rowStale:
  "tblGet srHost k (peerStates (rowStale h t s))
     = map_option (\<lambda>r. if k = h \<and> srStale r = None then r\<lparr>srStale := Some t\<rparr> else r) (tblGet srHost k (peerStates s))"
  by (cases "tblGet srHost k (peerStates s)") (auto simp: rowStale_def tblGet_update dest: tblGet_SomeD)

lemma tracked_rows [simp]:
  "trackedHost (rowSeen lag h t s) k = trackedHost s k" "trackedHost (rowStale h t s) k = trackedHost s k"
  by (simp_all add: trackedHost_def tblHas_Some get_rowSeen get_rowStale)

lemma staleText_rowSeen: "staleText (rowSeen lag h t s) k = (if k = h then None else staleText s k)"
  by (cases "tblGet srHost k (peerStates s)") (simp_all add: staleText_def get_rowSeen)

lemma staleText_rowStale:
  "trackedHost s k \<Longrightarrow> staleText (rowStale h t s) k = (if k = h \<and> staleText s k = None then Some t else staleText s k)"
  by (cases "tblGet srHost k (peerStates s)") (simp_all add: staleText_def trackedHost_def tblHas_Some get_rowStale)

interpretation pst: stale_marks staleText trackedHost rowStale "rowSeen lag"
  by unfold_locales (simp_all add: staleText_rowStale staleText_rowSeen)

lemma row_frames [simp]:
  "peerNodes (rowSeen lag h t s) = peerNodes s" "peerNodes (rowStale h t s) = peerNodes s"
  "faults (rowSeen lag h t s) = faults s" "faults (rowStale h t s) = faults s"
  by (simp_all add: rowSeen_def rowStale_def)

lemma stale_rows:
  assumes "tblInv srHost (peerStates s)" "trackedHost s h"
  shows "list_ex (\<lambda>r. srHost r = h \<and> srStale r = None) (peerStates s) \<longleftrightarrow> staleText s h = None"
proof -
  obtain r where r: "tblGet srHost h (peerStates s) = Some r" using assms(2) by (auto simp: trackedHost_def tblHas_Some)
  have "\<forall>x. x \<in> set (peerStates s) \<and> srHost x = h \<longleftrightarrow> x = r"
    unfolding tblInv_get [OF assms(1), of h, symmetric] r by auto
  then show ?thesis unfolding list_ex_iff staleText_def r bind.simps by metis
qed

lemma markStale_no_faults:
  "faults s = [] \<Longrightarrow> trackedHost s h \<Longrightarrow> tblInv srHost (peerStates s) \<Longrightarrow>
     markStale h tm s = (Inr (staleText s h = None), rowStale h (formatRFC3339Nano tm) s)"
  by (simp add: markStale_def stale_rows)

lemma markSeen_no_faults: "faults s = [] \<Longrightarrow> markSeen h tm lag s = (Inr (), rowSeen lag h (formatRFC3339Nano tm) s)"
  by (simp add: markSeen_def)

lemma nodesForHost_set:
  "fst (nodesForHost h s) = Inr ns \<Longrightarrow> set ns = scanMirrored ` {r \<in> set (peerNodes s). mrHost r = h}"
  by (cases s rule: stmt_obtain) (auto simp: nodesForHost_def split: if_splits)

end
