(* ===== verification/Peer.thy ===== *)
theory Peer
  imports PeerStore GoHttp Interfaces
begin

text \<open>
  The peer plugin (\<open>plugins/peer\<close>): configuration, the outbound client, the pull-through mirror
  with its two loop guards, the executor handler, the liveness loop and the read the graph
  uses. The remote machine is the world \<open>'u\<close> behind \<open>pDo\<close>; the JSON codec instances the
  plugin uses are arguments. A \<open>float64\<close> product is taken exactly before it is truncated.
\<close>

record peerCfg =
  pcHostID :: string
  pcURL :: string
  pcToken :: string

record peerConfig =
  hostID :: string
  peers :: "peerCfg list"
  staleThreshold :: duration
  peerBackoffMax :: duration
  mirrorTTL :: duration
  remotePlugin :: string

definition parsePeers :: "obj option \<Rightarrow> peerCfg list" where
  "parsePeers raw =
     (case raw of None \<Rightarrow> []
      | Some m \<Rightarrow>
          (case asArr (at m ''peers'') of None \<Rightarrow> []
           | Some l \<Rightarrow> filter (\<lambda>pr. pcHostID pr \<noteq> [] \<and> pcURL pr \<noteq> [])
               (map (\<lambda>e. \<lparr>pcHostID = cfgStr (Some e) ''hostId'' [], pcURL = cfgStr (Some e) ''url'' [],
                          pcToken = cfgStr (Some e) ''token'' []\<rparr>) (List.map_filter asObj l))))"

definition numDuration :: "obj option \<Rightarrow> string \<Rightarrow> duration \<Rightarrow> duration" where
  "numDuration raw k def = (let (m, e) = cfgNum raw k (0, 0) in if m > 0 then floatTrunc (m * second) e else def)"

definition peerNew :: "string \<Rightarrow> obj option \<Rightarrow> peerConfig" where
  "peerNew host raw = \<lparr>hostID = host, peers = parsePeers raw,
     staleThreshold = numDuration raw ''staleThresholdSeconds'' (30 * second),
     peerBackoffMax = numDuration raw ''backoffMaxSeconds'' (60 * second),
     mirrorTTL = numDuration raw ''mirrorTTLSeconds'' 0,
     remotePlugin = cfgStr raw ''remotePlugin'' []\<rparr>"

text \<open>The fixed surroundings: \<open>decodeResult\<close> and \<open>decodeOp\<close> are \<open>json.Unmarshal\<close> into \<open>remoteResult\<close>
  (\<open>None\<close> on an error) and the decoder of the executor's request over the bytes it may read.\<close>

record opReq =
  orOp :: string
  orHost :: string
  orVars :: obj
  orRefresh :: bool

record 'u peerEnv =
  pcfg :: peerConfig
  pDo :: "request \<Rightarrow> 'u \<Rightarrow> response option \<times> 'u"
  pMarshal :: "any \<Rightarrow> string"
  marshalMirrored :: "string \<Rightarrow> string \<Rightarrow> string \<Rightarrow> string"
  decodeResult :: "string \<Rightarrow> (string \<times> string) list option"
  decodeOp :: "string \<Rightarrow> opReq option"

record 'u peerSt =
  pdb :: peer_db
  pnet :: 'u
  pEmitOn :: bool
  pEmitted :: "envelope list"

definition onPdb :: "(peer_db \<Rightarrow> 'r \<times> peer_db) \<Rightarrow> 'u peerSt \<Rightarrow> 'r \<times> 'u peerSt" where
  "onPdb f p = (let (r, d) = f (pdb p) in (r, p\<lparr>pdb := d\<rparr>))"

fun initStates :: "peerCfg list \<Rightarrow> peer_db \<Rightarrow> unit res \<times> peer_db" where
  "initStates [] s = (Inr (), s)"
| "initStates (pr # prs) s =
     (case initState (pcHostID pr) (pcURL pr) s of
        (Inl e, s1) \<Rightarrow> (Inl e, s1)
      | (Inr _, s1) \<Rightarrow> initStates prs s1)"

definition peerMigrateAll :: "'u peerEnv \<Rightarrow> peer_db \<Rightarrow> unit res \<times> peer_db" where
  "peerMigrateAll E s =
     (case peerMigrate s of
        (Inl e, s1) \<Rightarrow> (Inl e, s1)
      | (Inr _, s1) \<Rightarrow> initStates (peers (pcfg E)) s1)"

definition peerCursor :: "'u peerSt \<Rightarrow> string \<times> 'u peerSt" where
  "peerCursor p =
     (case onPdb states p of
        (Inl _, p1) \<Rightarrow> ([], p1)
      | (Inr ss, p1) \<Rightarrow> (''peers='' @ itoa (int (length ss)) @ '' stale=''
          @ itoa (int (length (filter (\<lambda>s. psStaleSince s \<noteq> None) ss))), p1))"

definition peerDoEmit :: "envelope \<Rightarrow> 'u peerSt \<Rightarrow> 'u peerSt" where
  "peerDoEmit e p = (if pEmitOn p then p\<lparr>pEmitted := pEmitted p @ [e]\<rparr> else p)"

definition peerByHost :: "'u peerEnv \<Rightarrow> string \<Rightarrow> peerCfg option" where
  "peerByHost E host = find (\<lambda>pr. pcHostID pr = host) (peers (pcfg E))"

subsection \<open>Client\<close>

definition maxRespBytes :: nat where
  "maxRespBytes = 4 * 1024 * 1024"

definition maxNodes :: nat where
  "maxNodes = 5000"

datatype peerErr = errUnauthorized string | errOther string

definition peerAuthorize :: "string \<Rightarrow> request \<Rightarrow> request" where
  "peerAuthorize tok r =
     (if tok \<noteq> [] then r\<lparr>reqHeaders := (''Authorization'', ''Bearer '' @ tok) # reqHeaders r\<rparr> else r)"

definition postOp ::
  "'u peerEnv \<Rightarrow> peerCfg \<Rightarrow> string \<Rightarrow> string \<Rightarrow> obj \<Rightarrow> 'u peerSt \<Rightarrow> (peerErr + (string \<times> string) list) \<times> 'u peerSt" where
  "postOp E pr target op vars p =
     (let body = pMarshal E (AObj [(''op'', AStr op), (''variables'', AObj vars)]);
          url = trimRightByte CHR ''/'' (pcURL pr) @ ''/plugins/'' @ target @ ''/graphql'';
          req = peerAuthorize (pcToken pr) \<lparr>reqMethod = ''POST'', reqURL = url,
                  reqHeaders = [(''Content-Type'', ''application/json'')], reqBody = body\<rparr>;
          (resp, u) = pDo E req (pnet p);
          p1 = p\<lparr>pnet := u\<rparr> in
      case resp of
        None \<Rightarrow> (Inl (errOther ''transport''), p1)
      | Some r \<Rightarrow>
          if respStatus r = 401 then (Inl (errUnauthorized (pcHostID pr)), p1)
          else if respStatus r \<noteq> 200 then (Inl (errOther ''status''), p1)
          else (case decodeResult E (take maxRespBytes (respBody r)) of
                  None \<Rightarrow> (Inl (errOther ''decode''), p1)
                | Some ns \<Rightarrow> (Inr (take maxNodes ns), p1)))"

subsection \<open>Mirror\<close>

definition hostOf :: "string \<Rightarrow> string" where
  "hostOf key = (case lastIndexByte key CHR ''@'' of None \<Rightarrow> [] | Some i \<Rightarrow> drop (i + 1) key)"

definition opPlugins :: "(string \<times> string) list" where
  "opPlugins = [(''issue'', ''github''), (''pr'', ''github''), (''issueComments'', ''github''),
     (''freeSlots'', ''tmux''), (''paneForBranch'', ''tmux''), (''claude'', ''claude'')]"

definition targetPlugin :: "'u peerEnv \<Rightarrow> string \<Rightarrow> string" where
  "targetPlugin E op =
     (if remotePlugin (pcfg E) \<noteq> [] then remotePlugin (pcfg E)
      else case map_of opPlugins op of None \<Rightarrow> [] | Some t \<Rightarrow> t)"

definition mirroredEvent :: "'u peerEnv \<Rightarrow> mirroredNode \<Rightarrow> envelope" where
  "mirroredEvent E n = \<lparr>TS = mnLastSeenAt n, Source = ''peer'', EType = ''peer.node.mirrored'', V = 1, Key = mnKey n,
     Payload = marshalMirrored E (mnHost n) (mnJSON n) (formatRFC3339Nano (mnLastSeenAt n))\<rparr>"

definition emitMirrored :: "'u peerEnv \<Rightarrow> mirroredNode \<Rightarrow> 'u peerSt \<Rightarrow> 'u peerSt" where
  "emitMirrored E n p = peerDoEmit (mirroredEvent E n) p"

text \<open>The loop over the rows of a response; \<open>host\<close> is the peer's own id.\<close>

fun mirrorNodes ::
  "'u peerEnv \<Rightarrow> string \<Rightarrow> instant \<Rightarrow> (string \<times> string) list \<Rightarrow> 'u peerSt \<Rightarrow> (peerErr + mirroredNode list) \<times> 'u peerSt" where
  "mirrorNodes E host now [] p = (Inr [], p)"
| "mirrorNodes E host now ((key, raw) # ns) p =
     (if hostOf key \<noteq> host \<or> hostOf key = hostID (pcfg E) then mirrorNodes E host now ns p
      else let mn = \<lparr>mnKey = key, mnHost = host, mnJSON = raw, mnLastSeenAt = now\<rparr> in
           case onPdb (upsertNode mn) p of
             (Inl e, p1) \<Rightarrow> (Inl (errOther e), p1)
           | (Inr _, p1) \<Rightarrow>
               (case mirrorNodes E host now ns (emitMirrored E mn p1) of
                  (Inl e, p2) \<Rightarrow> (Inl e, p2)
                | (Inr kept, p2) \<Rightarrow> (Inr (mn # kept), p2)))"

definition mirror ::
  "'u peerEnv \<Rightarrow> instant \<Rightarrow> string \<Rightarrow> string \<Rightarrow> obj \<Rightarrow> 'u peerSt \<Rightarrow> (peerErr + mirroredNode list) \<times> 'u peerSt" where
  "mirror E now op host vars p =
     (case peerByHost E host of
        None \<Rightarrow> (Inr [], p)
      | Some pr \<Rightarrow>
          (let target = targetPlugin E op in
           if target = [] then (Inr [], p)
           else if target = ''peer'' then (Inr [], p)
           else case postOp E pr target op vars p of
                  (Inl e, p1) \<Rightarrow>
                    (Inl e, case e of errUnauthorized _ \<Rightarrow> snd (onPdb (markStale host now) p1) | errOther _ \<Rightarrow> p1)
                | (Inr ns, p1) \<Rightarrow>
                    (case mirrorNodes E (pcHostID pr) now ns p1 of
                       (Inl e, p2) \<Rightarrow> (Inl e, p2)
                     | (Inr kept, p2) \<Rightarrow>
                         (let p3 = snd (onPdb (markSeen host now (0, 0)) p2);
                              p4 = (if mirrorTTL (pcfg E) > 0
                                    then snd (onPdb (purgeStale host (now - mirrorTTL (pcfg E))) p3) else p3)
                          in (Inr kept, p4)))))"

subsection \<open>Executor\<close>

definition maxBody :: nat where
  "maxBody = 64 * 1024"

record servedResult =
  svHost :: string
  svStaleSince :: "instant option"
  svNodes :: "mirroredNode list"

text \<open>\<open>handleOp\<close>: \<open>None\<close> is the 400 answer.\<close>

definition handleOp :: "'u peerEnv \<Rightarrow> instant \<Rightarrow> string \<Rightarrow> 'u peerSt \<Rightarrow> servedResult option \<times> 'u peerSt" where
  "handleOp E now body p =
     (case decodeOp E (take maxBody body) of
        None \<Rightarrow> (None, p)
      | Some rq \<Rightarrow>
          (let (nodes, p1) =
                 (if orRefresh rq
                  then (case mirror E now (orOp rq) (orHost rq) (orVars rq) p of
                          (Inl _, q) \<Rightarrow> ([], q) | (Inr ns, q) \<Rightarrow> (ns, q))
                  else (case onPdb (nodesForHost (orHost rq)) p of
                          (Inl _, q) \<Rightarrow> ([], q) | (Inr ns, q) \<Rightarrow> (ns, q)));
               (st, p2) = onPdb (state (orHost rq)) p1
           in (Some \<lparr>svHost = orHost rq, svStaleSince = (case st of Inl _ \<Rightarrow> None | Inr s \<Rightarrow> psStaleSince s),
                     svNodes = nodes\<rparr>, p2)))"

subsection \<open>Accessor\<close>

record PeerView =
  pvHostID :: string
  pvURL :: string
  pvLastSeenAt :: "instant option"
  pvStaleSince :: "instant option"
  pvLagSeconds :: "int \<times> nat"
  pvMirroredKeys :: int

fun peerViews :: "peerState list \<Rightarrow> peer_db \<Rightarrow> PeerView list \<times> peer_db" where
  "peerViews [] s = ([], s)"
| "peerViews (ps # pss) s =
     (let (n, s1) = countForHost (psHost ps) s;
          (vs, s2) = peerViews pss s1
      in (\<lparr>pvHostID = psHost ps, pvURL = psURL ps, pvLastSeenAt = psLastSeenAt ps, pvStaleSince = psStaleSince ps,
           pvLagSeconds = psLagSeconds ps, pvMirroredKeys = (case n of Inl _ \<Rightarrow> 0 | Inr k \<Rightarrow> k)\<rparr> # vs, s2))"

definition Peers :: "peer_db single_ptr \<Rightarrow> PeerView list res \<times> peer_db single_ptr" where
  "Peers cur =
     (case singleGet cur of
        None \<Rightarrow> (Inr [], cur)
      | Some s \<Rightarrow>
          (case states s of
             (Inl e, s1) \<Rightarrow> (Inl e, singleSet s1 cur)
           | (Inr ss, s1) \<Rightarrow> (let (vs, s2) = peerViews ss s1 in (Inr vs, singleSet s2 cur))))"

subsection \<open>Liveness\<close>

text \<open>What a websocket gives: the dial fails with a status, or a list of frames arrives until a read
  fails; \<open>Subscribe\<close>-side write failures are the two flags.\<close>

datatype dial = DialFailed "int option" | Dialled bool bool "any list"

datatype callback = OnConnect | OnLag "int \<times> nat"

text \<open>A missing object reads as nil all the way down; a \<open>lagSeconds\<close> that is no number is 0.\<close>

definition worstLag :: "obj \<Rightarrow> int \<times> nat" where
  "worstLag m = (case at (fieldsOf (at (fieldsOf (at (fieldsOf (at m ''payload'')) ''data'')) ''pluginLag'')) ''lagSeconds'' of
     AFloat a b \<Rightarrow> (a, b) | _ \<Rightarrow> (0, 0))"

text \<open>The read loop of \<open>subscribeLag\<close>; the end of the frames is a read error.\<close>

fun readFrames :: "bool \<Rightarrow> bool \<Rightarrow> any list \<Rightarrow> callback list \<times> peerErr" where
  "readFrames subOk acked [] = ([], errOther ''read'')"
| "readFrames subOk acked (m # ms) =
     (let t = at (fieldsOf m) ''type'' in
      if t = AStr ''connection_ack'' then
        (if acked then readFrames subOk acked ms
         else if \<not> subOk then ([], errOther ''write'')
         else let (cs, e) = readFrames subOk True ms in (OnConnect # cs, e))
      else if t = AStr ''next'' then
        let (cs, e) = readFrames subOk acked ms in (OnLag (worstLag (fieldsOf m)) # cs, e)
      else if t = AStr ''error'' then ([], errOther ''pluginLag error'')
      else readFrames subOk acked ms)"

definition subscribeLag :: "peerCfg \<Rightarrow> dial \<Rightarrow> callback list \<times> peerErr" where
  "subscribeLag pr d =
     (case d of
        DialFailed st \<Rightarrow> ([], if st = Some 401 then errUnauthorized (pcHostID pr) else errOther ''dial'')
      | Dialled initOk subOk ms \<Rightarrow> if \<not> initOk then ([], errOther ''write'') else readFrames subOk False ms)"

definition peerBackoffInitial :: duration where
  "peerBackoffInitial = 500 * millisecond"

text \<open>The loop variables of one peer's goroutine.\<close>

record liveness =
  lvBackoff :: duration
  lvEverUp :: bool

definition startLiveness :: liveness where
  "startLiveness = \<lparr>lvBackoff = peerBackoffInitial, lvEverUp = False\<rparr>"

definition onCallback :: "peerCfg \<Rightarrow> callback \<times> instant \<Rightarrow> liveness \<times> 'u peerSt \<Rightarrow> liveness \<times> 'u peerSt" where
  "onCallback pr c lp =
     (let (l, p) = lp in
      case c of
        (OnConnect, now) \<Rightarrow> (l\<lparr>lvEverUp := True, lvBackoff := peerBackoffInitial\<rparr>,
                              snd (onPdb (markSeen (pcHostID pr) now (0, 0)) p))
      | (OnLag lag, now) \<Rightarrow> (l, snd (onPdb (markSeen (pcHostID pr) now lag) p)))"

definition staleEvent :: "'u peerEnv \<Rightarrow> string \<Rightarrow> instant \<Rightarrow> envelope" where
  "staleEvent E host now = \<lparr>TS = now, Source = ''peer'', EType = ''peer.stale'', V = 1, Key = ''peer:'' @ host,
     Payload = pMarshal E (AObj [(''staleSince'', AStr (formatRFC3339Nano now))])\<rparr>"

definition emitStale :: "'u peerEnv \<Rightarrow> string \<Rightarrow> instant \<Rightarrow> 'u peerSt \<Rightarrow> 'u peerSt" where
  "emitStale E host now p = peerDoEmit (staleEvent E host now) p"

definition peerNextBackoff :: "duration \<Rightarrow> duration \<Rightarrow> duration" where
  "peerNextBackoff b m = (let b' = wrap64 (b * 2) in if b' > m then m else b')"

text \<open>The rest of a turn once the subscription has returned \<open>err\<close>: the stale mark, the event of an
  up-to-down transition, the pause and the next backoff. \<open>now\<close> is the clock at the failure.\<close>

definition livenessDrop ::
  "'u peerEnv \<Rightarrow> peerCfg \<Rightarrow> peerErr \<Rightarrow> instant \<Rightarrow> liveness \<times> 'u peerSt \<Rightarrow> duration \<times> liveness \<times> 'u peerSt" where
  "livenessDrop E pr err now lp =
     (let (l1, p1) = lp;
          (res, p2) = onPdb (markStale (pcHostID pr) now) p1;
          p3 = (if res = Inr True \<and> lvEverUp l1 then emitStale E (pcHostID pr) now p2 else p2);
          up = (case err of errUnauthorized _ \<Rightarrow> False | errOther _ \<Rightarrow> lvEverUp l1)
      in (lvBackoff l1, \<lparr>lvBackoff = peerNextBackoff (lvBackoff l1) (peerBackoffMax (pcfg E)), lvEverUp = up\<rparr>, p3))"

text \<open>One turn of the loop of \<open>runLiveness\<close>: what the subscription called, then its failure.\<close>

definition livenessTurn ::
  "'u peerEnv \<Rightarrow> peerCfg \<Rightarrow> (callback \<times> instant) list \<Rightarrow> peerErr \<Rightarrow> instant \<Rightarrow> liveness \<times> 'u peerSt \<Rightarrow> duration \<times> liveness \<times> 'u peerSt" where
  "livenessTurn E pr cs err now lp = livenessDrop E pr err now (fold (onCallback pr) cs lp)"

subsection \<open>Interleaving\<close>

text \<open>The plugin at run time: one goroutine per configured peer beside the handler's requests.\<close>

record 'u peerSys =
  sysSt :: "'u peerSt"
  sysLive :: "liveness list"

inductive peerStep :: "'u peerEnv \<Rightarrow> 'u peerSys \<Rightarrow> 'u peerSys \<Rightarrow> bool" for E where
  request: "peerStep E s (s\<lparr>sysSt := snd (handleOp E now body (sysSt s))\<rparr>)"
| callback: "i < length (peers (pcfg E)) \<Longrightarrow> onCallback (peers (pcfg E) ! i) c (sysLive s ! i, sysSt s) = (l, p) \<Longrightarrow>
    peerStep E s (s\<lparr>sysSt := p, sysLive := (sysLive s)[i := l]\<rparr>)"
| dropped: "i < length (peers (pcfg E)) \<Longrightarrow> livenessDrop E (peers (pcfg E) ! i) err now (sysLive s ! i, sysSt s) = (d, l, p) \<Longrightarrow>
    peerStep E s (s\<lparr>sysSt := p, sysLive := (sysLive s)[i := l]\<rparr>)"

inductive peerReach :: "'u peerEnv \<Rightarrow> 'u peerSys \<Rightarrow> 'u peerSys \<Rightarrow> bool" for E s where
  here: "peerReach E s s"
| next_step: "peerReach E s t \<Longrightarrow> peerStep E t u \<Longrightarrow> peerReach E s u"

subsection \<open>Lemmas\<close>

lemma onPdb_pair: "onPdb f p = (fst (f (pdb p)), p\<lparr>pdb := snd (f (pdb p))\<rparr>)"
  by (simp add: onPdb_def split: prod.splits)

lemma peerDoEmit_pdb [simp]: "pdb (peerDoEmit e p) = pdb p" "pnet (peerDoEmit e p) = pnet p" "pEmitOn (peerDoEmit e p) = pEmitOn p"
  by (simp_all add: peerDoEmit_def)

lemma peerNextBackoff_law: "0 < b \<Longrightarrow> b \<le> m \<Longrightarrow> m < 2 ^ 62 \<Longrightarrow> peerNextBackoff b m = min (2 * b) m"
  by (simp add: peerNextBackoff_def wrap64_id in64_def Let_def min_def)

interpretation pbo: capped_backoff peerNextBackoff
  by unfold_locales (rule peerNextBackoff_law)

text \<open>The statements that leave the mirror alone.\<close>

lemma peerNodes_keep [simp]:
  "peerNodes (snd (markSeen h t lag s)) = peerNodes s" "peerNodes (snd (markStale h t s)) = peerNodes s"
  "peerNodes (snd (state h s)) = peerNodes s" "peerNodes (snd (nodesForHost h s)) = peerNodes s"
  by (auto simp: markSeen_def markStale_def state_def nodesForHost_def Let_def stmt_alt split: option.splits list.splits bool.splits)

lemma peerNodes_purge: "set (peerNodes (snd (purgeStale h t s))) \<subseteq> set (peerNodes s)"
  by (auto simp: purgeStale_def stmt_alt split: list.splits bool.splits)

definition firstHop :: "'u peerEnv \<Rightarrow> string \<Rightarrow> bool" where
  "firstHop E h \<longleftrightarrow> h \<in> pcHostID ` set (peers (pcfg E)) \<and> h \<noteq> hostID (pcfg E)"

text \<open>Every mirrored row, and every event that announced one, belongs to a configured peer that is
  not this machine, and its key says so.\<close>

definition rowsInv :: "'u peerEnv \<Rightarrow> mnodeRow list \<Rightarrow> bool" where
  "rowsInv E rs \<longleftrightarrow> (\<forall>r \<in> set rs. hostOf (mrKey r) = mrHost r \<and> firstHop E (mrHost r))"

definition mirrorInv :: "'u peerEnv \<Rightarrow> 'u peerSt \<Rightarrow> bool" where
  "mirrorInv E p \<longleftrightarrow> rowsInv E (peerNodes (pdb p))
     \<and> (\<forall>e \<in> set (pEmitted p). EType e = ''peer.node.mirrored'' \<longrightarrow> firstHop E (hostOf (Key e)))"

lemma rowsInv_upsert:
  assumes "rowsInv E (peerNodes s)" "hostOf (mnKey n) = mnHost n" "firstHop E (mnHost n)"
  shows "rowsInv E (peerNodes (snd (upsertNode n s)))"
  using assms by (auto simp: rowsInv_def upsertNode_def stmt_alt mnRow_def set_tblUpsert split: list.splits bool.splits)

lemma mirrorNodes_inv:
  assumes "firstHop E host \<or> host = hostID (pcfg E)" "mirrorInv E p" "mirrorNodes E host now ns p = (r, p')"
  shows "mirrorInv E p' \<and> (\<forall>kept. r = Inr kept \<longrightarrow> (\<forall>n \<in> set kept. hostOf (mnKey n) = host \<and> mnHost n = host \<and> firstHop E host))"
  using assms(2,3)
proof (induction ns arbitrary: p r p')
  case Nil
  then show ?case by auto
next
  case (Cons kn ns)
  obtain key raw where kn: "kn = (key, raw)" by (cases kn)
  show ?case
  proof (cases "hostOf key \<noteq> host \<or> hostOf key = hostID (pcfg E)")
    case True
    with Cons.prems Cons.IH show ?thesis by (simp add: kn)
  next
    case False
    define mn where "mn = \<lparr>mnKey = key, mnHost = host, mnJSON = raw, mnLastSeenAt = now\<rparr>"
    have fh: "firstHop E host" "hostOf key = host" using False assms(1) by auto
    obtain u p1 where u: "onPdb (upsertNode mn) p = (u, p1)" by (cases "onPdb (upsertNode mn) p")
    have p1: "pdb p1 = snd (upsertNode mn (pdb p))" "pEmitted p1 = pEmitted p"
      using u by (auto simp: onPdb_pair)
    have i1: "mirrorInv E p1"
      using Cons.prems(1) fh by (auto simp: mirrorInv_def p1 mn_def intro!: rowsInv_upsert)
    show ?thesis
    proof (cases u)
      case (Inl e)
      then show ?thesis using Cons.prems(2) False i1 u by (auto simp: kn mn_def [symmetric] Let_def)
    next
      case (Inr x)
      have i2: "mirrorInv E (emitMirrored E mn p1)"
        using i1 fh by (auto simp: mirrorInv_def emitMirrored_def peerDoEmit_def mirroredEvent_def mn_def)
      obtain r2 p2 where m: "mirrorNodes E host now ns (emitMirrored E mn p1) = (r2, p2)"
        by (cases "mirrorNodes E host now ns (emitMirrored E mn p1)")
      have "r = (case r2 of Inl e \<Rightarrow> Inl e | Inr kept \<Rightarrow> Inr (mn # kept)) \<and> p' = p2"
        using Cons.prems(2) False u m Inr by (auto simp: kn mn_def [symmetric] Let_def split: sum.splits)
      with Cons.IH [OF i2 m] fh show ?thesis by (auto simp: mn_def split: sum.splits)
    qed
  qed
qed

lemma mirror_inv:
  assumes "mirrorInv E p" "mirror E now op host vars p = (r, p')"
  shows "mirrorInv E p' \<and> (\<forall>kept. r = Inr kept \<longrightarrow> (\<forall>n \<in> set kept. hostOf (mnKey n) = host \<and> mnHost n = host \<and> firstHop E host))"
proof (cases "\<exists>pr. peerByHost E host = Some pr \<and> targetPlugin E op \<noteq> [] \<and> targetPlugin E op \<noteq> ''peer''")
  case False
  then have "r = Inr [] \<and> p' = p" using assms(2) by (auto simp: mirror_def Let_def split: option.splits)
  with assms(1) show ?thesis by simp
next
  case True
  then obtain pr where pr: "peerByHost E host = Some pr" and t: "targetPlugin E op \<noteq> []" "targetPlugin E op \<noteq> ''peer''" by blast
  have h: "pcHostID pr = host" "pr \<in> set (peers (pcfg E))"
    using find_SomeD [OF pr [unfolded peerByHost_def]] by auto
  have fh: "firstHop E host \<or> host = hostID (pcfg E)" using h by (auto simp: firstHop_def)
  obtain r1 p1 where po: "postOp E pr (targetPlugin E op) op vars p = (r1, p1)" by (cases "postOp E pr (targetPlugin E op) op vars p")
  have "pdb p1 = pdb p \<and> pEmitted p1 = pEmitted p"
    using po by (auto simp: postOp_def Let_def split: prod.splits option.splits if_splits)
  then have i1: "mirrorInv E p1" using assms(1) by (simp add: mirrorInv_def)
  show ?thesis
  proof (cases r1)
    case (Inl e)
    with assms(2) po pr t i1 show ?thesis
      by (auto simp: mirror_def Let_def mirrorInv_def onPdb_pair split: peerErr.splits)
  next
    case (Inr ns)
    obtain r2 p2 where m: "mirrorNodes E host now ns p1 = (r2, p2)" by (cases "mirrorNodes E host now ns p1")
    note i2 = mirrorNodes_inv [OF fh i1 m]
    have sub: "mirrorInv E q" if "mirrorInv E p2" "set (peerNodes (pdb q)) \<subseteq> set (peerNodes (pdb p2))" "pEmitted q = pEmitted p2" for q
      using that by (auto simp: mirrorInv_def rowsInv_def)
    show ?thesis
    proof (cases r2)
      case (Inl e)
      with assms(2) po pr t Inr m h i2 show ?thesis by (auto simp: mirror_def Let_def)
    next
      case (Inr kept)
      define p3 where "p3 = snd (onPdb (markSeen host now (0, 0)) p2)"
      have "mirror E now op host vars p = (Inr kept, if mirrorTTL (pcfg E) > 0
          then snd (onPdb (purgeStale host (now - mirrorTTL (pcfg E))) p3) else p3)"
        using po t \<open>r1 = Inr ns\<close> m h Inr by (simp add: mirror_def Let_def pr p3_def)
      with assms(2) have p': "r = Inr kept"
          "p' = (if mirrorTTL (pcfg E) > 0 then snd (onPdb (purgeStale host (now - mirrorTTL (pcfg E))) p3) else p3)"
        by simp_all
      have n3: "peerNodes (pdb p3) = peerNodes (pdb p2)" "pEmitted p3 = pEmitted p2" by (simp_all add: p3_def onPdb_pair)
      have "set (peerNodes (pdb p')) \<subseteq> set (peerNodes (pdb p2))" "pEmitted p' = pEmitted p2"
        using peerNodes_purge [of host "now - mirrorTTL (pcfg E)" "pdb p3"] by (simp_all add: p'(2) onPdb_pair n3)
      then have "mirrorInv E p'" using i2 sub by blast
      with i2 Inr p' show ?thesis by auto
    qed
  qed
qed

lemma handleOp_inv:
  assumes "mirrorInv E p" "handleOp E now body p = (r, p')"
  shows "mirrorInv E p' \<and> (\<forall>sv. r = Some sv \<longrightarrow>
     (\<forall>n \<in> set (svNodes sv). hostOf (mnKey n) = svHost sv \<and> mnHost n = svHost sv \<and> firstHop E (svHost sv)))"
proof (cases "decodeOp E (take maxBody body)")
  case None
  with assms show ?thesis by (simp add: handleOp_def)
next
  case (Some rq)
  define read where "read = (if orRefresh rq
      then (case mirror E now (orOp rq) (orHost rq) (orVars rq) p of (Inl _, q) \<Rightarrow> ([], q) | (Inr ns, q) \<Rightarrow> (ns, q))
      else (case onPdb (nodesForHost (orHost rq)) p of (Inl _, q) \<Rightarrow> ([], q) | (Inr ns, q) \<Rightarrow> (ns, q)))"
  obtain ns p1 where rd: "read = (ns, p1)" by (cases read)
  have i1: "mirrorInv E p1 \<and> (\<forall>n \<in> set ns. hostOf (mnKey n) = orHost rq \<and> mnHost n = orHost rq \<and> firstHop E (orHost rq))"
  proof (cases "orRefresh rq")
    case True
    obtain r q where m: "mirror E now (orOp rq) (orHost rq) (orVars rq) p = (r, q)"
      by (cases "mirror E now (orOp rq) (orHost rq) (orVars rq) p")
    with mirror_inv [OF assms(1) m] rd True show ?thesis by (auto simp: read_def split: sum.splits)
  next
    case False
    have "mirrorInv E (p\<lparr>pdb := snd (nodesForHost (orHost rq) (pdb p))\<rparr>)" using assms(1) by (simp add: mirrorInv_def)
    moreover have "set ns \<subseteq> scanMirrored ` {r \<in> set (peerNodes (pdb p)). mrHost r = orHost rq}"
      using rd False nodesForHost_set [of "orHost rq" "pdb p"] by (auto simp: read_def onPdb_pair split: sum.splits)
    moreover have "p1 = p\<lparr>pdb := snd (nodesForHost (orHost rq) (pdb p))\<rparr>"
      using rd False by (auto simp: read_def onPdb_pair split: sum.splits)
    moreover have "\<forall>r \<in> set (peerNodes (pdb p)). mrHost r = orHost rq \<longrightarrow>
        hostOf (mnKey (scanMirrored r)) = orHost rq \<and> mnHost (scanMirrored r) = orHost rq \<and> firstHop E (orHost rq)"
      using assms(1) by (auto simp: mirrorInv_def rowsInv_def scanMirrored_def)
    ultimately show ?thesis by blast
  qed
  have "r = Some \<lparr>svHost = orHost rq, svStaleSince = (case fst (state (orHost rq) (pdb p1)) of Inl _ \<Rightarrow> None | Inr s \<Rightarrow> psStaleSince s),
      svNodes = ns\<rparr> \<and> p' = p1\<lparr>pdb := snd (state (orHost rq) (pdb p1))\<rparr>"
    using assms(2) Some by (auto simp: handleOp_def read_def [symmetric] rd onPdb_pair)
  with i1 show ?thesis by (auto simp: mirrorInv_def)
qed

lemma onCallback_inv: "mirrorInv E p \<Longrightarrow> onCallback pr c (l, p) = (l', p') \<Longrightarrow> mirrorInv E p'"
  by (cases c; cases "fst c") (auto simp: onCallback_def mirrorInv_def onPdb_pair)

lemma livenessDrop_inv:
  assumes "mirrorInv E p" "livenessDrop E pr err now (l, p) = (d, l', p')"
  shows "mirrorInv E p'"
proof -
  have "mirrorInv E (p\<lparr>pdb := snd (markStale (pcHostID pr) now (pdb p))\<rparr>)" using assms(1) by (simp add: mirrorInv_def)
  moreover have "mirrorInv E q \<Longrightarrow> mirrorInv E (emitStale E h now q)" for q h
    by (auto simp: mirrorInv_def emitStale_def peerDoEmit_def staleEvent_def)
  ultimately show ?thesis using assms(2) by (auto simp: livenessDrop_def Let_def onPdb_pair split: if_splits)
qed

lemma peerReach_inv:
  assumes "peerReach E s t" "mirrorInv E (sysSt s)"
  shows "mirrorInv E (sysSt t)"
  using assms
proof (induction rule: peerReach.induct)
  case here
  then show ?case .
next
  case (next_step t u)
  from next_step.hyps(2) next_step.IH [OF next_step.prems] show ?case
  proof (cases rule: peerStep.cases)
    case (request now body)
    with handleOp_inv [OF next_step.IH [OF next_step.prems], of now body] show ?thesis
      by (cases "handleOp E now body (sysSt t)") auto
  next
    case (callback i c l p)
    with next_step.IH [OF next_step.prems] onCallback_inv show ?thesis by fastforce
  next
    case (dropped i err now d l p)
    with next_step.IH [OF next_step.prems] livenessDrop_inv show ?thesis by fastforce
  qed
qed

text \<open>Outages: a run of turns in which the subscription never connected.\<close>

definition outage :: "'u peerEnv \<Rightarrow> peerCfg \<Rightarrow> (peerErr \<times> instant) list \<Rightarrow> liveness \<times> 'u peerSt \<Rightarrow> liveness \<times> 'u peerSt" where
  "outage E pr fails lp = fold (\<lambda>(err, now) lp. snd (livenessTurn E pr [] err now lp)) fails lp"

definition liveDb :: "'u peerSt \<Rightarrow> string \<Rightarrow> bool" where
  "liveDb p h \<longleftrightarrow> faults (pdb p) = [] \<and> trackedHost (pdb p) h \<and> tblInv srHost (peerStates (pdb p))"

lemma tblInv_rowStale [simp]: "tblInv srHost (peerStates s) \<Longrightarrow> tblInv srHost (peerStates (rowStale h t s))"
  by (simp add: rowStale_def)

lemma livenessTurn_fail:
  assumes "liveDb p (pcHostID pr)"
  shows "snd (livenessTurn E pr [] err now (l, p)) =
    (\<lparr>lvBackoff = peerNextBackoff (lvBackoff l) (peerBackoffMax (pcfg E)),
      lvEverUp = (case err of errUnauthorized _ \<Rightarrow> False | errOther _ \<Rightarrow> lvEverUp l)\<rparr>,
     let p' = p\<lparr>pdb := rowStale (pcHostID pr) (formatRFC3339Nano now) (pdb p)\<rparr> in
     if staleText (pdb p) (pcHostID pr) = None \<and> lvEverUp l then peerDoEmit (staleEvent E (pcHostID pr) now) p' else p')"
  using assms by (simp add: livenessTurn_def livenessDrop_def Let_def onPdb_pair markStale_no_faults liveDb_def emitStale_def)

lemma liveDb_rowStale:
  assumes "liveDb p h"
  shows "liveDb (p\<lparr>pdb := rowStale k t (pdb p)\<rparr>) h" "liveDb (peerDoEmit e (p\<lparr>pdb := rowStale k t (pdb p)\<rparr>)) h"
  using assms by (simp_all add: liveDb_def)

text \<open>Once the mark is set, further failures leave the mark and the events as they are.\<close>

lemma outage_marked:
  assumes "liveDb p (pcHostID pr)" "staleText (pdb p) (pcHostID pr) = Some t" "outage E pr fails (l, p) = (l', p')"
  shows "staleText (pdb p') (pcHostID pr) = Some t \<and> pEmitted p' = pEmitted p \<and> liveDb p' (pcHostID pr)
    \<and> lvBackoff l' = ((\<lambda>b. peerNextBackoff b (peerBackoffMax (pcfg E))) ^^ length fails) (lvBackoff l)"
  using assms
proof (induction fails arbitrary: l p)
  case Nil
  then show ?case by (simp add: outage_def)
next
  case (Cons f fails)
  obtain err now where f: "f = (err, now)" by (cases f)
  define l1 where "l1 = \<lparr>lvBackoff = peerNextBackoff (lvBackoff l) (peerBackoffMax (pcfg E)),
      lvEverUp = (case err of errUnauthorized _ \<Rightarrow> False | errOther _ \<Rightarrow> lvEverUp l)\<rparr>"
  define p1 where "p1 = p\<lparr>pdb := rowStale (pcHostID pr) (formatRFC3339Nano now) (pdb p)\<rparr>"
  have "outage E pr fails (l1, p1) = (l', p')"
    using Cons.prems by (simp add: outage_def f livenessTurn_fail l1_def p1_def Let_def)
  moreover have "liveDb p1 (pcHostID pr)" "staleText (pdb p1) (pcHostID pr) = Some t"
    using Cons.prems liveDb_rowStale by (simp_all add: p1_def liveDb_def staleText_rowStale)
  ultimately have "staleText (pdb p') (pcHostID pr) = Some t \<and> pEmitted p' = pEmitted p1 \<and> liveDb p' (pcHostID pr)
    \<and> lvBackoff l' = ((\<lambda>b. peerNextBackoff b (peerBackoffMax (pcfg E))) ^^ length fails) (lvBackoff l1)"
    using Cons.IH by blast
  then show ?case by (simp add: p1_def l1_def funpow_Suc_right del: funpow.simps)
qed

lemma mirrorNodes_foreign:
  "\<forall>(key, raw) \<in> set ns. hostOf key \<noteq> host \<Longrightarrow> mirrorNodes E host now ns p = (Inr [], p)"
  by (induction ns) auto

lemma hostOf_none: "CHR ''@'' \<notin> set key \<Longrightarrow> hostOf key = []"
  by (simp add: hostOf_def)

subsection \<open>Properties\<close>

text \<open>C10. No peer-of-peer rows: however requests, connects and drops interleave, every mirrored row
  and every node served belongs to a configured peer that is not this machine, and carries
  that peer's own host in its key; so a mesh of machines cannot echo rows around a cycle.\<close>

theorem peer_first_hop:
  assumes "peerReach E s t" "peerNodes (pdb (sysSt s)) = []" "pEmitted (sysSt s) = []"
  shows "mirrorInv E (sysSt t) \<and>
    (\<forall>now body sv p'. handleOp E now body (sysSt t) = (Some sv, p') \<longrightarrow>
       (\<forall>n \<in> set (svNodes sv). hostOf (mnKey n) = svHost sv \<and> firstHop E (svHost sv)))"
proof -
  have "mirrorInv E (sysSt s)" using assms(2,3) by (simp add: mirrorInv_def rowsInv_def)
  with assms(1) have i: "mirrorInv E (sysSt t)" by (rule peerReach_inv)
  then show ?thesis using handleOp_inv by blast
qed

definition demoPeerDb :: peer_db where
  "demoPeerDb = \<lparr>faults = [], ringCapacity = 10, tables = [], schemaVersions = [], events = [], lastId = 0, cursors = [],
     peerNodes = [], peerStates = [\<lparr>srHost = ''b'', srURL = ''http://b'', srSeen = None, srStale = None, srLag = (0, 0)\<rparr>]\<rparr>"

text \<open>Two machines; the remote answers every request with one row of its own and one of a third.\<close>

definition demoPeerEnv :: "unit peerEnv" where
  "demoPeerEnv = \<lparr>pcfg = \<lparr>hostID = ''a'', peers = [\<lparr>pcHostID = ''b'', pcURL = ''http://b'', pcToken = ''t''\<rparr>],
       staleThreshold = 30 * second, peerBackoffMax = 60 * second, mirrorTTL = 0, remotePlugin = ''fakeremote''\<rparr>,
     pDo = (\<lambda>_ _. (Some \<lparr>respStatus = 200, respHeaders = [], respBody = []\<rparr>, ())),
     pMarshal = (\<lambda>_. []), marshalMirrored = (\<lambda>_ _ _. []),
     decodeResult = (\<lambda>_. Some [(''pane:x@b'', ''{}''), (''pane:y@c'', ''{}'')]),
     decodeOp = (\<lambda>_. Some \<lparr>orOp = ''freeSlots'', orHost = ''b'', orVars = [], orRefresh = True\<rparr>)\<rparr>"

definition demoPeerSt :: "unit peerSt" where
  "demoPeerSt = \<lparr>pdb = demoPeerDb, pnet = (), pEmitOn = True, pEmitted = []\<rparr>"

lemma hostOf_demo: "hostOf ''pane:x@b'' = ''b''" "hostOf ''pane:y@c'' = ''c''"
  by code_simp+

lemma maxNodes_two: "take maxNodes [x, y] = [x, y]"
  by (simp add: maxNodes_def)

lemma demo_mirror:
  "peerNodes (pdb (snd (handleOp demoPeerEnv 0 [] demoPeerSt)))
     = [\<lparr>mrKey = ''pane:x@b'', mrHost = ''b'', mrJSON = ''{}'', mrSeen = formatRFC3339Nano 0\<rparr>]"
  "faults (pdb (snd (handleOp demoPeerEnv 0 [] demoPeerSt))) = []"
proof -
  let ?pr = "\<lparr>pcHostID = ''b'', pcURL = ''http://b'', pcToken = ''t''\<rparr>"
  have po: "postOp demoPeerEnv ?pr t op vars p = (Inr [(''pane:x@b'', ''{}''), (''pane:y@c'', ''{}'')], p)"
    for t op vars p
    by (simp add: postOp_def Let_def demoPeerEnv_def maxNodes_two)
  have by_host: "peerByHost demoPeerEnv ''b'' = Some ?pr" "targetPlugin demoPeerEnv ''freeSlots'' = ''fakeremote''"
    by (simp_all add: peerByHost_def targetPlugin_def demoPeerEnv_def)
  have cfg: "hostID (pcfg demoPeerEnv) = ''a''" "mirrorTTL (pcfg demoPeerEnv) = 0"
    "decodeOp demoPeerEnv = (\<lambda>_. Some \<lparr>orOp = ''freeSlots'', orHost = ''b'', orVars = [], orRefresh = True\<rparr>)"
    by (simp_all add: demoPeerEnv_def)
  show "peerNodes (pdb (snd (handleOp demoPeerEnv 0 [] demoPeerSt)))
     = [\<lparr>mrKey = ''pane:x@b'', mrHost = ''b'', mrJSON = ''{}'', mrSeen = formatRFC3339Nano 0\<rparr>]"
    "faults (pdb (snd (handleOp demoPeerEnv 0 [] demoPeerSt))) = []"
    by (simp_all add: handleOp_def mirror_def by_host po cfg hostOf_demo onPdb_pair upsertNode_def demoPeerSt_def demoPeerDb_def
        tblUpsert_def tblMerge_def emitMirrored_def peerDoEmit_def mnRow_def markSeen_def rowSeen_def tblUpdate_def state_def Let_def)
qed

theorem peer_first_hop_witness:
  "\<exists>t. peerReach demoPeerEnv \<lparr>sysSt = demoPeerSt, sysLive = [startLiveness]\<rparr> t
      \<and> map mrKey (peerNodes (pdb (sysSt t))) = [''pane:x@b''] \<and> mirrorInv demoPeerEnv (sysSt t)"
proof -
  let ?s = "\<lparr>sysSt = demoPeerSt, sysLive = [startLiveness]\<rparr>"
  let ?t = "?s\<lparr>sysSt := snd (handleOp demoPeerEnv 0 [] (sysSt ?s))\<rparr>"
  have r: "peerReach demoPeerEnv ?s ?t" by (rule peerReach.next_step [OF peerReach.here peerStep.request])
  have e: "peerNodes (pdb (sysSt ?s)) = []" "pEmitted (sysSt ?s) = []" by (simp_all add: demoPeerSt_def demoPeerDb_def)
  have "map mrKey (peerNodes (pdb (sysSt ?t))) = [''pane:x@b'']" by (simp add: demo_mirror)
  with peer_first_hop [OF r e] r show ?thesis by (intro exI [of _ ?t] conjI) simp_all
qed



text \<open>A refresh of a peer that is down answers with no node even though its rows are cached: the
  transport failure leaves the mirror and the liveness rows as they were, and the answer is
  empty where the warm read would have served every cached row.\<close>

theorem peer_refresh_down_empty:
  assumes "decodeOp E (take maxBody body) = Some rq" "orRefresh rq"
    and "peerByHost E (orHost rq) = Some pr" "targetPlugin E (orOp rq) \<noteq> []" "targetPlugin E (orOp rq) \<noteq> ''peer''"
    and "\<And>r u. fst (pDo E r u) = None" and "faults (pdb p) = []"
  shows "\<exists>sv p'. handleOp E now body p = (Some sv, p') \<and> svNodes sv = []
    \<and> peerNodes (pdb p') = peerNodes (pdb p) \<and> peerStates (pdb p') = peerStates (pdb p)"
proof -
  have d: "pDo E r u = (None, snd (pDo E r u))" for r u using assms(6) [of r u] by (simp add: prod_eq_iff)
  have "\<exists>p1. postOp E pr (targetPlugin E (orOp rq)) (orOp rq) (orVars rq) p = (Inl (errOther ''transport''), p1) \<and> pdb p1 = pdb p"
    unfolding postOp_def Let_def by (subst d) simp
  then obtain p1 where po: "postOp E pr (targetPlugin E (orOp rq)) (orOp rq) (orVars rq) p = (Inl (errOther ''transport''), p1)"
      "pdb p1 = pdb p" by blast
  have m: "mirror E now (orOp rq) (orHost rq) (orVars rq) p = (Inl (errOther ''transport''), p1)"
    using assms(3-5) po(1) by (simp add: mirror_def)
  have st: "snd (state (orHost rq) (pdb p1)) = pdb p" using assms(7) po(2) by (simp add: state_def split: option.splits)
  show ?thesis using assms(1,2) m st by (simp add: handleOp_def onPdb_pair)
qed

theorem peer_refresh_down_empty_witness:
  "let E = demoPeerEnv\<lparr>pDo := (\<lambda>_ u. (None, u))\<rparr>; p = snd (handleOp demoPeerEnv 0 [] demoPeerSt)
   in \<exists>sv p'. handleOp E 5 [] p = (Some sv, p') \<and> svNodes sv = [] \<and> peerNodes (pdb p') \<noteq> []"
proof -
  define E where "E = demoPeerEnv\<lparr>pDo := (\<lambda>_ u. (None, u))\<rparr>"
  define p where "p = snd (handleOp demoPeerEnv 0 [] demoPeerSt)"
  define rq where "rq = \<lparr>orOp = ''freeSlots'', orHost = ''b'', orVars = [], orRefresh = True\<rparr>"
  have 1: "decodeOp E (take maxBody []) = Some rq" "orRefresh rq" by (simp_all add: E_def demoPeerEnv_def rq_def)
  have 2: "peerByHost E (orHost rq) = Some \<lparr>pcHostID = ''b'', pcURL = ''http://b'', pcToken = ''t''\<rparr>"
      "targetPlugin E (orOp rq) \<noteq> []" "targetPlugin E (orOp rq) \<noteq> ''peer''"
    by (simp_all add: E_def demoPeerEnv_def rq_def peerByHost_def targetPlugin_def)
  have 3: "fst (pDo E r u) = None" for r u by (simp add: E_def)
  have 4: "faults (pdb p) = []" unfolding p_def by (rule demo_mirror(2))
  have 5: "peerNodes (pdb p) \<noteq> []" unfolding p_def demo_mirror(1) by simp
  from peer_refresh_down_empty [OF 1 2 3 4, of 5] 5 show ?thesis unfolding E_def p_def Let_def by auto
qed

text \<open>The rows of a remote whose keys carry no host, as the GitHub executor's do, are all dropped.\<close>

lemma hostless_rows_dropped:
  assumes "host \<noteq> []" "\<forall>(key, raw) \<in> set ns. CHR ''@'' \<notin> set key"
  shows "mirrorNodes E host now ns p = (Inr [], p)"
  using assms by (intro mirrorNodes_foreign) (auto simp: hostOf_none)

end
