(* ===== verification/IssueKey.thy ===== *)
theory IssueKey
  imports GoValue
begin

text \<open>
  \<open>internal/issuekey/issuekey.go\<close>: the issue number a branch name encodes, and the issue
  numbers a text closes by GitHub's closing keywords. The two regular expressions are
  modelled by deterministic recognisers of the same language, with Go's leftmost-first
  choice and non-overlapping iteration.
\<close>

subsection \<open>FromBranch\<close>

text \<open>\<open>^issue-?(\\d+)([/-]|$)\<close>: the digits are greedy, and no shorter run can be followed by a
  separator, since its next byte is a digit.\<close>

definition branchRe :: "string \<Rightarrow> string option" where
  "branchRe s =
     (if hasPrefix s ''issue'' then
        let r = drop 5 s; r' = (case r of c # cs \<Rightarrow> if c = CHR ''-'' then cs else r | [] \<Rightarrow> []);
            ds = takeWhile isDigit r'; t = dropWhile isDigit r'
        in if ds \<noteq> [] \<and> (case t of [] \<Rightarrow> True | c # _ \<Rightarrow> c = CHR ''/'' \<or> c = CHR ''-'') then Some ds else None
      else None)"

definition FromBranch :: "string \<Rightarrow> int \<times> bool" where
  "FromBranch branch =
     (case branchRe (trimSpace branch) of
        None \<Rightarrow> (0, False)
      | Some ds \<Rightarrow> (atoiVal (atoi ds), True))"

subsection \<open>ClosingRefs\<close>

text \<open>The verb alternatives of \<open>(?i)(close[sd]?|fix(e[sd])?|resolve[sd]?)\<close>, in the order the
  matcher prefers them. Case folding makes \<open>s\<close> match U+017F too.\<close>

definition verbs :: "string list" where
  "verbs = [''closes'', ''closed'', ''close'', ''fixes'', ''fixed'', ''fix'', ''resolves'', ''resolved'', ''resolve'']"

fun matchFold :: "string \<Rightarrow> string \<Rightarrow> string option" where
  "matchFold [] s = Some s"
| "matchFold (p # ps) (a # s) =
     (if lowerByte a = p then matchFold ps s
      else case s of b # s' \<Rightarrow>
          if p = CHR ''s'' \<and> map of_char [a, b] = [197, 191 :: nat] then matchFold ps s' else None
        | [] \<Rightarrow> None)"
| "matchFold (p # ps) [] = None"

text \<open>\<open>\\s\<close> and \<open>\\w\<close> of RE2 are ASCII classes; under \<open>(?i)\<close> the class \<open>\\w\<close> also takes U+017F and
  U+212A, which only lets a cross-repository name be longer, and such references are
  dropped.\<close>

definition isSpaceRe :: "char \<Rightarrow> bool" where
  "isSpaceRe c \<longleftrightarrow> (of_char c :: nat) \<in> {9, 10, 12, 13, 32}"

definition isWordRe :: "char \<Rightarrow> bool" where
  "isWordRe c \<longleftrightarrow> (let n = (of_char c :: nat) in
     (48 \<le> n \<and> n \<le> 57) \<or> (65 \<le> n \<and> n \<le> 90) \<or> (97 \<le> n \<and> n \<le> 122) \<or> n = 95)"

definition isNameRe :: "char \<Rightarrow> bool" where
  "isNameRe c \<longleftrightarrow> isWordRe c \<or> c = CHR ''.'' \<or> c = CHR ''-''"

text \<open>\<open>(#|[\\w.-]+/[\\w.-]+#)(\\d+)\<close> after the white space: whether the reference is local,
  its digits, and the rest of the text.\<close>

definition refTail :: "string \<Rightarrow> (bool \<times> string \<times> string) option" where
  "refTail s =
     (let num = (\<lambda>loc r. let ds = takeWhile isDigit r in
                   if ds = [] then None else Some (loc, ds, dropWhile isDigit r))
      in case s of
           [] \<Rightarrow> None
         | c # r \<Rightarrow>
             if c = CHR ''#'' then num True r
             else let ow = takeWhile isNameRe s; r1 = dropWhile isNameRe s in
               (case r1 of c1 # r2 \<Rightarrow>
                  if ow \<noteq> [] \<and> c1 = CHR ''/'' then
                    let nm = takeWhile isNameRe r2; r3 = dropWhile isNameRe r2 in
                    (case r3 of c3 # r4 \<Rightarrow> if nm \<noteq> [] \<and> c3 = CHR ''#'' then num False r4 else None
                     | [] \<Rightarrow> None)
                  else None
                | [] \<Rightarrow> None))"

text \<open>One match anchored at the start of the text: the first verb alternative that can be
  completed to a match.\<close>

fun firstSome :: "('a \<Rightarrow> 'b option) \<Rightarrow> 'a list \<Rightarrow> 'b option" where
  "firstSome f [] = None"
| "firstSome f (x # xs) = (case f x of None \<Rightarrow> firstSome f xs | Some y \<Rightarrow> Some y)"

definition closingAt :: "string \<Rightarrow> (bool \<times> string \<times> string) option" where
  "closingAt s =
     firstSome (\<lambda>v. case matchFold v s of None \<Rightarrow> None
        | Some r \<Rightarrow> if takeWhile isSpaceRe r = [] then None else refTail (dropWhile isSpaceRe r)) verbs"

text \<open>\<open>FindAllStringSubmatch\<close>: leftmost matches, the next search starting after the last.\<close>

lemma dropWhile_length: "length (dropWhile P s) \<le> length s"
  by (induction s) auto

lemma matchFold_length: "matchFold p s = Some r \<Longrightarrow> length r \<le> length s"
proof (induction p s rule: matchFold.induct)
  case (2 p ps a s)
  then show ?case by (fastforce split: if_splits list.splits)
qed auto

lemma refTail_length: "refTail s = Some (l, ds, r) \<Longrightarrow> length r < length s"
proof -
  assume a: "refTail s = Some (l, ds, r)"
  show ?thesis
  proof (cases s)
    case Nil
    with a show ?thesis by (simp add: refTail_def)
  next
    case (Cons c cs)
    have dw: "\<And>P (t :: string) x u. dropWhile P t = x # u \<Longrightarrow> length u < length t"
      by (metis dropWhile_length le_imp_less_Suc length_Cons less_eq_Suc_le)
    show ?thesis
      using a Cons
      by (auto simp: refTail_def Let_def less_Suc_eq_le dropWhile_length split: if_splits list.splits)
         (meson dw dropWhile_length le_trans less_imp_le)
  qed
qed

lemma firstSome_SomeD: "firstSome f xs = Some y \<Longrightarrow> \<exists>x \<in> set xs. f x = Some y"
  by (induction xs) (auto split: option.splits)

lemma closingAt_length: "closingAt s = Some (l, ds, r) \<Longrightarrow> length r < length s"
proof -
  assume "closingAt s = Some (l, ds, r)"
  then obtain v t where t: "matchFold v s = Some t" "refTail (dropWhile isSpaceRe t) = Some (l, ds, r)"
    unfolding closingAt_def by (force dest!: firstSome_SomeD split: option.splits if_splits)
  have "length r < length (dropWhile isSpaceRe t)" by (rule refTail_length [OF t(2)])
  also have "\<dots> \<le> length t" by (rule dropWhile_length)
  also have "\<dots> \<le> length s" by (rule matchFold_length [OF t(1)])
  finally show ?thesis .
qed

function findClosing :: "string \<Rightarrow> (bool \<times> string) list" where
  "findClosing s =
     (case closingAt s of
        Some (loc, ds, r) \<Rightarrow> (loc, ds) # findClosing r
      | None \<Rightarrow> (case s of [] \<Rightarrow> [] | _ # cs \<Rightarrow> findClosing cs))"
  by pat_completeness auto
termination
  by (relation "measure length") (auto dest: closingAt_length)

declare findClosing.simps [simp del]

definition ClosingRefs :: "string \<Rightarrow> int list" where
  "ClosingRefs text =
     List.map_filter (\<lambda>(loc, ds). if \<not> loc then None
        else case atoi ds of AtoiOk n \<Rightarrow> Some n | _ \<Rightarrow> None) (findClosing text)"

subsection \<open>Lemmas\<close>

lemma FromBranch_False: "FromBranch b = (n, False) \<Longrightarrow> n = 0"
  by (auto simp: FromBranch_def split: option.splits)

lemma takeWhile_digits:
  "list_all isDigit ds \<Longrightarrow> t = [] \<or> \<not> isDigit (hd t) \<Longrightarrow> takeWhile isDigit (ds @ t) = ds"
  by (cases t) (simp_all add: list_all_iff)

lemma dropWhile_digits:
  assumes "list_all isDigit ds" "t = [] \<or> \<not> isDigit (hd t)"
  shows "dropWhile isDigit (ds @ t) = t"
proof -
  have "dropWhile isDigit (ds @ t) = dropWhile isDigit t"
    using assms(1) by (intro dropWhile_append2) (auto simp: list_all_iff)
  also have "\<dots> = t" using assms(2) by (cases t) simp_all
  finally show ?thesis .
qed

lemma branchRe_issue:
  assumes "t = [] \<or> hd t = CHR ''/'' \<or> hd t = CHR ''-''" and "d = [] \<or> d = ''-''"
  shows "branchRe (''issue'' @ d @ showNat n @ t) = Some (showNat n)"
proof -
  obtain c cs where cc: "showNat n = c # cs" by (cases "showNat n") auto
  have "isDigit c" using set_showNat [of c n] cc by simp
  have "t = [] \<or> \<not> isDigit (hd t)" using assms(1) by (auto simp: isDigit_def)
  then have tw: "takeWhile isDigit (showNat n @ t) = showNat n" "dropWhile isDigit (showNat n @ t) = t"
    using takeWhile_digits [OF showNat_digits] dropWhile_digits [OF showNat_digits] by blast+
  have r: "(case d @ showNat n @ t of [] \<Rightarrow> [] | c # cs \<Rightarrow> if c = CHR ''-'' then cs else d @ showNat n @ t) = showNat n @ t"
    using assms(2)
  proof
    assume "d = []"
    with cc \<open>isDigit c\<close> show ?thesis by simp
  qed simp
  have pre: "hasPrefix (''issue'' @ u) ''issue''" "drop 5 (''issue'' @ u) = u" for u
    by (rule hasPrefix_append) simp
  show ?thesis
    using assms(1) unfolding branchRe_def pre Let_def r tw
    by (cases t) (simp_all add: hasPrefix_def split: if_splits)
qed

end
