(* ===== verification/ClaudeStore.thy ===== *)
theory ClaudeStore
  imports CoreStore IssueKey GoValue
begin

text \<open>
  \<open>plugins/claude\<close>, the data half: the key grammar (\<open>keys.go\<close>), the session state machine
  (\<open>reducer.go\<close>), the whitelist projections of hook payloads, transcript records and state
  files (\<open>redact.go\<close>) and the session table with its fold-dedup set (\<open>store.go\<close>). Every insert
  names all columns, so only the three columns of the state-file channel can be NULL. JSON
  values come decoded; a type error of the Go decoder is the result \<open>None\<close>.
\<close>

subsection \<open>Keys\<close>

definition claudeSessionKey :: "string \<Rightarrow> string \<Rightarrow> string" where
  "claudeSessionKey sid host = ''session:'' @ sid @ ''@'' @ host"

definition instanceKey :: "string \<Rightarrow> string \<Rightarrow> string" where
  "instanceKey pane host = ''instance:'' @ pane @ ''@'' @ host"

definition issueFromBranch :: "string \<Rightarrow> int" where
  "issueFromBranch branch = fst (FromBranch branch)"

text \<open>\<open>strings.LastIndex\<close>: the offset of the last occurrence.\<close>

fun lastIndexStr :: "string \<Rightarrow> string \<Rightarrow> nat option" where
  "lastIndexStr [] sep = (if sep = [] then Some 0 else None)"
| "lastIndexStr (c # s) sep =
     (case lastIndexStr s sep of Some i \<Rightarrow> Some (Suc i) | None \<Rightarrow> if hasPrefix (c # s) sep then Some 0 else None)"

definition prNumberFromURL :: "string \<Rightarrow> int" where
  "prNumberFromURL url =
     (case lastIndexStr url ''/pull/'' of
        None \<Rightarrow> 0
      | Some i \<Rightarrow>
          (let tail = drop (i + length ''/pull/'') url;
               tail' = (case indexAny tail ''/?#'' of Some s \<Rightarrow> take s tail | None \<Rightarrow> tail)
           in atoiVal (atoi tail')))"

subsection \<open>Reducer\<close>

text \<open>A \<open>State\<close> is a string in Go; rows of other channels may hold any.\<close>

definition stateIdle :: string where "stateIdle = ''idle''"
definition stateWorking :: string where "stateWorking = ''working''"
definition stateInput :: string where "stateInput = ''input''"
definition stateEnded :: string where "stateEnded = ''ended''"

definition knownEvents :: "string list" where
  "knownEvents = [''SessionStart'', ''UserPromptSubmit'', ''PreToolUse'', ''PostToolUse'', ''Notification'', ''Stop'', ''SessionEnd'']"

definition foldEvent :: "string \<Rightarrow> string \<Rightarrow> bool \<Rightarrow> string \<times> bool \<times> bool" where
  "foldEvent prev event permissionAsk =
     (if event = ''SessionStart'' \<or> event = ''Stop'' then (stateIdle, False, False)
      else if event = ''UserPromptSubmit'' \<or> event = ''PostToolUse'' then (stateWorking, False, False)
      else if event = ''PreToolUse'' then (stateWorking, True, False)
      else if event = ''Notification'' then (if permissionAsk then stateInput else stateIdle, False, False)
      else if event = ''SessionEnd'' then (stateEnded, False, True)
      else (prev, False, False))"

definition isNag :: "string \<Rightarrow> bool" where
  "isNag message = containsStr (toLower message) ''waiting for your input''"

subsection \<open>Projections\<close>

record enrichment =
  eCwd :: string
  eGitBranch :: string
  eModel :: string
  ePrURL :: string
  eIssueNumber :: int
  ePrNumber :: int

record foldInput =
  fiSid :: string
  fiEvent :: string
  fiTs :: string
  fiTool :: string
  fiPermissionAsk :: bool
  fiPane :: string
  fiPid :: int
  fiEnrich :: enrichment

record hookPayload =
  hpSessionID :: string
  hpEvent :: string
  hpCwd :: string
  hpToolName :: string
  hpMessage :: string
  hpGitBranch :: string
  hpModel :: string
  hpTmuxPane :: string
  hpPid :: int
  hpIssueNumber :: "int option"
  hpTS :: string

text \<open>\<open>json.Unmarshal(body, &hp)\<close> on the decoded document; \<open>null\<close> decodes to the zero payload.\<close>

definition structOf :: "any \<Rightarrow> obj option" where
  "structOf v = (case v of AObj m \<Rightarrow> Some m | ANil \<Rightarrow> Some [] | _ \<Rightarrow> None)"

definition decodeHook :: "any \<Rightarrow> hookPayload option" where
  "decodeHook v =
     (case structOf v of None \<Rightarrow> None
      | Some m \<Rightarrow>
          (case (strictStr m ''session_id'', strictStr m ''hook_event_name'', strictStr m ''cwd'', strictStr m ''tool_name'') of
             (Some sid, Some ev, Some cwd, Some tool) \<Rightarrow>
               (case (strictStr m ''message'', strictStr m ''gitBranch'', strictStr m ''model'', strictStr m ''tmux_pane'') of
                  (Some msg, Some br, Some mo, Some pane) \<Rightarrow>
                    (case (strictInt m ''pid'', strictIntPtr m ''issue_number'', strictStr m ''ts'') of
                       (Some pid, Some iss, Some ts) \<Rightarrow>
                         Some \<lparr>hpSessionID = sid, hpEvent = ev, hpCwd = cwd, hpToolName = tool, hpMessage = msg, hpGitBranch = br,
                               hpModel = mo, hpTmuxPane = pane, hpPid = pid, hpIssueNumber = iss, hpTS = ts\<rparr>
                     | _ \<Rightarrow> None)
                | _ \<Rightarrow> None)
           | _ \<Rightarrow> None))"

definition projectHook :: "hookPayload \<Rightarrow> foldInput" where
  "projectHook p =
     \<lparr>fiSid = hpSessionID p, fiEvent = hpEvent p, fiTs = hpTS p, fiTool = hpToolName p,
      fiPermissionAsk = (hpEvent p = ''Notification'' \<and> \<not> isNag (hpMessage p)),
      fiPane = hpTmuxPane p, fiPid = hpPid p,
      fiEnrich = \<lparr>eCwd = hpCwd p, eGitBranch = hpGitBranch p, eModel = hpModel p, ePrURL = [],
        eIssueNumber = (case hpIssueNumber p of Some n \<Rightarrow> n | None \<Rightarrow> issueFromBranch (hpGitBranch p)), ePrNumber = 0\<rparr>\<rparr>"

text \<open>\<open>trContent\<close> is the raw \<open>message.content\<close>, \<open>None\<close> when the key is absent.\<close>

record transcriptRecord =
  trSessionID :: string
  trCwd :: string
  trGitBranch :: string
  trTimestamp :: string
  trPrNumber :: int
  trPrURL :: string
  trModel :: string
  trContent :: "any option"

definition decodeRecord :: "any \<Rightarrow> transcriptRecord option" where
  "decodeRecord v =
     (case structOf v of None \<Rightarrow> None
      | Some m \<Rightarrow>
          (case structOf (jsonField m ''message'') of None \<Rightarrow> None
           | Some msg \<Rightarrow>
               (case (strictStr m ''sessionId'', strictStr m ''cwd'', strictStr m ''gitBranch'', strictStr m ''timestamp'') of
                  (Some sid, Some cwd, Some br, Some ts) \<Rightarrow>
                    (case (strictInt m ''prNumber'', strictStr m ''prUrl'', strictStr msg ''model'') of
                       (Some pn, Some pu, Some mo) \<Rightarrow>
                         Some \<lparr>trSessionID = sid, trCwd = cwd, trGitBranch = br, trTimestamp = ts, trPrNumber = pn, trPrURL = pu,
                               trModel = mo, trContent = (case jsonMatches msg ''content'' of [] \<Rightarrow> None | vs \<Rightarrow> Some (List.last vs))\<rparr>
                     | _ \<Rightarrow> None)
                | _ \<Rightarrow> None)))"

record stateFile =
  sfSID :: string
  sfCwd :: string
  sfPid :: int
  sfPane :: string
  sfState :: string
  sfFirstPrompt :: string
  sfLastResponse :: string

definition decodeStateFile :: "any \<Rightarrow> stateFile option" where
  "decodeStateFile v =
     (case structOf v of None \<Rightarrow> None
      | Some m \<Rightarrow>
          (case (strictStr m ''sid'', strictStr m ''cwd'', strictInt m ''pid'', strictStr m ''pane'') of
             (Some sid, Some cwd, Some pid, Some pane) \<Rightarrow>
               (case (strictStr m ''state'', strictStr m ''first_prompt'', strictStr m ''last_response'') of
                  (Some st, Some fp, Some lr) \<Rightarrow>
                    Some \<lparr>sfSID = sid, sfCwd = cwd, sfPid = pid, sfPane = pane, sfState = st, sfFirstPrompt = fp, sfLastResponse = lr\<rparr>
                | _ \<Rightarrow> None)
           | _ \<Rightarrow> None))"

text \<open>The blocks of a content array, decoded as \<open>{type, name}\<close>; any other shape is an error.\<close>

fun decodeBlock :: "any \<Rightarrow> (string \<times> string) option" where
  "decodeBlock v = (case structOf v of None \<Rightarrow> None
     | Some m \<Rightarrow> (case (strictStr m ''type'', strictStr m ''name'') of (Some t, Some n) \<Rightarrow> Some (t, n) | _ \<Rightarrow> None))"

definition toolNames :: "any option \<Rightarrow> string list" where
  "toolNames content =
     (case content of
        Some (AArr bs) \<Rightarrow>
          if list_all (\<lambda>b. decodeBlock b \<noteq> None) bs
          then map snd (filter (\<lambda>(t, n). t = ''tool_use'') (List.map_filter decodeBlock bs)) else []
      | _ \<Rightarrow> [])"

definition projectRecord :: "transcriptRecord \<Rightarrow> enrichment \<times> foldInput list" where
  "projectRecord r =
     (let pn = (if trPrNumber r = 0 then prNumberFromURL (trPrURL r) else trPrNumber r);
          enr = \<lparr>eCwd = trCwd r, eGitBranch = trGitBranch r, eModel = trModel r, ePrURL = trPrURL r,
                 eIssueNumber = issueFromBranch (trGitBranch r), ePrNumber = pn\<rparr>
      in (enr, map (\<lambda>n. \<lparr>fiSid = trSessionID r, fiEvent = ''PreToolUse'', fiTs = trTimestamp r, fiTool = n,
                 fiPermissionAsk = False, fiPane = [], fiPid = 0, fiEnrich = enr\<rparr>) (toolNames (trContent r))))"

subsection \<open>Rows\<close>

record SessRow =
  srSid :: string
  srHostId :: string
  srCwd :: string
  srGitBranch :: string
  srIssueNumber :: int
  srModel :: string
  srState :: string
  srLastTool :: string
  srToolCalls :: int
  srPane :: string
  srPid :: int
  srPrNumber :: int
  srPrURL :: string
  srStartedAt :: string
  srLastEventAt :: string
  srStaleText :: string
  srMission :: "string option"
  srLastResponse :: "string option"
  srPaneTitle :: "string option"

record claude_db = core_db +
  sessions :: "SessRow list"
  folds :: "(string \<times> string \<times> string) list"

text \<open>\<open>migrate\<close>: the schema, then three added columns, whose \<open>duplicate column\<close> error is tolerated;
  \<open>dup\<close> says which of the failing statements failed for that reason.\<close>

fun addColumns :: "bool list \<Rightarrow> 'a claude_db_scheme \<Rightarrow> unit res \<times> 'a claude_db_scheme" where
  "addColumns [] s = (Inr (), s)"
| "addColumns (dup # ds) s =
     (let (ok, s1) = stmt s in if ok \<or> dup then addColumns ds s1 else (Inl ''claude: migrate add'', s1))"

definition claudeMigrate :: "bool \<times> bool \<times> bool \<Rightarrow> 'a claude_db_scheme \<Rightarrow> unit res \<times> 'a claude_db_scheme" where
  "claudeMigrate dup s =
     (let (ok, s1) = stmt s in
      if \<not> ok then (Inl ''claude: migrate'', s1)
      else case dup of (a, b, c) \<Rightarrow> addColumns [a, b, c] (fold createTable [''claude_sessions'', ''claude_folds''] s1))"

definition keepStr :: "string \<Rightarrow> string \<Rightarrow> string" where
  "keepStr new old = (if new \<noteq> [] then new else old)"

definition keepInt :: "int \<Rightarrow> int \<Rightarrow> int" where
  "keepInt new old = (if new \<noteq> 0 then new else old)"

text \<open>The row \<open>insertCols\<close> builds.\<close>

definition insertRow :: "foldInput \<Rightarrow> string \<Rightarrow> string \<Rightarrow> string \<Rightarrow> int \<Rightarrow> string \<Rightarrow> string \<Rightarrow> SessRow" where
  "insertRow fi host st lastTool inc stale ts =
     (let e = fiEnrich fi in
      \<lparr>srSid = fiSid fi, srHostId = host, srCwd = eCwd e, srGitBranch = eGitBranch e, srIssueNumber = eIssueNumber e, srModel = eModel e,
       srState = st, srLastTool = lastTool, srToolCalls = inc, srPane = fiPane fi, srPid = fiPid fi, srPrNumber = ePrNumber e,
       srPrURL = ePrURL e, srStartedAt = ts, srLastEventAt = ts, srStaleText = stale,
       srMission = None, srLastResponse = None, srPaneTitle = None\<rparr>)"

text \<open>\<open>enrichSet\<close>: \<open>r\<close> is the stored row, \<open>x\<close> the row excluded by the conflict.\<close>

definition enrichSet :: "SessRow \<Rightarrow> SessRow \<Rightarrow> SessRow" where
  "enrichSet r x = r\<lparr>srLastEventAt := srLastEventAt x, srCwd := keepStr (srCwd x) (srCwd r),
     srGitBranch := keepStr (srGitBranch x) (srGitBranch r), srIssueNumber := keepInt (srIssueNumber x) (srIssueNumber r),
     srModel := keepStr (srModel x) (srModel r), srPane := keepStr (srPane x) (srPane r), srPid := keepInt (srPid x) (srPid r),
     srPrNumber := keepInt (srPrNumber x) (srPrNumber r), srPrURL := keepStr (srPrURL x) (srPrURL r)\<rparr>"

definition foldSet :: "SessRow \<Rightarrow> SessRow \<Rightarrow> SessRow" where
  "foldSet r x = enrichSet (r\<lparr>srState := srState x, srToolCalls := srToolCalls r + srToolCalls x,
     srLastTool := keepStr (srLastTool x) (srLastTool r), srStaleText := keepStr (srStaleText x) (srStaleText r)\<rparr>) x"

definition sessAt :: "'a claude_db_scheme \<Rightarrow> string \<Rightarrow> SessRow option" where
  "sessAt s sid = tblGet srSid sid (sessions s)"

definition stateOf :: "string \<Rightarrow> 'a claude_db_scheme \<Rightarrow> string \<times> 'a claude_db_scheme" where
  "stateOf sid s =
     (let (ok, s1) = stmt s in (if ok then (case sessAt s1 sid of None \<Rightarrow> [] | Some r \<Rightarrow> srState r) else [], s1))"

definition applyFold :: "foldInput \<Rightarrow> string \<Rightarrow> instant \<Rightarrow> 'a claude_db_scheme \<Rightarrow> bool res \<times> 'a claude_db_scheme" where
  "applyFold fi host now s =
     (let (ok, s1) = stmt s in
      if \<not> ok then (Inl ''claude: dedup'', s1)
      else if (fiSid fi, fiEvent fi, fiTs fi) \<in> set (folds s1) then (Inr False, s1)
      else let s2 = s1\<lparr>folds := folds s1 @ [(fiSid fi, fiEvent fi, fiTs fi)]\<rparr>;
               (prev, s3) = stateOf (fiSid fi) s2;
               (next, toolCall, ended) = foldEvent prev (fiEvent fi) (fiPermissionAsk fi);
               ts = formatRFC3339Nano now;
               x = insertRow fi host next (if toolCall then fiTool fi else []) (if toolCall then 1 else 0) (if ended then ts else []) ts;
               (ok4, s4) = stmt s3 in
      if \<not> ok4 then (Inl ''claude: fold'', s4)
      else (Inr True, s4\<lparr>sessions := tblMerge srSid foldSet x (sessions s4)\<rparr>))"

definition enrichInput :: "string \<Rightarrow> enrichment \<Rightarrow> foldInput" where
  "enrichInput sid e = \<lparr>fiSid = sid, fiEvent = [], fiTs = [], fiTool = [], fiPermissionAsk = False, fiPane = [], fiPid = 0, fiEnrich = e\<rparr>"

definition applyEnrichment :: "string \<Rightarrow> string \<Rightarrow> enrichment \<Rightarrow> instant \<Rightarrow> 'a claude_db_scheme \<Rightarrow> unit res \<times> 'a claude_db_scheme" where
  "applyEnrichment sid host e now s =
     (let (ok, s1) = stmt s in
      if \<not> ok then (Inl ''claude: enrich'', s1)
      else (Inr (), s1\<lparr>sessions := tblMerge srSid enrichSet
              (insertRow (enrichInput sid e) host stateIdle [] 0 [] (formatRFC3339Nano now)) (sessions s1)\<rparr>))"

subsection \<open>State files\<close>

definition missionMaxRunes :: nat where "missionMaxRunes = 120"
definition lastResponseMaxRunes :: nat where "lastResponseMaxRunes = 200"

text \<open>The bytes that ranging over a string takes for its next rune: a well-formed UTF-8 sequence, or
  one byte of an ill-formed one.\<close>

definition byteIn :: "nat \<Rightarrow> nat \<Rightarrow> char \<Rightarrow> bool" where
  "byteIn lo hi c \<longleftrightarrow> lo \<le> of_char c \<and> of_char c \<le> hi"

fun runeWidth :: "string \<Rightarrow> nat" where
  "runeWidth (a # b # c # d # _) =
     (if byteIn 194 223 a \<and> byteIn 128 191 b then 2
      else if (byteIn 224 224 a \<and> byteIn 160 191 b \<or> byteIn 225 236 a \<and> byteIn 128 191 b \<or> byteIn 237 237 a \<and> byteIn 128 159 b
               \<or> byteIn 238 239 a \<and> byteIn 128 191 b) \<and> byteIn 128 191 c then 3
      else if (byteIn 240 240 a \<and> byteIn 144 191 b \<or> byteIn 241 243 a \<and> byteIn 128 191 b \<or> byteIn 244 244 a \<and> byteIn 128 143 b)
               \<and> byteIn 128 191 c \<and> byteIn 128 191 d then 4
      else 1)"
| "runeWidth [a, b, c] =
     (if byteIn 194 223 a \<and> byteIn 128 191 b then 2
      else if (byteIn 224 224 a \<and> byteIn 160 191 b \<or> byteIn 225 236 a \<and> byteIn 128 191 b \<or> byteIn 237 237 a \<and> byteIn 128 159 b
               \<or> byteIn 238 239 a \<and> byteIn 128 191 b) \<and> byteIn 128 191 c then 3
      else 1)"
| "runeWidth [a, b] = (if byteIn 194 223 a \<and> byteIn 128 191 b then 2 else 1)"
| "runeWidth _ = 1"

text \<open>\<open>truncRunes\<close>: after \<open>n\<close> runes the rest is cut off.\<close>

fun truncRunes :: "string \<Rightarrow> nat \<Rightarrow> string" where
  "truncRunes s 0 = []"
| "truncRunes s (Suc n) = (if s = [] then [] else take (runeWidth s) s @ truncRunes (drop (runeWidth s) s) n)"

definition setIf :: "string \<Rightarrow> string \<Rightarrow> string" where
  "setIf dst v = (if v \<noteq> [] then v else dst)"

definition hasFold :: "string \<Rightarrow> 'a claude_db_scheme \<Rightarrow> bool \<times> 'a claude_db_scheme" where
  "hasFold sid s = (let (ok, s1) = stmt s in (ok \<and> list_ex (\<lambda>(i, _, _). i = sid) (folds s1), s1))"

text \<open>A scanned row; a time that does not parse is the zero time.\<close>

record ClaudeRow =
  crHostID :: string
  crSessionID :: string
  crCwd :: string
  crGitBranch :: string
  crModel :: string
  crState :: string
  crLastTool :: string
  crPane :: string
  crPrURL :: string
  crMission :: string
  crLastResponse :: string
  crPaneTitle :: string
  crIssueNumber :: int
  crToolCalls :: int
  crPid :: int
  crPrNumber :: int
  crStartedAt :: instant
  crLastEventAt :: instant
  crStaleSince :: "instant option"

definition orEmpty :: "string option \<Rightarrow> string" where
  "orEmpty t = (case t of None \<Rightarrow> [] | Some x \<Rightarrow> x)"

definition parseOrZero :: "string \<Rightarrow> instant" where
  "parseOrZero t = (case parseRFC3339 t of None \<Rightarrow> - 62135596800 * 1000000000 | Some x \<Rightarrow> x)"

definition scanRow :: "SessRow \<Rightarrow> ClaudeRow" where
  "scanRow r = \<lparr>crHostID = srHostId r, crSessionID = srSid r, crCwd = srCwd r, crGitBranch = srGitBranch r, crModel = srModel r,
     crState = srState r, crLastTool = srLastTool r, crPane = srPane r, crPrURL = srPrURL r, crMission = orEmpty (srMission r),
     crLastResponse = orEmpty (srLastResponse r), crPaneTitle = orEmpty (srPaneTitle r), crIssueNumber = srIssueNumber r,
     crToolCalls = srToolCalls r, crPid = srPid r, crPrNumber = srPrNumber r, crStartedAt = parseOrZero (srStartedAt r),
     crLastEventAt = parseOrZero (srLastEventAt r),
     crStaleSince = (if srStaleText r \<noteq> [] then parseRFC3339 (srStaleText r) else None)\<rparr>"

definition getSession :: "string \<Rightarrow> 'a claude_db_scheme \<Rightarrow> ClaudeRow option res \<times> 'a claude_db_scheme" where
  "getSession sid s =
     (let (ok, s1) = stmt s in
      if \<not> ok then (Inl ''claude: get'', s1) else (Inr (map_option scanRow (sessAt s1 sid)), s1))"

definition stateFileRow :: "stateFile \<Rightarrow> string \<Rightarrow> bool \<Rightarrow> ClaudeRow option \<Rightarrow> string \<times> string \<times> string \<times> string \<times> string \<times> string \<times> int" where
  "stateFileRow sf paneTitle folded cur =
     (let cwd = (case cur of None \<Rightarrow> [] | Some c \<Rightarrow> crCwd c); pane = (case cur of None \<Rightarrow> [] | Some c \<Rightarrow> crPane c);
          st = (case cur of None \<Rightarrow> stateIdle | Some c \<Rightarrow> crState c); mission = (case cur of None \<Rightarrow> [] | Some c \<Rightarrow> crMission c);
          resp = (case cur of None \<Rightarrow> [] | Some c \<Rightarrow> crLastResponse c); title = (case cur of None \<Rightarrow> [] | Some c \<Rightarrow> crPaneTitle c);
          pid = (case cur of None \<Rightarrow> 0 | Some c \<Rightarrow> crPid c)
      in (setIf cwd (sfCwd sf), setIf pane (sfPane sf), if folded then st else setIf st (sfState sf),
          setIf mission (truncRunes (sfFirstPrompt sf) missionMaxRunes), setIf resp (truncRunes (sfLastResponse sf) lastResponseMaxRunes),
          setIf title paneTitle, if sfPid sf \<noteq> 0 then sfPid sf else pid))"

definition applyStateFile ::
  "stateFile \<Rightarrow> string \<Rightarrow> string \<Rightarrow> instant \<Rightarrow> 'a claude_db_scheme \<Rightarrow> bool res \<times> 'a claude_db_scheme" where
  "applyStateFile sf paneTitle host now s =
     (case getSession (sfSID sf) s of
        (Inl e, s1) \<Rightarrow> (Inl e, s1)
      | (Inr cur, s1) \<Rightarrow>
          (let (folded, s2) = hasFold (sfSID sf) s1;
               (cwd, pane, st, mission, resp, title, pid) = stateFileRow sf paneTitle folded cur in
           if (case cur of None \<Rightarrow> False | Some c \<Rightarrow> cwd = crCwd c \<and> pane = crPane c \<and> st = crState c \<and> mission = crMission c
                 \<and> resp = crLastResponse c \<and> title = crPaneTitle c \<and> pid = crPid c)
           then (Inr False, s2)
           else let ts = formatRFC3339Nano now; (ok, s3) = stmt s2 in
           if \<not> ok then (Inl ''claude: statefile'', s3)
           else case cur of
             None \<Rightarrow> (if tblHas srSid (sfSID sf) (sessions s3) then (Inl ''claude: statefile'', s3)
               else (Inr True, s3\<lparr>sessions := sessions s3 @ [\<lparr>srSid = sfSID sf, srHostId = host, srCwd = cwd, srGitBranch = [], srIssueNumber = 0,
                 srModel = [], srState = st, srLastTool = [], srToolCalls = 0, srPane = pane, srPid = pid, srPrNumber = 0, srPrURL = [],
                 srStartedAt = ts, srLastEventAt = ts, srStaleText = [], srMission = Some mission, srLastResponse = Some resp,
                 srPaneTitle = Some title\<rparr>]\<rparr>))
           | Some _ \<Rightarrow> (Inr True, s3\<lparr>sessions := tblUpdate (\<lambda>r. srSid r = sfSID sf)
               (\<lambda>r. r\<lparr>srCwd := cwd, srState := st, srPane := pane, srPid := pid, srLastEventAt := ts, srMission := Some mission,
                      srLastResponse := Some resp, srPaneTitle := Some title\<rparr>) (sessions s3)\<rparr>)))"

subsection \<open>Reads and maintenance\<close>

definition listSessions :: "string option \<Rightarrow> int option \<Rightarrow> 'a claude_db_scheme \<Rightarrow> ClaudeRow list res \<times> 'a claude_db_scheme" where
  "listSessions host issue s =
     (let (ok, s1) = stmt s in
      if \<not> ok then (Inl ''claude: query'', s1)
      else (Inr (map scanRow (sort_key srSid (filter (\<lambda>r. (case host of None \<Rightarrow> True | Some h \<Rightarrow> srHostId r = h)
              \<and> (case issue of None \<Rightarrow> True | Some i \<Rightarrow> srIssueNumber r = i)) (sessions s1)))), s1))"

definition claudeInstances :: "string option \<Rightarrow> 'a claude_db_scheme \<Rightarrow> ClaudeRow list res \<times> 'a claude_db_scheme" where
  "claudeInstances host s =
     (let (ok, s1) = stmt s in
      if \<not> ok then (Inl ''claude: query'', s1)
      else (Inr (map scanRow (sort_key srPane (filter (\<lambda>r. srPane r \<noteq> [] \<and> (case host of None \<Rightarrow> True | Some h \<Rightarrow> srHostId r = h)) (sessions s1)))), s1))"

fun pruneSids :: "string list \<Rightarrow> 'a claude_db_scheme \<Rightarrow> unit res \<times> 'a claude_db_scheme" where
  "pruneSids [] s = (Inr (), s)"
| "pruneSids (sid # sids) s =
     (let (ok, s1) = stmt s in
      if \<not> ok then (Inl ''claude: prune session'', s1)
      else let (ok2, s2) = stmt (s1\<lparr>sessions := tblDelete (\<lambda>r. srSid r = sid) (sessions s1)\<rparr>) in
      if \<not> ok2 then (Inl ''claude: prune folds'', s2)
      else pruneSids sids (s2\<lparr>folds := tblDelete (\<lambda>(i, _, _). i = sid) (folds s2)\<rparr>))"

definition prune :: "instant \<Rightarrow> 'a claude_db_scheme \<Rightarrow> unit res \<times> 'a claude_db_scheme" where
  "prune cutoff s =
     (let (ok, s1) = stmt s in
      if \<not> ok then (Inl ''claude: prune scan'', s1)
      else pruneSids (map srSid (filter (\<lambda>r. case parseRFC3339 (srLastEventAt r) of None \<Rightarrow> False | Some t \<Rightarrow> t < cutoff) (sessions s1))) s1)"

fun markDead :: "string \<Rightarrow> string list \<Rightarrow> 'a claude_db_scheme \<Rightarrow> string list res \<times> 'a claude_db_scheme" where
  "markDead ts [] s = (Inr [], s)"
| "markDead ts (sid # sids) s =
     (let (ok, s1) = stmt s in
      if \<not> ok then (Inl ''update'', s1)
      else case markDead ts sids (s1\<lparr>sessions := tblUpdate (\<lambda>r. srSid r = sid) (\<lambda>r. r\<lparr>srStaleText := ts\<rparr>) (sessions s1)\<rparr>) of
             (Inl e, s2) \<Rightarrow> (Inl e, s2)
           | (Inr out, s2) \<Rightarrow> (Inr (sid # out), s2))"

definition staleScan :: "instant \<Rightarrow> (int \<Rightarrow> bool) \<Rightarrow> 'a claude_db_scheme \<Rightarrow> string list res \<times> 'a claude_db_scheme" where
  "staleScan now alive s =
     (let (ok, s1) = stmt s in
      if \<not> ok then (Inl ''select'', s1)
      else markDead (formatRFC3339Nano now)
             (map srSid (filter (\<lambda>r. srPid r \<noteq> 0 \<and> srState r \<noteq> stateEnded \<and> srStaleText r = [] \<and> \<not> alive (srPid r)) (sessions s1))) s1)"

end
