(* ===== verification/Claude.thy ===== *)
theory Claude
  imports ClaudeStore GoNet
begin

text \<open>
  \<open>plugins/claude\<close>, the running half: configuration and queries (\<open>claude.go\<close>), the hook ingress
  (\<open>hook.go\<close>), the state-file channel (\<open>statefile.go\<close>) and the transcript tail with its
  byte-offset cursors, the liveness sweep and the retention (\<open>tail.go\<close>). The file system, the
  process table, tmux and the JSON codec are arguments. A file's size is taken below \<open>2^63\<close>.
\<close>

record claudeConfig =
  ccProjectsDir :: string
  ccSettingsPath :: string
  ccStateDir :: string
  ccPaneTitles :: bool
  ccScanInterval :: duration
  ccRetentionDays :: int
  ccPidLiveness :: bool
  ccPanicInject :: bool

definition expandTilde :: "string \<Rightarrow> string \<Rightarrow> string" where
  "expandTilde path home = (if home \<noteq> [] \<and> hasPrefix path ''~/'' then pathJoin [home, drop 2 path] else path)"

text \<open>\<open>New\<close>: \<open>home\<close> is empty when the home directory is unknown, \<open>env\<close> is \<open>SUPERGRAPH_CLAUDE_PANIC\<close>.\<close>

definition claudeNew :: "string \<Rightarrow> string \<Rightarrow> obj option \<Rightarrow> claudeConfig" where
  "claudeNew home env raw =
     \<lparr>ccProjectsDir = cfgStr raw ''projectsDir'' (pathJoin [home, ''.claude'', ''projects'']),
      ccSettingsPath = cfgStr raw ''settingsPath'' (pathJoin [home, ''.claude'', ''settings.json'']),
      ccStateDir = expandTilde (cfgStr raw ''stateDir'' []) home,
      ccPaneTitles = cfgBool raw ''paneTitles'' False,
      ccScanInterval = (let n = cfgInt raw ''scanIntervalSeconds'' 0 in if n > 0 then durMul n second else 5 * second),
      ccRetentionDays = cfgInt raw ''retentionDays'' 30,
      ccPidLiveness = cfgBool raw ''pidLiveness'' True,
      ccPanicInject = cfgBool raw ''panic'' (env = ''1'')\<rparr>"

record claudeEnv =
  ccfg :: claudeConfig
  cHost :: string
  cMarshal :: "any \<Rightarrow> string"
  cUnmarshal :: "string \<Rightarrow> any option"

record claudeSt =
  cdb :: claude_db
  cEmitOn :: bool
  cEmitted :: "envelope list"

definition onCdb :: "(claude_db \<Rightarrow> 'r \<times> claude_db) \<Rightarrow> claudeSt \<Rightarrow> 'r \<times> claudeSt" where
  "onCdb f p = (let (r, d) = f (cdb p) in (r, p\<lparr>cdb := d\<rparr>))"

definition claudeEmit :: "claudeEnv \<Rightarrow> instant \<Rightarrow> string \<Rightarrow> string \<Rightarrow> obj \<Rightarrow> claudeSt \<Rightarrow> claudeSt" where
  "claudeEmit E now typ key payload p =
     (if cEmitOn p
      then p\<lparr>cEmitted := cEmitted p @ [\<lparr>TS = now, Source = ''claude'', EType = typ, V = 1, Key = key, Payload = cMarshal E (AObj payload)\<rparr>]\<rparr>
      else p)"

definition sessionPayload :: "string \<Rightarrow> ClaudeRow \<Rightarrow> obj" where
  "sessionPayload sid r = [(''sid'', AStr sid), (''state'', AStr (crState r)), (''cwd'', AStr (crCwd r)), (''gitBranch'', AStr (crGitBranch r)),
     (''issueNumber'', AInt (crIssueNumber r)), (''model'', AStr (crModel r)), (''lastTool'', AStr (crLastTool r)), (''toolCalls'', AInt (crToolCalls r))]"

definition emitSessionUpdated :: "claudeEnv \<Rightarrow> instant \<Rightarrow> string \<Rightarrow> claudeSt \<Rightarrow> claudeSt" where
  "emitSessionUpdated E now sid p =
     (case onCdb (getSession sid) p of
        (Inr (Some r), p1) \<Rightarrow> claudeEmit E now ''claude.session.updated'' (claudeSessionKey sid (cHost E)) (sessionPayload sid r) p1
      | (_, p1) \<Rightarrow> p1)"

subsection \<open>Hooks\<close>

definition maxHookBody :: nat where
  "maxHookBody = 1024 * 1024"

definition sessionIDRe :: "string \<Rightarrow> bool" where
  "sessionIDRe s \<longleftrightarrow> s \<noteq> [] \<and> list_all (\<lambda>c. byteIn 65 90 c \<or> byteIn 97 122 c \<or> isDigit c \<or> c \<in> set ''._-'') s"

definition validSessionID :: "string \<Rightarrow> bool" where
  "validSessionID s \<longleftrightarrow> s \<noteq> [] \<and> length s \<le> 128 \<and> sessionIDRe s"

definition emitForFold :: "claudeEnv \<Rightarrow> instant \<Rightarrow> foldInput \<Rightarrow> claudeSt \<Rightarrow> claudeSt" where
  "emitForFold E now fi p0 =
     (let key = claudeSessionKey (fiSid fi) (cHost E);
          p1 = emitSessionUpdated E now (fiSid fi) p0;
          p2 = (if fiEvent fi = ''PreToolUse'' \<and> fiTool fi \<noteq> []
                then claudeEmit E now ''claude.tool.used'' key [(''sid'', AStr (fiSid fi)), (''tool'', AStr (fiTool fi))] p1 else p1);
          p3 = (if fiPermissionAsk fi
                then claudeEmit E now ''claude.session.input'' key [(''sid'', AStr (fiSid fi)), (''awaitingInput'', ABool True)] p2 else p2);
          p4 = (if fiEvent fi = ''SessionEnd'' then claudeEmit E now ''claude.session.ended'' key [(''sid'', AStr (fiSid fi))] p3 else p3)
      in if fiPane fi \<noteq> []
         then claudeEmit E now ''claude.instance.updated'' (instanceKey (fiPane fi) (cHost E))
                [(''sid'', AStr (fiSid fi)), (''pane'', AStr (fiPane fi)), (''pid'', AInt (fiPid fi))] p4
         else p4)"

definition hookStamp :: "instant \<Rightarrow> foldInput \<Rightarrow> foldInput" where
  "hookStamp now fi = (if fiTs fi = [] then fi\<lparr>fiTs := formatRFC3339Nano now\<rparr> else fi)"

text \<open>\<open>handleHook\<close>: the status and the state after the handler.\<close>

definition handleHook :: "claudeEnv \<Rightarrow> instant \<Rightarrow> read_err + string \<Rightarrow> claudeSt \<Rightarrow> int \<times> claudeSt" where
  "handleHook E now body p =
     (case (case body of Inl e \<Rightarrow> Inl e | Inr b \<Rightarrow> if length b > maxHookBody then Inl MaxBytesError else Inr b) of
        Inl e \<Rightarrow> (ReadErrStatus e, p)
      | Inr b \<Rightarrow>
          (case Option.bind (cUnmarshal E b) decodeHook of
             None \<Rightarrow> (400, p)
           | Some hp \<Rightarrow>
               if \<not> validSessionID (hpSessionID hp) \<or> hpEvent hp \<notin> set knownEvents then (400, p)
               else (let fi = hookStamp now (projectHook hp) in
                     case onCdb (applyFold fi (cHost E) now) p of
                       (Inl _, p1) \<Rightarrow> (500, p1)
                     | (Inr applied, p1) \<Rightarrow> (200, if applied then emitForFold E now fi p1 else p1))))"

subsection \<open>State files\<close>

definition paneTitleMap :: "claudeEnv \<Rightarrow> string option \<Rightarrow> (string \<times> string) list" where
  "paneTitleMap E out =
     (if \<not> ccPaneTitles (ccfg E) then []
      else case out of
             None \<Rightarrow> []
           | Some o' \<Rightarrow> fold (\<lambda>line m. case cut (CHR 0x09) line of (i, title, ok) \<Rightarrow>
               if ok \<and> i \<noteq> [] then tblUpsert fst (i, title) m else m)
               (splitOn (CHR 0x0A) (trimRightByte (CHR 0x0A) o')) [])"

definition titleOf :: "(string \<times> string) list \<Rightarrow> string \<Rightarrow> string" where
  "titleOf titles pane = (case map_of titles pane of None \<Rightarrow> [] | Some t \<Rightarrow> t)"

definition scanStateFile :: "claudeEnv \<Rightarrow> instant \<Rightarrow> (string \<times> string) list \<Rightarrow> string option \<Rightarrow> claudeSt \<Rightarrow> claudeSt" where
  "scanStateFile E now titles data p =
     (case data of
        None \<Rightarrow> p
      | Some d \<Rightarrow>
          (case Option.bind (cUnmarshal E d) decodeStateFile of
             None \<Rightarrow> p
           | Some sf \<Rightarrow>
               if \<not> validSessionID (sfSID sf) then p
               else (case onCdb (applyStateFile sf (titleOf titles (sfPane sf)) (cHost E) now) p of
                       (Inr True, p1) \<Rightarrow> emitSessionUpdated E now (sfSID sf) p1
                     | (_, p1) \<Rightarrow> p1)))"

text \<open>\<open>files\<close> are the contents the glob finds, \<open>None\<close> for one that cannot be read; \<open>tmux\<close> is the output of
  \<open>list-panes\<close>.\<close>

definition scanStateFiles :: "claudeEnv \<Rightarrow> instant \<Rightarrow> string option \<Rightarrow> string option list \<Rightarrow> claudeSt \<Rightarrow> claudeSt" where
  "scanStateFiles E now tmux files p =
     (if ccStateDir (ccfg E) = [] then p
      else fold (scanStateFile E now (paneTitleMap E tmux)) files p)"

subsection \<open>Transcript tail\<close>

definition maxTranscriptLine :: nat where
  "maxTranscriptLine = 1024 * 1024"

definition tailKey :: "string \<Rightarrow> string" where
  "tailKey path = ''tail:'' @ path"

text \<open>\<open>readLine\<close> from the unread bytes: \<open>buf\<close> is reversed, \<open>n\<close> counts the bytes consumed. The result is the
  line (\<open>None\<close> when oversized), the number of bytes and the rest; \<open>None\<close> is an incomplete line.\<close>

fun readBytes :: "nat \<Rightarrow> string \<Rightarrow> bool \<Rightarrow> nat \<Rightarrow> string \<Rightarrow> (string option \<times> nat \<times> string) option" where
  "readBytes cap buf over n [] = None"
| "readBytes cap buf over n (b # rest) =
     (let over' = (over \<or> length buf \<ge> cap); buf' = (if over' then [] else b # buf) in
      if b = CHR 0x0A then Some (if over' then None else Some (rev buf'), Suc n, rest)
      else readBytes cap buf' over' (Suc n) rest)"

definition readLine :: "nat \<Rightarrow> string \<Rightarrow> (string option \<times> nat \<times> string) option" where
  "readLine cap rd = readBytes cap [] False 0 rd"

lemma readBytes_rest: "readBytes cap buf over n rd = Some (l, m, rest) \<Longrightarrow> length rest < length rd"
  by (induction rd arbitrary: buf over n) (auto simp: Let_def split: if_splits intro: less_SucI)

text \<open>The loop of \<open>scanFile\<close>: the lines to fold and the bytes consumed.\<close>

function scanLines :: "nat \<Rightarrow> string \<Rightarrow> string list \<times> nat" where
  "scanLines cap rd =
     (case readLine cap rd of
        None \<Rightarrow> ([], 0)
      | Some (line, n, rest) \<Rightarrow>
          (let (ls, m) = scanLines cap rest in ((case line of None \<Rightarrow> ls | Some l \<Rightarrow> l # ls), n + m)))"
  by pat_completeness auto
termination
  by (relation "measure (\<lambda>(cap, rd). length rd)") (auto simp: readLine_def dest: readBytes_rest)

declare scanLines.simps [simp del]

fun applyFolds :: "claudeEnv \<Rightarrow> instant \<Rightarrow> foldInput list \<Rightarrow> claudeSt \<Rightarrow> claudeSt" where
  "applyFolds E now [] p = p"
| "applyFolds E now (fi0 # fis) p =
     (let fi = hookStamp now fi0 in
      case onCdb (applyFold fi (cHost E) now) p of
        (Inr True, p1) \<Rightarrow> applyFolds E now fis (emitForFold E now fi p1)
      | (_, p1) \<Rightarrow> applyFolds E now fis p1)"

definition foldLine :: "claudeEnv \<Rightarrow> instant \<Rightarrow> string \<Rightarrow> claudeSt \<Rightarrow> claudeSt" where
  "foldLine E now line p =
     (case Option.bind (cUnmarshal E line) decodeRecord of
        None \<Rightarrow> p
      | Some rec \<Rightarrow>
          if trSessionID rec = [] then p
          else (let (enr, fis) = projectRecord rec in
                case onCdb (applyEnrichment (trSessionID rec) (cHost E) enr now) p of
                  (Inl _, p1) \<Rightarrow> applyFolds E now fis p1
                | (Inr _, p1) \<Rightarrow> applyFolds E now fis (emitSessionUpdated E now (trSessionID rec) p1)))"

definition claudeCursor :: "string \<Rightarrow> claude_db \<Rightarrow> string \<times> claude_db" where
  "claudeCursor name s = (case Cursor name s of (Inl _, s1) \<Rightarrow> ([], s1) | (Inr v, s1) \<Rightarrow> (v, s1))"

definition scanFile :: "claudeEnv \<Rightarrow> instant \<Rightarrow> string \<times> string option \<Rightarrow> claudeSt \<Rightarrow> claudeSt" where
  "scanFile E now file p =
     (case file of (path, content) \<Rightarrow>
        (let (v, p1) = onCdb (claudeCursor (tailKey path)) p; off = atoiVal (atoi v) in
         case content of
           None \<Rightarrow> p1
         | Some c \<Rightarrow>
             if int (length c) \<le> off then p1
             else if off < 0 then p1
             else (let (ls, n) = scanLines maxTranscriptLine (drop (nat off) c);
                       p2 = fold (foldLine E now) ls p1
                   in if n \<noteq> 0 then snd (onCdb (SetCursor (tailKey path) (itoa (off + int n))) p2) else p2)))"

definition sweepOne :: "claudeEnv \<Rightarrow> instant \<Rightarrow> string \<Rightarrow> claudeSt \<Rightarrow> claudeSt" where
  "sweepOne E now sid p = emitSessionUpdated E now sid
     (claudeEmit E now ''claude.session.ended'' (claudeSessionKey sid (cHost E)) [(''sid'', AStr sid)] p)"

definition sweep :: "claudeEnv \<Rightarrow> instant \<Rightarrow> (int \<Rightarrow> bool) \<Rightarrow> claudeSt \<Rightarrow> claudeSt" where
  "sweep E now alive p =
     (if \<not> ccPidLiveness (ccfg E) then p
      else case onCdb (staleScan now alive) p of
             (Inl _, p1) \<Rightarrow> p1
           | (Inr dead, p1) \<Rightarrow> fold (sweepOne E now) dead p1)"

text \<open>\<open>kill(pid, 0)\<close>: \<open>None\<close> is success, \<open>Some e\<close> an error number; EPERM is 1.\<close>

definition realAlive :: "(int \<Rightarrow> int option) \<Rightarrow> int \<Rightarrow> bool" where
  "realAlive kill0 pid \<longleftrightarrow> pid > 0 \<and> (kill0 pid = None \<or> kill0 pid = Some 1)"

definition scanOnce ::
  "claudeEnv \<Rightarrow> instant \<Rightarrow> string option \<Rightarrow> string option list \<Rightarrow> (string \<times> string option) list \<Rightarrow> (int \<Rightarrow> bool) \<Rightarrow> claudeSt \<Rightarrow> claudeSt" where
  "scanOnce E now tmux stateFiles transcripts alive p =
     (let p1 = scanStateFiles E now tmux stateFiles p;
          p2 = fold (scanFile E now) transcripts p1;
          p3 = sweep E now alive p2
      in if ccRetentionDays (ccfg E) > 0
         then snd (onCdb (prune (now - durMul (durMul (ccRetentionDays (ccfg E)) 24) hour)) p3) else p3)"

subsection \<open>Queries\<close>

definition claudeHealthCursor :: "claudeSt \<Rightarrow> string \<times> claudeSt" where
  "claudeHealthCursor p =
     (case onCdb (listSessions None None) p of
        (Inl _, p1) \<Rightarrow> (''sessions='' @ itoa 0, p1)
      | (Inr rs, p1) \<Rightarrow> (''sessions='' @ itoa (int (length rs)), p1))"

definition liveRows :: "(claude_db \<Rightarrow> ClaudeRow list res \<times> claude_db) \<Rightarrow> claude_db single_ptr \<Rightarrow> ClaudeRow list \<times> claude_db single_ptr" where
  "liveRows f cur =
     (case singleGet cur of
        None \<Rightarrow> ([], cur)
      | Some s \<Rightarrow> (case f s of (Inl _, s1) \<Rightarrow> ([], singleSet s1 cur) | (Inr rs, s1) \<Rightarrow> (rs, singleSet s1 cur)))"

definition QuerySessions :: "string option \<Rightarrow> int option \<Rightarrow> claude_db single_ptr \<Rightarrow> ClaudeRow list \<times> claude_db single_ptr" where
  "QuerySessions host issue cur = liveRows (listSessions host issue) cur"

definition QuerySession :: "string \<Rightarrow> claude_db single_ptr \<Rightarrow> ClaudeRow option \<times> claude_db single_ptr" where
  "QuerySession sid cur =
     (case singleGet cur of
        None \<Rightarrow> (None, cur)
      | Some s \<Rightarrow> (case getSession sid s of (Inl _, s1) \<Rightarrow> (None, singleSet s1 cur) | (Inr r, s1) \<Rightarrow> (r, singleSet s1 cur)))"

definition QueryInstances :: "string option \<Rightarrow> claude_db single_ptr \<Rightarrow> ClaudeRow list \<times> claude_db single_ptr" where
  "QueryInstances host cur = liveRows (claudeInstances host) cur"

subsection \<open>Lemmas\<close>

lemma onCdb_pair: "onCdb f p = (fst (f (cdb p)), p\<lparr>cdb := snd (f (cdb p))\<rparr>)"
  by (simp add: onCdb_def split: prod.splits)

lemma claudeEmit_db [simp]: "cdb (claudeEmit E now t k o' p) = cdb p" "cEmitOn (claudeEmit E now t k o' p) = cEmitOn p"
  by (simp_all add: claudeEmit_def)

text \<open>A read leaves the tables as they are.\<close>

definition sameTables :: "claude_db \<Rightarrow> claude_db \<Rightarrow> bool" where
  "sameTables s t \<longleftrightarrow> (\<exists>fs. t = s\<lparr>faults := fs\<rparr>)"

lemma sameTables_refl [simp]: "sameTables s s"
  unfolding sameTables_def by (rule exI [of _ "faults s"]) simp

lemma sameTables_trans: "sameTables s t \<Longrightarrow> sameTables t u \<Longrightarrow> sameTables s u"
  by (auto simp: sameTables_def)

lemma sameTables_fields:
  "sameTables s t \<Longrightarrow> sessions t = sessions s \<and> folds t = folds s \<and> cursors t = cursors s"
  by (auto simp: sameTables_def)

lemma getSession_same: "sameTables s (snd (getSession sid s))"
  by (rule stmt_obtain [of s]) (auto simp: getSession_def sameTables_def)

lemma emitSessionUpdated_same: "sameTables (cdb p) (cdb (emitSessionUpdated E now sid p))"
  using getSession_same [of "cdb p" sid]
  by (simp add: emitSessionUpdated_def onCdb_pair split: sum.splits option.splits prod.splits)

lemma emitForFold_same: "sameTables (cdb p) (cdb (emitForFold E now fi p))"
  using emitSessionUpdated_same [of p E now "fiSid fi"]
  by (simp add: emitForFold_def Let_def)

subsection \<open>The dedup set of the folds\<close>

definition foldKey :: "foldInput \<Rightarrow> string \<times> string \<times> string" where
  "foldKey fi = (fiSid fi, fiEvent fi, fiTs fi)"

lemma applyFold_seen:
  assumes "foldKey fi \<in> set (folds s)"
  shows "applyFold fi host now s = (if fst (stmt s) then Inr False else Inl ''claude: dedup'', snd (stmt s))"
  using assms by (cases s rule: stmt_obtain) (simp_all add: applyFold_def foldKey_def)

text \<open>The row of a fold, from the state it folds.\<close>

definition foldRow :: "foldInput \<Rightarrow> string \<Rightarrow> instant \<Rightarrow> string \<Rightarrow> SessRow" where
  "foldRow fi host now prev =
     (case foldEvent prev (fiEvent fi) (fiPermissionAsk fi) of (next, toolCall, ended) \<Rightarrow>
        insertRow fi host next (if toolCall then fiTool fi else []) (if toolCall then 1 else 0)
          (if ended then formatRFC3339Nano now else []) (formatRFC3339Nano now))"

definition markFold :: "foldInput \<Rightarrow> claude_db \<Rightarrow> claude_db" where
  "markFold fi s = s\<lparr>folds := folds s @ [foldKey fi]\<rparr>"

definition putFold :: "foldInput \<Rightarrow> string \<Rightarrow> instant \<Rightarrow> string \<Rightarrow> claude_db \<Rightarrow> claude_db" where
  "putFold fi host now prev s = (markFold fi s)\<lparr>sessions := tblMerge srSid foldSet (foldRow fi host now prev) (sessions s)\<rparr>"

lemma stateOf_obtain: obtains prev fs where "stateOf sid s = (prev, s\<lparr>faults := fs\<rparr>)"
  by (rule stmt_obtain [of s]) (simp add: stateOf_def)

lemma faults_comm:
  "s\<lparr>faults := fs, sessions := rs\<rparr> = s\<lparr>sessions := rs, faults := fs\<rparr>" "s\<lparr>faults := fs, folds := ks\<rparr> = s\<lparr>folds := ks, faults := fs\<rparr>"
  "s\<lparr>faults := fs, cursors := cs\<rparr> = s\<lparr>cursors := cs, faults := fs\<rparr>"
  by simp_all

lemma applyFold_unseen:
  assumes "foldKey fi \<notin> set (folds s)"
  obtains (dedup) fs where "applyFold fi host now s = (Inl ''claude: dedup'', s\<lparr>faults := fs\<rparr>)"
  | (lost) fs where "applyFold fi host now s = (Inl ''claude: fold'', markFold fi (s\<lparr>faults := fs\<rparr>))"
  | (applied) fs prev where "applyFold fi host now s = (Inr True, putFold fi host now prev (s\<lparr>faults := fs\<rparr>))"
proof -
  obtain b fs where 1: "stmt s = (b, s\<lparr>faults := fs\<rparr>)" by (rule stmt_obtain)
  show thesis
  proof (cases b)
    case False
    with 1 dedup show ?thesis by (simp add: applyFold_def)
  next
    case True
    let ?m = "markFold fi (s\<lparr>faults := fs\<rparr>)"
    obtain prev fs' where 2: "stateOf (fiSid fi) ?m = (prev, ?m\<lparr>faults := fs'\<rparr>)" by (rule stateOf_obtain)
    obtain c fs'' where 3: "stmt (?m\<lparr>faults := fs'\<rparr>) = (c, ?m\<lparr>faults := fs'\<rparr>\<lparr>faults := fs''\<rparr>)" by (rule stmt_obtain)
    have m: "?m = s\<lparr>faults := fs, folds := folds s @ [(fiSid fi, fiEvent fi, fiTs fi)]\<rparr>"
      by (simp add: markFold_def foldKey_def)
    show ?thesis
    proof (cases c)
      case False
      with True 1 2 3 assms lost [of fs''] show ?thesis
        by (simp add: applyFold_def m foldKey_def markFold_def faults_comm case_prod_unfold Let_def)
    next
      case c: True
      with True 1 2 3 assms applied [of prev fs''] show ?thesis
        by (simp add: applyFold_def m foldKey_def markFold_def putFold_def foldRow_def faults_comm case_prod_unfold Let_def)
    qed
  qed
qed

lemma markFold_simps [simp]:
  "folds (markFold fi s) = folds s @ [foldKey fi]" "sessions (markFold fi s) = sessions s" "cursors (markFold fi s) = cursors s"
  "folds (putFold fi h now prev s) = folds s @ [foldKey fi]" "cursors (putFold fi h now prev s) = cursors s"
  by (simp_all add: markFold_def putFold_def)

lemma applyFold_marks:
  fixes s :: claude_db
  assumes "applyFold fi host now s = (Inr b, t)"
  shows "foldKey fi \<in> set (folds t)"
proof (cases "foldKey fi \<in> set (folds s)")
  case True
  with assms show ?thesis by (rule_tac stmt_obtain [of s]) (auto simp: applyFold_seen split: if_splits)
next
  case False
  show ?thesis by (rule applyFold_unseen [OF False, where host = host and now = now]) (use assms in auto)
qed

lemma applyFold_mono: "set (folds (s :: claude_db)) \<subseteq> set (folds (snd (applyFold fi host now s)))"
proof (cases "foldKey fi \<in> set (folds s)")
  case True
  then show ?thesis by (rule_tac stmt_obtain [of s]) (auto simp: applyFold_seen)
next
  case False
  show ?thesis by (rule applyFold_unseen [OF False, where host = host and now = now]) auto
qed

lemma handleHook_ok:
  assumes "cUnmarshal E b = Some v" "decodeHook v = Some hp" "length b \<le> maxHookBody"
    "validSessionID (hpSessionID hp)" "hpEvent hp \<in> set knownEvents"
  shows "handleHook E now (Inr b) p =
    (let fi = hookStamp now (projectHook hp) in
     case onCdb (applyFold fi (cHost E) now) p of
       (Inl _, p1) \<Rightarrow> (500, p1)
     | (Inr applied, p1) \<Rightarrow> (200, if applied then emitForFold E now fi p1 else p1))"
  using assms by (simp add: handleHook_def)

lemma handleHook_200:
  assumes "handleHook E now (Inr b) p = (200, q)"
  obtains v hp where "cUnmarshal E b = Some v" "decodeHook v = Some hp" "length b \<le> maxHookBody"
    "validSessionID (hpSessionID hp)" "hpEvent hp \<in> set knownEvents"
proof (cases "length b > maxHookBody")
  case True
  with assms show ?thesis by (simp add: handleHook_def ReadErrStatus.simps)
next
  case False
  with assms show ?thesis
    by (auto simp: handleHook_def bind_eq_Some_conv split: option.splits if_splits intro!: that)
qed

lemma emitForFold_folds [simp]: "folds (cdb (emitForFold E now fi p)) = folds (cdb p)"
  using sameTables_fields [OF emitForFold_same [of p E now fi]] by simp

lemma handleHook_mono: "set (folds (cdb p)) \<subseteq> set (folds (cdb (snd (handleHook E now body p))))"
proof -
  have "set (folds (cdb p)) \<subseteq> set (folds (snd (applyFold fi (cHost E) now (cdb p))))" for fi
    by (rule applyFold_mono)
  then show ?thesis
    by (simp add: handleHook_def onCdb_pair Let_def split: sum.splits option.splits)
qed

definition hookLog :: "claudeEnv \<Rightarrow> (instant \<times> string) list \<Rightarrow> claudeSt \<Rightarrow> claudeSt" where
  "hookLog E hs p = fold (\<lambda>(now, b) p. snd (handleHook E now (Inr b) p)) hs p"

lemma hookLog_mono: "set (folds (cdb p)) \<subseteq> set (folds (cdb (hookLog E hs p)))"
proof (induction hs arbitrary: p)
  case (Cons h hs)
  obtain now b where h: "h = (now, b)" by (cases h)
  show ?case
    using Cons [of "snd (handleHook E now (Inr b) p)"] handleHook_mono [of p E now "Inr b"] by (auto simp: hookLog_def h)
qed (simp add: hookLog_def)


subsection \<open>Hook outcomes\<close>

lemma applyFold_no_faults:
  assumes "faults s = []" "foldKey fi \<notin> set (folds s)"
  shows "applyFold fi host now s =
    (Inr True, putFold fi host now (case sessAt s (fiSid fi) of None \<Rightarrow> [] | Some r \<Rightarrow> srState r) s)"
  using assms
  by (simp add: applyFold_def stateOf_def sessAt_def foldKey_def markFold_def putFold_def foldRow_def case_prod_unfold Let_def)

lemma applyFold_lost:
  assumes "faults s = [False, False, True]" "foldKey fi \<notin> set (folds s)"
  shows "applyFold fi host now s = (Inl ''claude: fold'', markFold fi (s\<lparr>faults := []\<rparr>))"
  using assms
  by (simp add: applyFold_def stateOf_def stmt_alt foldKey_def markFold_def case_prod_unfold Let_def)

text \<open>A hook and an environment to run the examples on: the codec knows one document.\<close>

definition demoHook :: any where
  "demoHook = AObj [(''session_id'', AStr ''s1''), (''hook_event_name'', AStr ''PreToolUse''), (''tool_name'', AStr ''Bash''), (''ts'', AStr ''t1'')]"

definition demoEnv :: "(string \<times> any) list \<Rightarrow> claudeEnv" where
  "demoEnv docs = \<lparr>ccfg = claudeNew ''/root'' [] None, cHost = ''h'', cMarshal = (\<lambda>_. []), cUnmarshal = map_of docs\<rparr>"

definition demoDb :: "bool list \<Rightarrow> claude_db" where
  "demoDb fs = \<lparr>faults = fs, ringCapacity = 10, tables = [], schemaVersions = [], events = [], lastId = 0, cursors = [], sessions = [], folds = []\<rparr>"

definition demoSt :: "bool list \<Rightarrow> claudeSt" where
  "demoSt fs = \<lparr>cdb = demoDb fs, cEmitOn = True, cEmitted = []\<rparr>"

definition demoPayload :: hookPayload where
  "demoPayload = \<lparr>hpSessionID = ''s1'', hpEvent = ''PreToolUse'', hpCwd = [], hpToolName = ''Bash'', hpMessage = [], hpGitBranch = [],
     hpModel = [], hpTmuxPane = [], hpPid = 0, hpIssueNumber = None, hpTS = ''t1''\<rparr>"

lemma demo_decode: "Option.bind (cUnmarshal (demoEnv [(''b'', demoHook)]) ''b'') decodeHook = Some demoPayload"
  by code_simp

lemma demo_valid: "validSessionID ''s1'' \<and> ''PreToolUse'' \<in> set knownEvents \<and> length ''b'' \<le> maxHookBody"
proof (intro conjI)
  show "validSessionID ''s1''" "''PreToolUse'' \<in> set knownEvents" by code_simp+
  show "length ''b'' \<le> maxHookBody" by (simp add: maxHookBody_def)
qed

lemma demo_200: "fst (handleHook (demoEnv [(''b'', demoHook)]) 0 (Inr ''b'') (demoSt [])) = 200"
proof -
  have d: "cUnmarshal (demoEnv [(''b'', demoHook)]) ''b'' = Some demoHook" "decodeHook demoHook = Some demoPayload"
    using demo_decode by (simp_all add: demoEnv_def)
  have "applyFold fi host now (cdb (demoSt [])) = (Inr True, putFold fi host now [] (demoDb []))" for fi host now
    by (subst applyFold_no_faults) (simp_all add: demoSt_def demoDb_def sessAt_def)
  then show ?thesis
    using demo_valid by (subst handleHook_ok [OF d]) (simp_all add: demoPayload_def onCdb_pair Let_def)
qed




text \<open>C23. The text of a notification reaches neither the tables nor the events: two hooks that agree on the whitelisted fields
  and whose messages are both nags or both not have the same outcome, whatever else the bodies hold.\<close>

theorem hook_text_private:
  assumes "cUnmarshal E b = Some (AObj m)" and "cUnmarshal E b' = Some (AObj m')"
    and "length b \<le> maxHookBody" and "length b' \<le> maxHookBody"
    and "\<forall>k \<in> set [''session_id'', ''hook_event_name'', ''cwd'', ''tool_name'', ''gitBranch'', ''model'', ''tmux_pane'', ''pid'', ''issue_number'', ''ts''].
           jsonMatches m k = jsonMatches m' k"
    and "strictStr m ''message'' = Some t" and "strictStr m' ''message'' = Some t'" and "isNag t = isNag t'"
  shows "handleHook E now (Inr b) p = handleHook E now (Inr b') p"
proof -
  have agree: "strictStr m k = strictStr m' k" "strictInt m k = strictInt m' k" "strictIntPtr m k = strictIntPtr m' k"
    if "jsonMatches m k = jsonMatches m' k" for k
    using that by (simp_all add: strictStr_def strictInt_def strictIntPtr_def)
  have f: "strictStr m ''session_id'' = strictStr m' ''session_id''" "strictStr m ''hook_event_name'' = strictStr m' ''hook_event_name''"
    "strictStr m ''cwd'' = strictStr m' ''cwd''" "strictStr m ''tool_name'' = strictStr m' ''tool_name''"
    "strictStr m ''gitBranch'' = strictStr m' ''gitBranch''" "strictStr m ''model'' = strictStr m' ''model''"
    "strictStr m ''tmux_pane'' = strictStr m' ''tmux_pane''" "strictInt m ''pid'' = strictInt m' ''pid''"
    "strictIntPtr m ''issue_number'' = strictIntPtr m' ''issue_number''" "strictStr m ''ts'' = strictStr m' ''ts''"
    using assms(5) by (simp_all add: agree del: list.inject)
  have d: "decodeHook (AObj m') = map_option (hpMessage_update (\<lambda>_. t')) (decodeHook (AObj m))"
    unfolding decodeHook_def structOf_def any.case option.case f assms(6,7) by (simp split: option.split)
  have t: "hpMessage hp = t" if "decodeHook (AObj m) = Some hp" for hp
    using that unfolding decodeHook_def structOf_def any.case option.case assms(6) by (simp split: option.splits) auto
  show ?thesis
  proof (cases "decodeHook (AObj m)")
    case None
    with assms(1-4) d show ?thesis by (simp add: handleHook_def)
  next
    case (Some hp)
    have "projectHook (hp\<lparr>hpMessage := t'\<rparr>) = projectHook hp"
      using t [OF Some] assms(8) by (simp add: projectHook_def split: option.split)
    with assms(1-4) d Some show ?thesis by (simp add: handleHook_def)
  qed
qed

theorem hook_text_private_witness:
  "let doc = (\<lambda>msg extra. AObj ([(''session_id'', AStr ''s1''), (''hook_event_name'', AStr ''Notification''), (''message'', AStr msg)] @ extra));
       E = demoEnv [(''a'', doc ''allow rm?'' []), (''b'', doc ''allow curl?'' [(''transcript_path'', AStr ''/x'')])] in
   handleHook E 0 (Inr ''a'') (demoSt []) = handleHook E 0 (Inr ''b'') (demoSt [])"
proof -
  let ?m = "[(''session_id'', AStr ''s1''), (''hook_event_name'', AStr ''Notification''), (''message'', AStr ''allow rm?'')]"
  let ?m' = "[(''session_id'', AStr ''s1''), (''hook_event_name'', AStr ''Notification''), (''message'', AStr ''allow curl?''), (''transcript_path'', AStr ''/x'')]"
  let ?E = "demoEnv [(''a'', AObj ?m), (''b'', AObj ?m')]"
  have k: "list_all (\<lambda>k. foldWord ''message'' \<noteq> foldWord k \<and> foldWord ''transcript_path'' \<noteq> foldWord k)
     [''session_id'', ''hook_event_name'', ''cwd'', ''tool_name'', ''gitBranch'', ''model'', ''tmux_pane'', ''pid'', ''issue_number'', ''ts'']"
    by code_simp
  have "handleHook ?E 0 (Inr ''a'') (demoSt []) = handleHook ?E 0 (Inr ''b'') (demoSt [])"
  proof (rule hook_text_private [where m = ?m and m' = ?m' and t = "''allow rm?''" and t' = "''allow curl?''"])
    show "cUnmarshal ?E ''a'' = Some (AObj ?m)" "cUnmarshal ?E ''b'' = Some (AObj ?m')" by (simp_all add: demoEnv_def)
    show "length ''a'' \<le> maxHookBody" "length ''b'' \<le> maxHookBody" by (simp_all add: maxHookBody_def)
    show "\<forall>k \<in> set [''session_id'', ''hook_event_name'', ''cwd'', ''tool_name'', ''gitBranch'', ''model'', ''tmux_pane'', ''pid'', ''issue_number'', ''ts''].
           jsonMatches ?m k = jsonMatches ?m' k"
      using k by (simp only: list_all_iff jsonMatches_def) (simp del: set_simps insert_iff)
    show "strictStr ?m ''message'' = Some ''allow rm?''" "strictStr ?m' ''message'' = Some ''allow curl?''"
      "isNag ''allow rm?'' = isNag ''allow curl?''" by code_simp+
  qed
  then show ?thesis by (simp add: Let_def)
qed

subsection \<open>State files and folds\<close>

definition folded :: "string \<Rightarrow> claude_db \<Rightarrow> bool" where
  "folded sid s \<longleftrightarrow> (\<exists>k \<in> set (folds s). fst k = sid)"

text \<open>What the hooks own of a session.\<close>

definition hookView :: "SessRow \<Rightarrow> string \<times> string \<times> int \<times> string \<times> string \<times> int \<times> string" where
  "hookView r = (srState r, srLastTool r, srToolCalls r, srStaleText r, srGitBranch r, srIssueNumber r, srModel r)"

lemma getSession_no_faults: "faults s = [] \<Longrightarrow> getSession sid s = (Inr (map_option scanRow (sessAt s sid)), s)"
  by (simp add: getSession_def)

lemma hasFold_no_faults: "faults s = [] \<Longrightarrow> hasFold sid s = (folded sid s, s)"
  by (force simp: hasFold_def folded_def list_ex_iff)

lemma stateFileRow_folded:
  assumes "stateFileRow sf title True (Some c) = (cwd, pane, st, mission, resp, t, pid)"
  shows "st = crState c"
  using assms by (auto simp: stateFileRow_def Let_def)

lemma applyStateFile_keeps:
  fixes s :: claude_db
  assumes "faults s = []" "folded sid s" "sessAt s sid = Some r" "applyStateFile sf title host now s = (res, t)"
  shows "faults t = [] \<and> folds t = folds s \<and> (\<exists>r'. sessAt t sid = Some r' \<and> hookView r' = hookView r)"
proof -
  obtain cwd pane st mission resp ti pid where
    row: "stateFileRow sf title (folded (sfSID sf) s) (map_option scanRow (sessAt s (sfSID sf))) = (cwd, pane, st, mission, resp, ti, pid)"
    by (metis surj_pair)
  show ?thesis
  proof (cases "sessAt s (sfSID sf)")
    case None
    then have n: "sid \<noteq> sfSID sf" using assms(3) by auto
    from None have "\<not> tblHas srSid (sfSID sf) (sessions s)" by (simp add: sessAt_def tblGet_None_iff)
    with assms row None n show ?thesis
      by (auto simp: applyStateFile_def getSession_no_faults hasFold_no_faults sessAt_def tblGet_append Let_def split: if_splits)
  next
    case (Some c)
    have st: "st = srState c" if "sid = sfSID sf"
      using stateFileRow_folded [OF row [unfolded Some, simplified that [symmetric] assms(2) eqTrueI option.map]] assms(2) Some that
      by (simp add: scanRow_def)
    have g: "tblGet srSid i (tblUpdate (\<lambda>r. srSid r = sfSID sf) f (sessions s)) =
        map_option (\<lambda>x. if srSid x = sfSID sf then f x else x) (tblGet srSid i (sessions s))"
      if "\<And>x. srSid (f x) = srSid x" for f i
      using that by (rule tblGet_update)
    have k: "srSid r = sid" using assms(3) by (auto simp: sessAt_def dest: tblGet_SomeD)
    have c: "c = r" if "sid = sfSID sf" using Some assms(3) that by simp
    from assms row Some st c k show ?thesis
      by (auto simp: applyStateFile_def getSession_no_faults hasFold_no_faults sessAt_def hookView_def g Let_def split: if_splits)
  qed
qed


lemma scanStateFile_keeps:
  assumes "faults (cdb p) = []" "folded sid (cdb p)" "sessAt (cdb p) sid = Some r"
  shows "let q = scanStateFile E now titles d p in
    faults (cdb q) = [] \<and> folds (cdb q) = folds (cdb p) \<and> (\<exists>r'. sessAt (cdb q) sid = Some r' \<and> hookView r' = hookView r)"
proof -
  have e: "cdb (emitSessionUpdated E now i q) = cdb q" if "faults (cdb q) = []" for i q
    using that by (simp add: emitSessionUpdated_def onCdb_pair getSession_no_faults split: option.split)
  define Q where "Q t \<longleftrightarrow> faults t = [] \<and> folds t = folds (cdb p) \<and> (\<exists>r'. sessAt t sid = Some r' \<and> hookView r' = hookView r)" for t :: claude_db
  have a: "Q (snd (applyStateFile sf ti host now (cdb p)))" for sf ti host
    using applyStateFile_keeps [OF assms, of sf ti host now] unfolding Q_def by (metis prod.collapse)
  have e': "Q (cdb (emitSessionUpdated E now i (p\<lparr>cdb := t\<rparr>)))" if "Q t" for i t
    using that e [of "p\<lparr>cdb := t\<rparr>"] by (simp add: Q_def)
  have "Q (cdb p)" using assms by (auto simp: Q_def)
  with a e' have "Q (cdb (scanStateFile E now titles d p))"
    by (simp add: scanStateFile_def onCdb_pair split: option.split sum.split bool.split)
  then show ?thesis by (simp add: Q_def Let_def)
qed



subsection \<open>Runes\<close>

lemma runeWidth_pos [simp]: "0 < runeWidth s"
  by (cases s rule: runeWidth.cases) auto

text \<open>\<open>utf8.RuneCountInString\<close>.\<close>

function runeCount :: "string \<Rightarrow> nat" where
  "runeCount s = (if s = [] then 0 else Suc (runeCount (drop (runeWidth s) s)))"
  by pat_completeness auto
termination by (relation "measure length") auto

declare runeCount.simps [simp del]

lemma runeCount_Nil [simp]: "runeCount [] = 0"
  by (simp add: runeCount.simps)

lemma runeWidth_le: "s \<noteq> [] \<Longrightarrow> runeWidth s \<le> length s"
  by (cases s rule: runeWidth.cases) auto

lemma runeWidth_append: "u \<noteq> [] \<Longrightarrow> runeWidth (u @ v) \<le> length u \<Longrightarrow> runeWidth u = runeWidth (u @ v)"
proof (cases u rule: runeWidth.cases)
  case (2 a b c)
  then show "runeWidth (u @ v) \<le> length u \<Longrightarrow> ?thesis" by (cases v; simp split: if_splits; blast)
next
  case (3 a b)
  then show "runeWidth (u @ v) \<le> length u \<Longrightarrow> ?thesis" by (cases v rule: runeWidth.cases; simp split: if_splits; blast)
qed (simp_all add: le_Suc_eq runeWidth_pos [THEN less_imp_neq, symmetric])

lemma truncRunes_prefix: "\<exists>v. s = truncRunes s n @ v"
proof (induction s n rule: truncRunes.induct)
  case (2 s n)
  show ?case
  proof (cases "s = []")
    case False
    with 2 obtain v where "drop (runeWidth s) s = truncRunes (drop (runeWidth s) s) n @ v" by blast
    with False show ?thesis by (metis append_assoc append_take_drop_id truncRunes.simps(2))
  qed simp
qed simp

lemma runeCount_truncRunes: "runeCount (truncRunes s n) \<le> n"
proof (induction s n rule: truncRunes.induct)
  case (2 s n)
  show ?case
  proof (cases "s = []")
    case False
    let ?w = "runeWidth s" and ?t = "truncRunes s (Suc n)"
    have t: "?t = take ?w s @ truncRunes (drop ?w s) n" using False by simp
    have len: "length (take ?w s) = ?w" using runeWidth_le [OF False] by simp
    obtain v where v: "s = ?t @ v" using truncRunes_prefix by blast
    have ne: "?t \<noteq> []" using len runeWidth_pos [of s] t by (metis append_is_Nil_conv length_0_conv less_irrefl)
    have "?w \<le> length ?t" using t len by simp
    then have "runeWidth ?t = ?w" using runeWidth_append [OF ne, of v] v by simp
    then have "drop (runeWidth ?t) ?t = truncRunes (drop ?w s) n" using t len by simp
    with 2 [OF False] ne show ?thesis by (simp add: runeCount.simps [of ?t] del: truncRunes.simps)
  qed simp
qed simp

subsection \<open>The invariant of the session table\<close>

definition toolCount :: "(string \<times> string \<times> string) list \<Rightarrow> string \<Rightarrow> int" where
  "toolCount fs sid = int (length (filter (\<lambda>(i, e, _). i = sid \<and> e = ''PreToolUse'') fs))"

definition rowOk :: "(string \<times> string \<times> string) list \<Rightarrow> SessRow \<Rightarrow> bool" where
  "rowOk fs r \<longleftrightarrow> runeCount (orEmpty (srMission r)) \<le> missionMaxRunes \<and> runeCount (orEmpty (srLastResponse r)) \<le> lastResponseMaxRunes
     \<and> 0 \<le> srToolCalls r \<and> srToolCalls r \<le> toolCount fs (srSid r)"

definition claudeInv :: "claude_db \<Rightarrow> bool" where
  "claudeInv s \<longleftrightarrow> tblInv srSid (sessions s) \<and> distinct (folds s) \<and> (\<forall>r \<in> set (sessions s). rowOk (folds s) r)"

lemma claudeInv_faults [simp]: "claudeInv (s\<lparr>faults := fs\<rparr>) = claudeInv s" "claudeInv (s\<lparr>cursors := cs\<rparr>) = claudeInv s"
  by (simp_all add: claudeInv_def)

lemma claudeInv_same: "sameTables s t \<Longrightarrow> claudeInv t = claudeInv s"
  by (auto simp: sameTables_def)

lemma toolCount_nonneg [simp]: "0 \<le> toolCount fs sid"
  by (simp add: toolCount_def)

lemma toolCount_snoc:
  "toolCount (fs @ [foldKey fi]) sid = toolCount fs sid + (if fiSid fi = sid \<and> fiEvent fi = ''PreToolUse'' then 1 else 0)"
  by (simp add: toolCount_def foldKey_def)

lemma rowOk_snoc: "rowOk fs r \<Longrightarrow> rowOk (fs @ [foldKey fi]) r"
  by (simp add: rowOk_def toolCount_snoc)

lemma set_tblMerge:
  "x \<in> set (tblMerge key m r t) \<Longrightarrow>
     x \<in> set t \<or> x = r \<or> (\<exists>y \<in> set t. key y = key r \<and> x = m y r)"
  by (auto simp: tblMerge_def split: if_splits)

lemma insertRow_ok: "0 \<le> inc \<Longrightarrow> inc \<le> toolCount fs (fiSid fi) \<Longrightarrow> rowOk fs (insertRow fi host st tool inc stale ts)"
  by (simp add: rowOk_def insertRow_def orEmpty_def Let_def)

lemma insertRow_fields [simp]:
  "srSid (insertRow fi host st tool inc stale ts) = fiSid fi" "srToolCalls (insertRow fi host st tool inc stale ts) = inc"
  by (simp_all add: insertRow_def Let_def)

lemma foldEvent_tool: "fst (snd (foldEvent prev ev ask)) \<longleftrightarrow> ev = ''PreToolUse''"
  by (simp add: foldEvent_def)

lemma set_keeps [simp]:
  "srSid (enrichSet r x) = srSid r" "srToolCalls (enrichSet r x) = srToolCalls r" "srMission (enrichSet r x) = srMission r"
  "srLastResponse (enrichSet r x) = srLastResponse r"
  "srSid (foldSet r x) = srSid r" "srToolCalls (foldSet r x) = srToolCalls r + srToolCalls x" "srMission (foldSet r x) = srMission r"
  "srLastResponse (foldSet r x) = srLastResponse r"
  by (simp_all add: enrichSet_def foldSet_def)

lemma inv_markFold: "claudeInv s \<Longrightarrow> foldKey fi \<notin> set (folds s) \<Longrightarrow> claudeInv (markFold fi s)"
  by (simp add: claudeInv_def rowOk_snoc)

lemma inv_putFold:
  assumes "claudeInv s" "foldKey fi \<notin> set (folds s)"
  shows "claudeInv (putFold fi host now prev s)"
proof -
  let ?r = "foldRow fi host now prev" and ?fs = "folds s @ [foldKey fi]"
  let ?inc = "if fiEvent fi = ''PreToolUse'' then 1 else 0 :: int"
  have r: "srSid ?r = fiSid fi" "srToolCalls ?r = ?inc"
    using foldEvent_tool [of prev "fiEvent fi" "fiPermissionAsk fi"] by (simp_all add: foldRow_def case_prod_unfold)
  have new: "rowOk ?fs ?r"
    using foldEvent_tool [of prev "fiEvent fi" "fiPermissionAsk fi"]
    by (simp add: foldRow_def case_prod_unfold insertRow_ok toolCount_snoc)
  have "rowOk ?fs x" if "x \<in> set (tblMerge srSid foldSet ?r (sessions s))" for x
    using set_tblMerge [OF that]
  proof (elim disjE bexE conjE)
    assume "x \<in> set (sessions s)"
    with assms(1) show ?thesis by (simp add: claudeInv_def rowOk_snoc)
  next
    fix y assume y: "y \<in> set (sessions s)" "srSid y = srSid ?r" "x = foldSet y ?r"
    with assms(1) have "rowOk (folds s) y" by (simp add: claudeInv_def)
    with y r show ?thesis by (simp add: rowOk_def toolCount_snoc)
  qed (simp add: new)
  moreover have "tblInv srSid (tblMerge srSid foldSet ?r (sessions s))"
    using assms(1) by (simp add: tblInv_merge claudeInv_def)
  ultimately show ?thesis
    using assms by (simp add: claudeInv_def putFold_def)
qed

lemma inv_applyFold: "claudeInv s \<Longrightarrow> claudeInv (snd (applyFold fi host now s))"
proof (cases "foldKey fi \<in> set (folds s)")
  case True
  then show "claudeInv s \<Longrightarrow> ?thesis" by (rule_tac stmt_obtain [of s]) (simp add: applyFold_seen)
next
  case False
  then show "claudeInv s \<Longrightarrow> ?thesis"
    by (rule_tac applyFold_unseen [OF False, where host = host and now = now]) (simp_all add: inv_markFold inv_putFold)
qed

lemma inv_applyEnrichment: "claudeInv s \<Longrightarrow> claudeInv (snd (applyEnrichment sid host e now s))"
proof -
  assume inv: "claudeInv s"
  let ?r = "insertRow (enrichInput sid e) host stateIdle [] 0 [] (formatRFC3339Nano now)"
  have "rowOk (folds s) x" if "x \<in> set (tblMerge srSid enrichSet ?r (sessions s))" for x
    using set_tblMerge [OF that] inv insertRow_ok by (auto simp: claudeInv_def rowOk_def orEmpty_def insertRow_def Let_def)
  moreover have "tblInv srSid (tblMerge srSid enrichSet ?r (sessions s))"
    using inv by (simp add: tblInv_merge claudeInv_def)
  ultimately show ?thesis
    using inv by (rule_tac stmt_obtain [of s]) (simp add: applyEnrichment_def claudeInv_def)
qed

lemma claudeInv_upd [simp]:
  "claudeInv (s\<lparr>faults := fs, sessions := x\<rparr>) = claudeInv (s\<lparr>sessions := x\<rparr>)"
  "claudeInv (s\<lparr>faults := fs, folds := y\<rparr>) = claudeInv (s\<lparr>folds := y\<rparr>)"
  "claudeInv (s\<lparr>faults := fs, sessions := x, folds := y\<rparr>) = claudeInv (s\<lparr>sessions := x, folds := y\<rparr>)"
  by (simp_all add: claudeInv_def)

lemma stateFileRow_bounds:
  assumes "stateFileRow sf title fd cur = (cwd, pane, st, mission, resp, t, pid)"
    and "\<And>c. cur = Some c \<Longrightarrow> runeCount (crMission c) \<le> missionMaxRunes \<and> runeCount (crLastResponse c) \<le> lastResponseMaxRunes"
  shows "runeCount mission \<le> missionMaxRunes \<and> runeCount resp \<le> lastResponseMaxRunes"
  using assms runeCount_truncRunes by (cases cur) (auto simp: stateFileRow_def setIf_def Let_def)

lemma inv_update:
  assumes "claudeInv s" "\<And>r. srSid (f r) = srSid r" "\<And>r. r \<in> set (sessions s) \<Longrightarrow> P r \<Longrightarrow> rowOk (folds s) (f r)"
  shows "claudeInv (s\<lparr>sessions := tblUpdate P f (sessions s)\<rparr>)"
  using assms by (auto simp: claudeInv_def tblInv_update set_tblUpdate)

lemma inv_snoc:
  assumes "claudeInv s" "\<not> tblHas srSid (srSid r) (sessions s)" "rowOk (folds s) r"
  shows "claudeInv (s\<lparr>sessions := sessions s @ [r]\<rparr>)"
  using assms by (auto simp: claudeInv_def tblInv_def tblHas_def)

lemma inv_applyStateFile:
  assumes inv: "claudeInv s"
  shows "claudeInv (snd (applyStateFile sf title host now s))"
proof -
  obtain b fs where "stmt s = (b, s\<lparr>faults := fs\<rparr>)" by (rule stmt_obtain)
  then have g: "getSession (sfSID sf) s = (if b then Inr (map_option scanRow (sessAt s (sfSID sf))) else Inl ''claude: get'', s\<lparr>faults := fs\<rparr>)"
    by (simp add: getSession_def sessAt_def)
  obtain fd fs' where h: "hasFold (sfSID sf) (s\<lparr>faults := fs\<rparr>) = (fd, s\<lparr>faults := fs'\<rparr>)"
    by (rule stmt_obtain [of "s\<lparr>faults := fs\<rparr>"]) (simp add: hasFold_def)
  obtain c fs'' where q: "stmt (s\<lparr>faults := fs'\<rparr>) = (c, s\<lparr>faults := fs''\<rparr>)"
    by (rule stmt_obtain [of "s\<lparr>faults := fs'\<rparr>"]) simp
  obtain cwd pane st mission resp ti pid where
    row: "stateFileRow sf title fd (map_option scanRow (sessAt s (sfSID sf))) = (cwd, pane, st, mission, resp, ti, pid)"
    by (metis surj_pair)
  have ok: "rowOk (folds s) r" if "r \<in> set (sessions s)" for r using that inv by (simp add: claudeInv_def)
  have bd: "runeCount mission \<le> missionMaxRunes \<and> runeCount resp \<le> lastResponseMaxRunes"
  proof (rule stateFileRow_bounds [OF row])
    fix x assume "map_option scanRow (sessAt s (sfSID sf)) = Some x"
    then obtain r where "r \<in> set (sessions s)" "x = scanRow r" by (auto simp: sessAt_def dest: tblGet_SomeD)
    then show "runeCount (crMission x) \<le> missionMaxRunes \<and> runeCount (crLastResponse x) \<le> lastResponseMaxRunes"
      using ok [of r] by (simp add: scanRow_def rowOk_def)
  qed
  show ?thesis
  proof (cases "sessAt s (sfSID sf)")
    case None
    then show ?thesis using inv bd g h q row
      by (auto simp: applyStateFile_def Let_def rowOk_def orEmpty_def intro!: inv_snoc [where s = "s\<lparr>faults := fs''\<rparr>", simplified])
  next
    case (Some c)
    have "claudeInv ((s\<lparr>faults := fs''\<rparr>)\<lparr>sessions := tblUpdate (\<lambda>r. srSid r = sfSID sf)
            (\<lambda>r. r\<lparr>srCwd := cwd, srState := st, srPane := pane, srPid := pid, srLastEventAt := formatRFC3339Nano now, srMission := Some mission,
                      srLastResponse := Some resp, srPaneTitle := Some ti\<rparr>) (sessions (s\<lparr>faults := fs''\<rparr>))\<rparr>)"
    proof (rule inv_update)
      fix r assume "r \<in> set (sessions (s\<lparr>faults := fs''\<rparr>))"
      with ok [of r] bd show "rowOk (folds (s\<lparr>faults := fs''\<rparr>)) (r\<lparr>srCwd := cwd, srState := st, srPane := pane, srPid := pid,
          srLastEventAt := formatRFC3339Nano now, srMission := Some mission, srLastResponse := Some resp, srPaneTitle := Some ti\<rparr>)"
        by (simp add: rowOk_def orEmpty_def)
    qed (use inv in simp_all)
    with Some show ?thesis using inv g h q row by (simp add: applyStateFile_def Let_def)
  qed
qed

lemma inv_deleteRow: "claudeInv s \<Longrightarrow> claudeInv (s\<lparr>sessions := tblDelete P (sessions s)\<rparr>)"
  by (auto simp: claudeInv_def tblInv_def tblDelete_def distinct_map_filter)

lemma toolCount_other: "sid \<noteq> i \<Longrightarrow> toolCount (tblDelete (\<lambda>(j, _, _). j = i) fs) sid = toolCount fs sid"
  by (induction fs) (auto simp: toolCount_def tblDelete_def)

lemma inv_deleteFolds:
  assumes "claudeInv s" "\<forall>r \<in> set (sessions s). srSid r \<noteq> sid"
  shows "claudeInv (s\<lparr>folds := tblDelete (\<lambda>(i, _, _). i = sid) (folds s)\<rparr>)"
proof -
  have "distinct (folds s) \<Longrightarrow> distinct (tblDelete (\<lambda>(i, _, _). i = sid) (folds s))" by (simp add: tblDelete_def)
  with assms show ?thesis by (simp add: claudeInv_def rowOk_def toolCount_other)
qed

lemma inv_pruneSids: "claudeInv s \<Longrightarrow> claudeInv (snd (pruneSids sids s))"
proof (induction sids arbitrary: s)
  case (Cons sid sids)
  obtain b fs where 1: "stmt s = (b, s\<lparr>faults := fs\<rparr>)" by (rule stmt_obtain)
  let ?t = "s\<lparr>faults := fs\<rparr>\<lparr>sessions := tblDelete (\<lambda>r. srSid r = sid) (sessions s)\<rparr>"
  obtain c fs' where 2: "stmt ?t = (c, ?t\<lparr>faults := fs'\<rparr>)" by (rule stmt_obtain)
  have t: "claudeInv (?t\<lparr>faults := fs'\<rparr>)" using inv_deleteRow [of "s\<lparr>faults := fs\<rparr>"] Cons.prems by simp
  have "claudeInv (?t\<lparr>faults := fs'\<rparr>\<lparr>folds := tblDelete (\<lambda>(i, _, _). i = sid) (folds (?t\<lparr>faults := fs'\<rparr>))\<rparr>)"
    using inv_deleteFolds [OF t, of sid] by (auto simp: tblDelete_def)
  from Cons.IH [OF this] t Cons.prems 1 2 show ?case by simp
qed simp

lemma inv_prune: "claudeInv s \<Longrightarrow> claudeInv (snd (prune cutoff s))"
  by (rule stmt_obtain [of s]) (auto simp: prune_def inv_pruneSids)

lemma inv_markDead: "claudeInv s \<Longrightarrow> claudeInv (snd (markDead ts sids s))"
proof (induction sids arbitrary: s)
  case (Cons sid sids)
  obtain b fs where 1: "stmt s = (b, s\<lparr>faults := fs\<rparr>)" by (rule stmt_obtain)
  have "claudeInv ((s\<lparr>faults := fs\<rparr>)\<lparr>sessions := tblUpdate (\<lambda>r. srSid r = sid) (\<lambda>r. r\<lparr>srStaleText := ts\<rparr>) (sessions (s\<lparr>faults := fs\<rparr>))\<rparr>)"
    by (rule inv_update) (use Cons.prems in \<open>auto simp: claudeInv_def rowOk_def\<close>)
  from Cons.IH [OF this] Cons.prems 1 show ?case by (auto split: sum.split prod.split)
qed simp

lemma inv_staleScan: "claudeInv s \<Longrightarrow> claudeInv (snd (staleScan now alive s))"
  by (rule stmt_obtain [of s]) (auto simp: staleScan_def inv_markDead)

lemma inv_emitSessionUpdated: "claudeInv (cdb (emitSessionUpdated E now sid p)) = claudeInv (cdb p)"
  by (rule claudeInv_same) (rule emitSessionUpdated_same)

lemma inv_emitForFold: "claudeInv (cdb (emitForFold E now fi p)) = claudeInv (cdb p)"
  by (rule claudeInv_same) (rule emitForFold_same)

lemmas inv_claude = inv_emitSessionUpdated inv_emitForFold inv_applyFold inv_applyEnrichment inv_applyStateFile inv_prune inv_staleScan

lemma inv_handleHook: "claudeInv (cdb p) \<Longrightarrow> claudeInv (cdb (snd (handleHook E now body p)))"
  by (simp add: handleHook_def onCdb_pair Let_def inv_claude split: sum.split option.split)

lemma inv_scanStateFile: "claudeInv (cdb p) \<Longrightarrow> claudeInv (cdb (scanStateFile E now titles d p))"
  by (simp add: scanStateFile_def onCdb_pair inv_claude split: option.split sum.split bool.split)

lemma inv_applyFolds: "claudeInv (cdb p) \<Longrightarrow> claudeInv (cdb (applyFolds E now fis p))"
proof (induction fis arbitrary: p)
  case (Cons fi fis)
  then show ?case by (simp add: onCdb_pair Let_def inv_claude split: sum.split bool.split)
qed simp

lemma inv_foldLine: "claudeInv (cdb p) \<Longrightarrow> claudeInv (cdb (foldLine E now line p))"
  by (simp add: foldLine_def onCdb_pair case_prod_unfold Let_def inv_applyFolds inv_claude split: option.split sum.split)

lemma inv_fold: "(\<And>x p. claudeInv (cdb p) \<Longrightarrow> claudeInv (cdb (f x p))) \<Longrightarrow> claudeInv (cdb p) \<Longrightarrow> claudeInv (cdb (fold f xs p))"
  by (induction xs arbitrary: p) auto

lemma inv_cursor: "claudeInv s \<Longrightarrow> claudeInv (snd (claudeCursor n s))" "claudeInv s \<Longrightarrow> claudeInv (snd (SetCursor n v s))"
  by (rule stmt_obtain [of s], simp add: claudeCursor_def Cursor_def split: sum.split prod.split if_split)
     (rule stmt_obtain [of s], simp add: SetCursor_def)

lemma inv_scanFile: "claudeInv (cdb p) \<Longrightarrow> claudeInv (cdb (scanFile E now file p))"
  by (simp add: scanFile_def onCdb_pair case_prod_unfold Let_def inv_cursor inv_fold inv_foldLine split: option.split)

lemma inv_sweep: "claudeInv (cdb p) \<Longrightarrow> claudeInv (cdb (sweep E now alive p))"
  by (simp add: sweep_def sweepOne_def onCdb_pair inv_claude inv_fold split: sum.split)

lemma inv_scanOnce: "claudeInv (cdb p) \<Longrightarrow> claudeInv (cdb (scanOnce E now tmux sfs trs alive p))"
  by (simp add: scanOnce_def scanStateFiles_def onCdb_pair Let_def inv_fold inv_scanStateFile inv_scanFile inv_sweep inv_claude)

text \<open>What runs against the store of the plugin, in the order the mutex of the database gives it.\<close>

datatype claudeOp =
    OpHook instant "read_err + string"
  | OpScan instant "string option" "string option list" "(string \<times> string option) list" "int list"

fun claudeStep :: "claudeEnv \<Rightarrow> claudeOp \<Rightarrow> claudeSt \<Rightarrow> claudeSt" where
  "claudeStep E (OpHook now body) p = snd (handleHook E now body p)"
| "claudeStep E (OpScan now tmux sfs trs live) p = scanOnce E now tmux sfs trs (\<lambda>pid. pid \<in> set live) p"



subsection \<open>The tail reads every complete line once\<close>

lemma readBytes_append:
  assumes "readBytes cap buf over n rd = Some (l, m, r)"
  shows "readBytes cap buf over n (rd @ x) = Some (l, m, r @ x) \<and> n < m \<and> r = drop (m - n) rd \<and> m \<le> n + length rd"
  using assms
proof (induction rd arbitrary: buf over n)
  case (Cons b rd)
  let ?o = "over \<or> length buf \<ge> cap" let ?b = "if ?o then [] else b # buf"
  show ?case
  proof (cases "b = CHR 0x0A")
    case False
    with Cons.prems have "readBytes cap ?b ?o (Suc n) rd = Some (l, m, r)" by (simp add: Let_def)
    from Cons.IH [OF this] False show ?thesis by (auto simp: Let_def drop_Cons' Suc_diff_Suc split: nat.split)
  qed (use Cons.prems in \<open>auto simp: Let_def\<close>)
qed simp

lemma scanLines_None: "readLine cap rd = None \<Longrightarrow> scanLines cap rd = ([], 0)"
  by (simp add: scanLines.simps)

lemma scanLines_Some:
  "readLine cap rd = Some (l, n, r) \<Longrightarrow>
     scanLines cap rd = ((case l of None \<Rightarrow> fst (scanLines cap r) | Some x \<Rightarrow> x # fst (scanLines cap r)), n + snd (scanLines cap r))"
  by (simp add: scanLines.simps [of cap rd] case_prod_unfold Let_def split: option.split)

lemma scanLines_append:
  "scanLines cap rd = (ls, n) \<Longrightarrow> n \<le> length rd \<and>
     scanLines cap (rd @ x) = (ls @ fst (scanLines cap (drop n rd @ x)), n + snd (scanLines cap (drop n rd @ x)))"
proof (induction cap rd arbitrary: ls n rule: scanLines.induct)
  case (1 cap rd)
  show ?case
  proof (cases "readLine cap rd")
    case None
    with 1 show ?thesis by (simp add: scanLines_None)
  next
    case (Some a)
    obtain l k r where a: "a = (l, k, r)" by (cases a)
    note rl = Some [unfolded a]
    have rd: "readLine cap (rd @ x) = Some (l, k, r @ x)" "r = drop k rd" "k \<le> length rd"
      using readBytes_append [OF rl [unfolded readLine_def], of x] by (simp_all add: readLine_def)
    obtain ls' m where s: "scanLines cap r = (ls', m)" by (cases "scanLines cap r")
    from "1.IH" [OF Some a [symmetric] refl s]
    have ih: "m \<le> length r \<and> scanLines cap (r @ x) = (ls' @ fst (scanLines cap (drop m r @ x)), m + snd (scanLines cap (drop m r @ x)))" .
    have n: "n = k + m" "ls = (case l of None \<Rightarrow> ls' | Some y \<Rightarrow> y # ls')"
      using "1.prems" s by (auto simp: scanLines_Some [OF rl] split: option.split)
    have d: "drop n rd = drop m r" using rd(2) n by (simp add: add.commute)
    show ?thesis
      using ih rd n by (auto simp: scanLines_Some [OF rd(1)] d ac_simps split: option.split)
  qed
qed

definition setCur :: "(string \<times> string) list \<Rightarrow> claudeSt \<Rightarrow> claudeSt" where
  "setCur cs p = p\<lparr>cdb := (cdb p)\<lparr>cursors := cs\<rparr>\<rparr>"

lemma setCur_simps [simp]:
  "faults (cdb (setCur cs p)) = faults (cdb p)" "cursors (cdb (setCur cs p)) = cs" "setCur cs (setCur ds p) = setCur cs p"
  "setCur (cursors (cdb p)) p = p"
  by (simp_all add: setCur_def)

lemma claudeEmit_setCur: "claudeEmit E now t k o' (setCur cs p) = setCur cs (claudeEmit E now t k o' p)"
  by (simp add: claudeEmit_def setCur_def)

lemma emitSessionUpdated_calm:
  assumes "faults (cdb p) = []"
  shows "emitSessionUpdated E now sid p =
    (case sessAt (cdb p) sid of None \<Rightarrow> p
     | Some r \<Rightarrow> claudeEmit E now ''claude.session.updated'' (claudeSessionKey sid (cHost E)) (sessionPayload sid (scanRow r)) p)"
  using assms by (simp add: emitSessionUpdated_def onCdb_pair getSession_no_faults split: option.split)

lemma emitSessionUpdated_setCur:
  "faults (cdb p) = [] \<Longrightarrow> emitSessionUpdated E now sid (setCur cs p) = setCur cs (emitSessionUpdated E now sid p)
     \<and> cdb (emitSessionUpdated E now sid p) = cdb p"
  by (simp add: emitSessionUpdated_calm claudeEmit_setCur sessAt_def split: option.split) (simp add: setCur_def sessAt_def)


lemma onCdb_setCur:
  assumes "f ((cdb p)\<lparr>cursors := cs\<rparr>) = (fst (f (cdb p)), (snd (f (cdb p)))\<lparr>cursors := cs\<rparr>)"
  shows "onCdb f (setCur cs p) = (fst (onCdb f p), setCur cs (snd (onCdb f p)))"
  using assms by (simp add: onCdb_pair setCur_def)

lemma applyFold_cursors:
  fixes s :: claude_db
  assumes "faults s = []"
  shows "applyFold fi host now (s\<lparr>cursors := cs\<rparr>) = (fst (applyFold fi host now s), (snd (applyFold fi host now s))\<lparr>cursors := cs\<rparr>)
    \<and> faults (snd (applyFold fi host now s)) = []"
proof (cases "foldKey fi \<in> set (folds s)")
  case True
  with assms show ?thesis by (simp add: applyFold_seen)
next
  case False
  with assms show ?thesis by (simp add: applyFold_no_faults sessAt_def putFold_def markFold_def)
qed

lemma applyEnrichment_cursors:
  fixes s :: claude_db
  assumes "faults s = []"
  shows "applyEnrichment sid host e now (s\<lparr>cursors := cs\<rparr>) =
      (fst (applyEnrichment sid host e now s), (snd (applyEnrichment sid host e now s))\<lparr>cursors := cs\<rparr>)
    \<and> faults (snd (applyEnrichment sid host e now s)) = []"
  using assms by (simp add: applyEnrichment_def)

text \<open>An operation that neither reads nor writes the cursors, and runs no failing statement.\<close>

definition cursorFree :: "(claudeSt \<Rightarrow> claudeSt) \<Rightarrow> bool" where
  "cursorFree f \<longleftrightarrow> (\<forall>p cs. faults (cdb p) = [] \<longrightarrow> f (setCur cs p) = setCur cs (f p) \<and> faults (cdb (f p)) = [])"

lemma cursorFreeD: "cursorFree f \<Longrightarrow> faults (cdb p) = [] \<Longrightarrow> f (setCur cs p) = setCur cs (f p) \<and> faults (cdb (f p)) = []"
  by (simp add: cursorFree_def)

lemma cursorFree_fold: "(\<And>x. cursorFree (f x)) \<Longrightarrow> cursorFree (fold f xs)"
  by (induction xs) (simp_all add: cursorFree_def)

definition onlyIf :: "bool \<Rightarrow> (claudeSt \<Rightarrow> claudeSt) \<Rightarrow> claudeSt \<Rightarrow> claudeSt" where
  "onlyIf b f p = (if b then f p else p)"

lemma cursorFree_intros:
  "cursorFree (claudeEmit E now t k o')" "cursorFree f \<Longrightarrow> cursorFree (onlyIf b f)"
  "cursorFree f \<Longrightarrow> cursorFree g \<Longrightarrow> cursorFree (g \<circ> f)" "cursorFree (emitSessionUpdated E now sid)"
  by (simp_all add: cursorFree_def onlyIf_def claudeEmit_setCur emitSessionUpdated_setCur)

lemma emitForFold_free: "cursorFree (emitForFold E now fi)"
proof -
  let ?key = "claudeSessionKey (fiSid fi) (cHost E)"
  have "emitForFold E now fi =
     onlyIf (fiPane fi \<noteq> []) (claudeEmit E now ''claude.instance.updated'' (instanceKey (fiPane fi) (cHost E))
                [(''sid'', AStr (fiSid fi)), (''pane'', AStr (fiPane fi)), (''pid'', AInt (fiPid fi))])
     \<circ> (onlyIf (fiEvent fi = ''SessionEnd'') (claudeEmit E now ''claude.session.ended'' ?key [(''sid'', AStr (fiSid fi))])
     \<circ> (onlyIf (fiPermissionAsk fi) (claudeEmit E now ''claude.session.input'' ?key [(''sid'', AStr (fiSid fi)), (''awaitingInput'', ABool True)])
     \<circ> (onlyIf (fiEvent fi = ''PreToolUse'' \<and> fiTool fi \<noteq> [])
        (claudeEmit E now ''claude.tool.used'' ?key [(''sid'', AStr (fiSid fi)), (''tool'', AStr (fiTool fi))])
     \<circ> emitSessionUpdated E now (fiSid fi))))"
    unfolding emitForFold_def onlyIf_def Let_def comp_def fun_eq_iff by (intro allI refl)
  then show ?thesis by (simp only: cursorFree_intros)
qed

lemma applyFolds_free: "cursorFree (applyFolds E now fis)"
proof (induction fis)
  case (Cons fi0 fis)
  let ?fi = "hookStamp now fi0"
  show ?case unfolding cursorFree_def
  proof (intro allI impI)
    fix p :: claudeSt and cs assume f: "faults (cdb p) = []"
    note a = applyFold_cursors [OF f, of ?fi "cHost E" now cs]
    let ?q = "p\<lparr>cdb := snd (applyFold ?fi (cHost E) now (cdb p))\<rparr>"
    have q: "faults (cdb ?q) = []" using a by simp
    have c: "onCdb (applyFold ?fi (cHost E) now) (setCur cs p) = (fst (applyFold ?fi (cHost E) now (cdb p)), setCur cs ?q)"
      using onCdb_setCur [of "applyFold ?fi (cHost E) now" cs p] a by (simp add: onCdb_pair)
    note e = cursorFreeD [OF emitForFold_free q, of E now ?fi cs]
    show "applyFolds E now (fi0 # fis) (setCur cs p) = setCur cs (applyFolds E now (fi0 # fis) p)
        \<and> faults (cdb (applyFolds E now (fi0 # fis) p)) = []"
      using cursorFreeD [OF Cons q, of cs] cursorFreeD [OF Cons, of "emitForFold E now ?fi ?q" cs] e
      by (simp add: c onCdb_pair [of _ p] Let_def split: sum.split bool.split)
  qed
qed (simp add: cursorFree_def)

lemma foldLine_free: "cursorFree (foldLine E now line)"
  unfolding cursorFree_def
proof (intro allI impI)
  fix p :: claudeSt and cs assume f: "faults (cdb p) = []"
  show "foldLine E now line (setCur cs p) = setCur cs (foldLine E now line p) \<and> faults (cdb (foldLine E now line p)) = []"
  proof (cases "Option.bind (cUnmarshal E line) decodeRecord")
    case (Some rec)
    let ?e = "applyEnrichment (trSessionID rec) (cHost E) (fst (projectRecord rec)) now"
    let ?q = "p\<lparr>cdb := snd (?e (cdb p))\<rparr>"
    note a = applyEnrichment_cursors [OF f, of "trSessionID rec" "cHost E" "fst (projectRecord rec)" now cs]
    have q: "faults (cdb ?q) = []" using a by simp
    have c: "onCdb ?e (setCur cs p) = (fst (?e (cdb p)), setCur cs ?q)" using onCdb_setCur [of ?e cs p] a by (simp add: onCdb_pair)
    note s = emitSessionUpdated_setCur [OF q, of E now "trSessionID rec" cs]
    have s': "faults (cdb (emitSessionUpdated E now (trSessionID rec) ?q)) = []" using s q by simp
    show ?thesis
      using Some s f cursorFreeD [OF applyFolds_free q, of E now _ cs] cursorFreeD [OF applyFolds_free s', of E now _ cs]
      by (simp add: foldLine_def c onCdb_pair [of _ p] case_prod_unfold Let_def split: sum.split)
  qed (simp add: foldLine_def f)
qed


definition tailRuns :: "claudeEnv \<Rightarrow> string \<Rightarrow> (instant \<times> string) list \<Rightarrow> claudeSt \<Rightarrow> claudeSt" where
  "tailRuns E path scans p = fold (\<lambda>(now, c). scanFile E now (path, Some c)) scans p"

definition foldLines :: "claudeEnv \<Rightarrow> (instant \<times> string) list \<Rightarrow> claudeSt \<Rightarrow> claudeSt" where
  "foldLines E tls p = fold (\<lambda>(now, l). foldLine E now l) tls p"

lemma foldLines_free: "cursorFree (foldLines E tls)"
proof -
  have "cursorFree (\<lambda>p. foldLines E tls p)" unfolding foldLines_def
    by (rule cursorFree_fold) (auto simp: foldLine_free split: prod.split)
  then show ?thesis .
qed

lemma foldLines_same_time: "fold (foldLine E now) ls p = foldLines E (zip (replicate (length ls) now) ls) p"
  by (induction ls arbitrary: p) (simp_all add: foldLines_def)

definition tailOff :: "string \<Rightarrow> claudeSt \<Rightarrow> int" where
  "tailOff path p = (case cursorRow (cdb p) (tailKey path) of None \<Rightarrow> 0 | Some r \<Rightarrow> atoiVal (atoi (snd r)))"

lemma scanFile_calm:
  fixes E :: claudeEnv and now :: instant
  assumes "faults (cdb p) = []" "tailOff path p = int n" "n \<le> length c" "int (length c) < 2 ^ 63"
    "scanLines maxTranscriptLine (drop n c) = (ls, m)"
  defines "q \<equiv> scanFile E now (path, Some c) p"
  shows "faults (cdb q) = []" "tailOff path q = int (n + m)"
    "\<And>cs. setCur cs q = setCur cs (fold (foldLine E now) ls p)"
proof -
  have off: "atoiVal (atoi (case cursorRow (cdb p) (tailKey path) of None \<Rightarrow> [] | Some r \<Rightarrow> snd r)) = int n"
    using assms(2) by (auto simp: tailOff_def atoi_def split: option.splits)
  have m: "m \<le> length (drop n c)" using scanLines_append [OF assms(5), of "[]"] by simp
  let ?p2 = "fold (foldLine E now) ls p"
  note fl = foldLines_same_time [of E now ls p]
  have p2: "faults (cdb ?p2) = []" "?p2 = setCur (cursors (cdb p)) ?p2"
    using cursorFreeD [OF foldLines_free assms(1), where cs = "cursors (cdb p)"] by (simp_all add: fl)
  have cur: "cursorRow (cdb ?p2) = cursorRow (cdb p)"
    using arg_cong [OF p2(2), of "\<lambda>x. cursors (cdb x)"] by (simp add: cursorRow_def fun_eq_iff)
  have empty: "ls = [] \<and> m = 0" if "length c \<le> n"
    using assms(5) that by (simp add: scanLines_None readLine_def)
  have q: "q = (if m = 0 then ?p2 else ?p2\<lparr>cdb := putCursor (tailKey path, itoa (int n + int m)) (cdb ?p2)\<rparr>)"
    using assms(1) off assms(5) empty p2(1)
    by (auto simp: q_def scanFile_def onCdb_pair claudeCursor_def case_prod_unfold Let_def)
  show "faults (cdb q) = []" using p2(1) by (simp add: q)
  show "setCur cs q = setCur cs ?p2" for cs by (simp add: q setCur_def putCursor_def)
  have "in64 (int n + int m)" using m assms(3,4) by (simp add: in64_def)
  then show "tailOff path q = int (n + m)"
    using assms(2) cur cur.lookup_put_same [of "(tailKey path, itoa (int n + int m))" "cdb ?p2"]
    by (simp add: q tailOff_def)
qed


lemma tailRuns_invariant:
  assumes "faults (cdb q) = []" "tailOff path q = int (snd (scanLines maxTranscriptLine c))"
    "length ts = length (fst (scanLines maxTranscriptLine c))"
    "setCur cs q = foldLines E (zip ts (fst (scanLines maxTranscriptLine c))) p"
    "successively prefix (c # map snd scans)" "\<forall>s \<in> set scans. int (length (snd s)) < 2 ^ 63"
  shows "\<exists>ts. let ls = fst (scanLines maxTranscriptLine (last (c # map snd scans))) in
    length ts = length ls \<and> setCur cs (tailRuns E path scans q) = foldLines E (zip ts ls) p"
  using assms
proof (induction scans arbitrary: c q ts)
  case Nil
  then show ?case by (auto simp: tailRuns_def intro!: exI [of _ ts])
next
  case (Cons s scans)
  obtain now c' where s: "s = (now, c')" by (cases s)
  obtain ls n where l: "scanLines maxTranscriptLine c = (ls, n)" by (cases "scanLines maxTranscriptLine c")
  from Cons.prems(5) obtain x where c': "c' = c @ x" by (auto simp: s prefix_def)
  from scanLines_append [OF l, of x] have n: "n \<le> length c"
    and a: "scanLines maxTranscriptLine c' = (ls @ fst (scanLines maxTranscriptLine (drop n c')), n + snd (scanLines maxTranscriptLine (drop n c')))"
    by (auto simp: c')
  obtain ls' m where l': "scanLines maxTranscriptLine (drop n c') = (ls', m)" by (cases "scanLines maxTranscriptLine (drop n c')")
  let ?q = "scanFile E now (path, Some c') q" and ?ts = "ts @ replicate (length ls') now"
  have calm: "faults (cdb ?q) = []" "tailOff path ?q = int (n + m)" "setCur cs ?q = setCur cs (fold (foldLine E now) ls' q)"
    using scanFile_calm [OF Cons.prems(1) _ _ _ l', where path = path and E = E and now = now] Cons.prems(2,6) n by (simp_all add: l s c')
  have "setCur cs ?q = foldLines E (zip (replicate (length ls') now) ls') (setCur cs q)"
    using cursorFreeD [OF foldLines_free Cons.prems(1), where cs = cs] by (simp add: calm(3) foldLines_same_time)
  also have "\<dots> = foldLines E (zip ?ts (ls @ ls')) p"
    using Cons.prems(3,4) by (simp add: l foldLines_def)
  finally have "\<exists>ts. let ls = fst (scanLines maxTranscriptLine (last (c' # map snd scans))) in
      length ts = length ls \<and> setCur cs (tailRuns E path scans ?q) = foldLines E (zip ts ls) p"
    using Cons.prems(3,5,6) calm a l'
    by (intro Cons.IH [where ts = ?ts]) (auto simp: l s successively_Cons split: list.splits)
  then show ?case by (simp add: s tailRuns_def)
qed



end
