(* ===== verification/Graph.thy ===== *)
theory Graph
  imports Server Tmux Git GithubQuery Peer Claude
begin

text \<open>
  \<open>graph\<close>: the resolvers and the joins across plugins. A resolver reads the plugins through their
  exported accessors, which the world record holds as the pointers of the running instances. Go
  ranges over a map in an unspecified order: \<open>order\<close> lists the elements of a branch set. The code
  that gqlgen generates (\<open>generated.go\<close>) is not modelled.
\<close>

subsection \<open>The models\<close>

record TmuxSessionM =
  tsHostID :: string
  tsName :: string
  tsWorktree :: "string option"
  tsBranch :: "string option"
  tsLastSeenAt :: "instant option"
  tsStaleSince :: "instant option"

record TmuxPaneM =
  tpHostID :: string
  tpKey :: string
  tpSession :: string
  tpWindow :: int
  tpPane :: int
  tpPid :: int
  tpCmd :: string
  tpPath :: "string option"
  tpActive :: bool
  tpFree :: bool
  tpStaleSince :: "instant option"

record SlotM =
  smHostID :: string
  smKind :: string
  smFree :: bool
  smPaneKey :: "string option"
  smStaleSince :: "instant option"

record ClaudeSessionM =
  csHostID :: string
  csSessionID :: string
  csCwd :: string
  csGitBranch :: "string option"
  csIssueNumber :: "int option"
  csModel :: "string option"
  csState :: string
  csLastTool :: "string option"
  csToolCalls :: int
  csPrNumber :: "int option"
  csPrURL :: "string option"
  csStartedAt :: instant
  csLastEventAt :: instant
  csStaleSince :: "instant option"
  csMission :: "string option"
  csLastResponse :: "string option"
  csPaneTitle :: "string option"

record ClaudeInstanceM =
  ciHostID :: string
  ciPane :: string
  ciPid :: int
  ciSession :: ClaudeSessionM
  ciStaleSince :: "instant option"

record PeerM =
  pmHostID :: string
  pmURL :: string
  pmLastSeenAt :: "instant option"
  pmStaleSince :: "instant option"
  pmRemoteMaxPluginLagSeconds :: "int \<times> nat"
  pmMirroredKeys :: int

text \<open>The event models of the plugins have the same fields.\<close>

record EventM =
  emTs :: instant
  emType :: string
  emV :: int
  emKey :: string
  emPayload :: string

subsection \<open>The world of a resolver\<close>

record graphW =
  wTmux :: "tmux_db single_ptr"
  wClaude :: "claude_db single_ptr"
  wGithub :: "github_db single_ptr"
  wGit :: "git_db single_ptr"
  wPeer :: "peer_db single_ptr"

record ('u, 'v) graphEnv =
  geGh :: "'u ghEnv"
  geTmux :: "'v tmuxEnv"
  order :: "string set \<Rightarrow> string list"

definition askTmux :: "(tmux_db single_ptr \<Rightarrow> 'r \<times> tmux_db single_ptr) \<Rightarrow> graphW \<Rightarrow> 'r \<times> graphW" where
  "askTmux f w = (case f (wTmux w) of (r, c) \<Rightarrow> (r, w\<lparr>wTmux := c\<rparr>))"

definition askClaude :: "(claude_db single_ptr \<Rightarrow> 'r \<times> claude_db single_ptr) \<Rightarrow> graphW \<Rightarrow> 'r \<times> graphW" where
  "askClaude f w = (case f (wClaude w) of (r, c) \<Rightarrow> (r, w\<lparr>wClaude := c\<rparr>))"

definition askGithub :: "(github_db single_ptr \<Rightarrow> 'r \<times> github_db single_ptr) \<Rightarrow> graphW \<Rightarrow> 'r \<times> graphW" where
  "askGithub f w = (case f (wGithub w) of (r, c) \<Rightarrow> (r, w\<lparr>wGithub := c\<rparr>))"

definition askGit :: "(git_db single_ptr \<Rightarrow> 'r \<times> git_db single_ptr) \<Rightarrow> graphW \<Rightarrow> 'r \<times> graphW" where
  "askGit f w = (case f (wGit w) of (r, c) \<Rightarrow> (r, w\<lparr>wGit := c\<rparr>))"

definition askPeer :: "(peer_db single_ptr \<Rightarrow> 'r \<times> peer_db single_ptr) \<Rightarrow> graphW \<Rightarrow> 'r \<times> graphW" where
  "askPeer f w = (case f (wPeer w) of (r, c) \<Rightarrow> (r, w\<lparr>wPeer := c\<rparr>))"

subsection \<open>Mappings\<close>

definition hostArg :: "string option \<Rightarrow> string" where
  "hostArg h = (case h of None \<Rightarrow> [] | Some x \<Rightarrow> x)"

definition optStr :: "string \<Rightarrow> string option" where
  "optStr s = (if s = [] then None else Some s)"

definition optNum :: "int \<Rightarrow> int option" where
  "optNum n = (if n = 0 then None else Some n)"

definition tmuxSessionModel :: "SessionRow \<Rightarrow> TmuxSessionM" where
  "tmuxSessionModel s = \<lparr>tsHostID = seHostID s, tsName = seName s, tsWorktree = optStr (seWorktree s), tsBranch = optStr (seBranch s),
     tsLastSeenAt = seLastSeenAt s, tsStaleSince = seStaleSince s\<rparr>"

definition paneModel :: "PaneRow \<Rightarrow> TmuxPaneM" where
  "paneModel p = \<lparr>tpHostID = pnHostID p, tpKey = pnKey p, tpSession = pnSession p, tpWindow = pnWindow p, tpPane = pnPane p, tpPid = pnPid p,
     tpCmd = pnCmd p, tpPath = optStr (pnPath p), tpActive = pnActive p, tpFree = pnFree p, tpStaleSince = pnStaleSince p\<rparr>"

definition panesToModel :: "PaneRow list \<Rightarrow> TmuxPaneM list" where
  "panesToModel rows = map paneModel rows"

definition claudeSessionModel :: "ClaudeRow \<Rightarrow> ClaudeSessionM" where
  "claudeSessionModel r = \<lparr>csHostID = crHostID r, csSessionID = crSessionID r, csCwd = crCwd r, csGitBranch = optStr (crGitBranch r),
     csIssueNumber = optNum (crIssueNumber r), csModel = optStr (crModel r), csState = crState r, csLastTool = optStr (crLastTool r),
     csToolCalls = crToolCalls r, csPrNumber = optNum (crPrNumber r), csPrURL = optStr (crPrURL r), csStartedAt = crStartedAt r,
     csLastEventAt = crLastEventAt r, csStaleSince = crStaleSince r, csMission = optStr (crMission r),
     csLastResponse = optStr (crLastResponse r), csPaneTitle = optStr (crPaneTitle r)\<rparr>"

definition eventModel :: "envelope \<Rightarrow> EventM" where
  "eventModel e = \<lparr>emTs = TS e, emType = EType e, emV = V e, emKey = Key e, emPayload = Payload e\<rparr>"

subsection \<open>Base resolvers\<close>

text \<open>The injected functions of the resolver root may be nil.\<close>

definition queryHealth :: "(unit \<Rightarrow> HealthStatus list) option \<Rightarrow> HealthStatus list" where
  "queryHealth f = (case f of None \<Rightarrow> [] | Some g \<Rightarrow> g ())"

definition queryPing :: string where
  "queryPing = ''ok''"

definition templatePing :: string where
  "templatePing = ''pong from template''"

definition subPluginLag :: "(int \<times> nat \<Rightarrow> HealthStatus list \<times> bool) option \<Rightarrow> int \<times> nat \<Rightarrow> HealthStatus list \<times> bool" where
  "subPluginLag lag thr = (case lag of None \<Rightarrow> ([], True) | Some f \<Rightarrow> f thr)"

subsection \<open>Relays\<close>

text \<open>A relay goroutine over the channel of \<open>Events\<close>; \<open>None\<close> is a resolver root without that hook.\<close>

definition relay :: "(envelope \<Rightarrow> bool) \<Rightarrow> envelope wakeup list option \<Rightarrow> EventM list \<times> bool" where
  "relay keep ws =
     (case ws of None \<Rightarrow> ([], True) | Some ws \<Rightarrow> stream (\<lambda>e. if keep e then [eventModel e] else []) ws)"

definition checkRunUpdated :: "envelope wakeup list option \<Rightarrow> EventM list \<times> bool" where
  "checkRunUpdated = relay (\<lambda>_. True)"

definition worktreeUpdated :: "envelope wakeup list option \<Rightarrow> EventM list \<times> bool" where
  "worktreeUpdated = relay (\<lambda>_. True)"

definition tmuxEvents :: "envelope wakeup list option \<Rightarrow> EventM list \<times> bool" where
  "tmuxEvents = relay (\<lambda>_. True)"

definition templateEvents :: "envelope wakeup list option \<Rightarrow> EventM list \<times> bool" where
  "templateEvents = relay (\<lambda>_. True)"

definition claudeSessionUpdated :: "string option \<Rightarrow> envelope wakeup list option \<Rightarrow> EventM list \<times> bool" where
  "claudeSessionUpdated host =
     (let suffix = (case host of None \<Rightarrow> [] | Some h \<Rightarrow> ''@'' @ h)
      in relay (\<lambda>e. suffix = [] \<or> hasSuffix (Key e) suffix))"

definition issuePrefix :: "string option \<Rightarrow> string option \<Rightarrow> string" where
  "issuePrefix owner repo =
     ''issue:'' @ (case owner of None \<Rightarrow> []
       | Some o' \<Rightarrow> o' @ ''/'' @ (case repo of None \<Rightarrow> [] | Some r \<Rightarrow> r @ ''#''))"

definition issueUpdated ::
  "string option \<Rightarrow> string option \<Rightarrow> envelope wakeup list option \<Rightarrow> (EventM list \<times> bool) res" where
  "issueUpdated owner repo ws =
     (if repo \<noteq> None \<and> owner = None then Inl ''issueUpdated: repo requires owner''
      else Inr (relay (\<lambda>e. hasPrefix (Key e) (issuePrefix owner repo)) ws))"

subsection \<open>Tmux and peer resolvers\<close>

definition queryTmuxSessions :: "string option \<Rightarrow> graphW \<Rightarrow> TmuxSessionM list res \<times> graphW" where
  "queryTmuxSessions host w =
     (case askTmux (Sessions (hostArg host)) w of
        (Inl e, w1) \<Rightarrow> (Inl e, w1) | (Inr rows, w1) \<Rightarrow> (Inr (map tmuxSessionModel rows), w1))"

definition queryTmuxPanes :: "string option \<Rightarrow> graphW \<Rightarrow> TmuxPaneM list res \<times> graphW" where
  "queryTmuxPanes host w =
     (case askTmux (Panes (hostArg host)) w of
        (Inl e, w1) \<Rightarrow> (Inl e, w1) | (Inr rows, w1) \<Rightarrow> (Inr (panesToModel rows), w1))"

definition slotsModel :: "('u, 'v) graphEnv \<Rightarrow> string \<Rightarrow> bool \<Rightarrow> graphW \<Rightarrow> SlotM list res \<times> graphW" where
  "slotsModel E host freeOnly w =
     (case askTmux (Slots (geTmux E) host freeOnly) w of
        (Inl e, w1) \<Rightarrow> (Inl e, w1)
      | (Inr rows, w1) \<Rightarrow>
          (Inr (map (\<lambda>s. \<lparr>smHostID = slHostID s, smKind = slKind s, smFree = slFree s, smPaneKey = optStr (slPaneKey s),
             smStaleSince = slStaleSince s\<rparr>) rows), w1))"

definition querySlots :: "('u, 'v) graphEnv \<Rightarrow> string option \<Rightarrow> graphW \<Rightarrow> SlotM list res \<times> graphW" where
  "querySlots E host = slotsModel E (hostArg host) False"

definition queryFreeSlots :: "('u, 'v) graphEnv \<Rightarrow> string option \<Rightarrow> graphW \<Rightarrow> SlotM list res \<times> graphW" where
  "queryFreeSlots E host = slotsModel E (hostArg host) True"

definition queryPaneForBranch :: "string \<Rightarrow> graphW \<Rightarrow> TmuxPaneM list res \<times> graphW" where
  "queryPaneForBranch branch w =
     (case askTmux (PaneForBranch branch) w of
        (Inl e, w1) \<Rightarrow> (Inl e, w1) | (Inr rows, w1) \<Rightarrow> (Inr (panesToModel rows), w1))"

definition queryPeers :: "graphW \<Rightarrow> PeerM list res \<times> graphW" where
  "queryPeers w =
     (case askPeer Peer.Peers w of
        (Inl e, w1) \<Rightarrow> (Inl e, w1)
      | (Inr vs, w1) \<Rightarrow>
          (Inr (map (\<lambda>v. \<lparr>pmHostID = pvHostID v, pmURL = pvURL v, pmLastSeenAt = pvLastSeenAt v, pmStaleSince = pvStaleSince v,
             pmRemoteMaxPluginLagSeconds = pvLagSeconds v, pmMirroredKeys = pvMirroredKeys v\<rparr>) vs), w1))"

subsection \<open>Claude resolvers\<close>

definition queryClaudeSessions :: "string option \<Rightarrow> int option \<Rightarrow> graphW \<Rightarrow> ClaudeSessionM list \<times> graphW" where
  "queryClaudeSessions host issue w =
     (case askClaude (QuerySessions host issue) w of (rows, w1) \<Rightarrow> (map claudeSessionModel rows, w1))"

definition queryClaudeSession :: "string \<Rightarrow> graphW \<Rightarrow> ClaudeSessionM option \<times> graphW" where
  "queryClaudeSession sid w =
     (case askClaude (QuerySession sid) w of (r, w1) \<Rightarrow> (map_option claudeSessionModel r, w1))"

definition queryClaudeInstances :: "string option \<Rightarrow> graphW \<Rightarrow> ClaudeInstanceM list \<times> graphW" where
  "queryClaudeInstances host w =
     (case askClaude (QueryInstances host) w of
        (rows, w1) \<Rightarrow> (map (\<lambda>r. \<lparr>ciHostID = crHostID r, ciPane = crPane r, ciPid = crPid r, ciSession = claudeSessionModel r,
           ciStaleSince = crStaleSince r\<rparr>) rows, w1))"

subsection \<open>The issue join\<close>

definition containsInt :: "int list \<Rightarrow> int \<Rightarrow> bool" where
  "containsInt xs n = list_ex (\<lambda>x. x = n) xs"

definition linksPR :: "int \<Rightarrow> PRNode \<Rightarrow> bool" where
  "linksPR n pr \<longleftrightarrow> prHeadRefName pr \<noteq> []
     \<and> (FromBranch (prHeadRefName pr) = (n, True) \<or> containsInt (ClosingRefs (prBody pr @ [CHR 0x0A] @ prTitle pr)) n)"

definition computeIssueBranches :: "('u, 'v) graphEnv \<Rightarrow> string \<Rightarrow> string \<Rightarrow> int \<Rightarrow> graphW \<Rightarrow> string set \<times> graphW" where
  "computeIssueBranches E owner repo n w =
     (let (sess, w1) = askTmux (Sessions []) w;
          b1 = (case sess of Inl _ \<Rightarrow> {} | Inr rs \<Rightarrow> set (map seBranch (filter (\<lambda>s. FromBranch (seBranch s) = (n, True)) rs)));
          (cs, w2) = askClaude (QuerySessions None (Some n)) w1;
          b2 = set (map crGitBranch (filter (\<lambda>c. crGitBranch c \<noteq> []) cs));
          (prs, w3) = askGithub (CachedPRs (geGh E) owner repo) w2
      in (b1 \<union> b2 \<union> set (map prHeadRefName (filter (linksPR n) prs)), w3))"

definition issueBranches ::
  "('u, 'v) graphEnv \<Rightarrow> IssueNode \<Rightarrow> issueMemo \<times> graphW \<Rightarrow> string set \<times> issueMemo \<times> graphW" where
  "issueBranches E obj mw =
     (case mw of (m, w) \<Rightarrow>
        (let (b, w1) = (case m of None \<Rightarrow> computeIssueBranches E (iOwner obj) (iRepo obj) (iNumber obj) w | Some _ \<Rightarrow> ({}, w));
             (b', m') = Branches (\<lambda>_. b) m
         in (b', m', w1)))"

text \<open>Appending the rows whose key was not seen.\<close>

fun addRows :: "('r \<Rightarrow> string) \<Rightarrow> 'r list \<Rightarrow> string set \<Rightarrow> 'r list" where
  "addRows key [] seen = []"
| "addRows key (r # rs) seen = (if key r \<in> seen then addRows key rs seen else r # addRows key rs (insert (key r) seen))"

fun panesOn :: "string list \<Rightarrow> graphW \<Rightarrow> PaneRow list \<times> graphW" where
  "panesOn [] w = ([], w)"
| "panesOn (br # brs) w =
     (case askTmux (PaneForBranch br) w of
        (Inl _, w1) \<Rightarrow> panesOn brs w1
      | (Inr prs, w1) \<Rightarrow> (case panesOn brs w1 of (rows, w2) \<Rightarrow> (prs @ rows, w2)))"

definition tmuxPanesForIssue ::
  "('u, 'v) graphEnv \<Rightarrow> IssueNode \<Rightarrow> issueMemo \<times> graphW \<Rightarrow> TmuxPaneM list \<times> issueMemo \<times> graphW" where
  "tmuxPanesForIssue E obj mw =
     (case issueBranches E obj mw of (b, m, w1) \<Rightarrow>
        (case panesOn (order E b) w1 of (rows, w2) \<Rightarrow> (panesToModel (addRows pnKey rows {}), m, w2)))"

definition claudeSessionsForIssue ::
  "('u, 'v) graphEnv \<Rightarrow> IssueNode \<Rightarrow> issueMemo \<times> graphW \<Rightarrow> ClaudeSessionM list \<times> issueMemo \<times> graphW" where
  "claudeSessionsForIssue E obj mw =
     (case issueBranches E obj mw of (b, m, w1) \<Rightarrow>
        (let (keyed, w2) = askClaude (QuerySessions None (Some (iNumber obj))) w1;
             (every, w3) = askClaude (QuerySessions None None) w2
         in (map claudeSessionModel (addRows crSessionID (keyed @ filter (\<lambda>c. crGitBranch c \<noteq> [] \<and> crGitBranch c \<in> b) every) {}), m, w3)))"

definition panesForBranchModel :: "string \<Rightarrow> graphW \<Rightarrow> TmuxPaneM list \<times> graphW" where
  "panesForBranchModel branch w =
     (case askTmux (PaneForBranch branch) w of
        (Inl _, w1) \<Rightarrow> (panesToModel [], w1) | (Inr rows, w1) \<Rightarrow> (panesToModel rows, w1))"

definition claudeSessionsOnBranchModel :: "string \<Rightarrow> graphW \<Rightarrow> ClaudeSessionM list \<times> graphW" where
  "claudeSessionsOnBranchModel branch w =
     (let (keyed, w1) = (case FromBranch branch of (n, ok) \<Rightarrow> if ok then askClaude (QuerySessions None (Some n)) w else ([], w));
          (every, w2) = askClaude (QuerySessions None None) w1
      in (map claudeSessionModel (addRows crSessionID (keyed @ filter (\<lambda>c. crGitBranch c = branch) every) {}), w2))"

subsection \<open>The worktree joins\<close>

fun leastNamed :: "string \<Rightarrow> SessionRow list \<Rightarrow> SessionRow option \<Rightarrow> SessionRow option" where
  "leastNamed want [] best = best"
| "leastNamed want (s # ss) best =
     (if pathClean (seWorktree s) \<noteq> want then leastNamed want ss best
      else leastNamed want ss (case best of None \<Rightarrow> Some s | Some b \<Rightarrow> if seName s < seName b then Some s else Some b))"

definition tmuxSessionForWorktree :: "SessionRow list \<Rightarrow> string \<Rightarrow> TmuxSessionM option" where
  "tmuxSessionForWorktree ss path = map_option tmuxSessionModel (leastNamed (pathClean path) ss None)"

definition splitRepoSlug :: "string \<Rightarrow> (string \<times> string) option" where
  "splitRepoSlug slug =
     (case splitOn (CHR ''/'') slug of [o', r] \<Rightarrow> if o' = [] \<or> r = [] then None else Some (o', r) | _ \<Rightarrow> None)"

fun newestPR :: "string \<Rightarrow> PRNode list \<Rightarrow> PRNode option \<Rightarrow> PRNode option" where
  "newestPR branch [] best = best"
| "newestPR branch (pr # prs) best =
     (if prHeadRefName pr \<noteq> branch then newestPR branch prs best
      else newestPR branch prs (case best of None \<Rightarrow> Some pr | Some b \<Rightarrow> if prNumber b < prNumber pr then Some pr else Some b))"

definition pullRequestForWorktree :: "PRNode option \<Rightarrow> PRNode list \<Rightarrow> string \<Rightarrow> PRNode option" where
  "pullRequestForWorktree direct cached branch =
     newestPR branch cached (case direct of None \<Rightarrow> None | Some d \<Rightarrow> if prHeadRefName d = branch then Some d else None)"

definition worktreeTmuxSession :: "WorktreeNode \<Rightarrow> graphW \<Rightarrow> TmuxSessionM option \<times> graphW" where
  "worktreeTmuxSession obj w =
     (case askTmux (Sessions []) w of
        (Inl _, w1) \<Rightarrow> (None, w1) | (Inr ss, w1) \<Rightarrow> (tmuxSessionForWorktree ss (wnPath obj), w1))"

definition worktreeIssue :: "('u, 'v) graphEnv \<Rightarrow> WorktreeNode \<Rightarrow> graphW \<Rightarrow> IssueNode option \<times> graphW" where
  "worktreeIssue E obj w =
     (case wnBranch obj of
        None \<Rightarrow> (None, w)
      | Some branch \<Rightarrow>
          (case FromBranch branch of (n, ok) \<Rightarrow>
             if \<not> ok then (None, w)
             else case splitRepoSlug (wnRepoSlug obj) of
                    None \<Rightarrow> (None, w)
                  | Some (o', r) \<Rightarrow> askGithub (Issue (geGh E) (''issue:'' @ o' @ ''/'' @ r @ ''#'' @ itoa n)) w))"

definition worktreePullRequest :: "('u, 'v) graphEnv \<Rightarrow> WorktreeNode \<Rightarrow> graphW \<Rightarrow> PRNode option \<times> graphW" where
  "worktreePullRequest E obj w =
     (case wnBranch obj of
        None \<Rightarrow> (None, w)
      | Some branch \<Rightarrow>
          (case splitRepoSlug (wnRepoSlug obj) of
             None \<Rightarrow> (None, w)
           | Some (o', r) \<Rightarrow>
               (let (direct, w1) = (case FromBranch branch of (n, ok) \<Rightarrow>
                       if ok then askGithub (PullRequest (geGh E) (''pr:'' @ o' @ ''/'' @ r @ ''#'' @ itoa n)) w else (None, w));
                    (cached, w2) = askGithub (CachedPRs (geGh E) o' r) w1
                in (pullRequestForWorktree direct cached branch, w2))))"

definition queryRepos :: "string option \<Rightarrow> graphW \<Rightarrow> RepoNode list \<times> graphW" where
  "queryRepos host w = askGit (Repos (hostArg host)) w"

definition repoWorktrees :: "RepoNode \<Rightarrow> graphW \<Rightarrow> WorktreeNode list \<times> graphW" where
  "repoWorktrees obj w = askGit (WorktreesForRepo (rnKey obj)) w"

subsection \<open>GitHub resolvers\<close>

definition queryIssue :: "('u, 'v) graphEnv \<Rightarrow> string \<Rightarrow> graphW \<Rightarrow> IssueNode option \<times> graphW" where
  "queryIssue E key = askGithub (Issue (geGh E) key)"

definition queryPullRequest :: "('u, 'v) graphEnv \<Rightarrow> string \<Rightarrow> graphW \<Rightarrow> PRNode option \<times> graphW" where
  "queryPullRequest E key = askGithub (PullRequest (geGh E) key)"

definition queryIssuesForRepo :: "('u, 'v) graphEnv \<Rightarrow> string \<Rightarrow> string \<Rightarrow> graphW \<Rightarrow> IssueNode list \<times> graphW" where
  "queryIssuesForRepo E owner repo = askGithub (IssuesForRepo (geGh E) owner repo)"

definition queryPullRequestsForRepo :: "('u, 'v) graphEnv \<Rightarrow> string \<Rightarrow> string \<Rightarrow> graphW \<Rightarrow> PRNode list \<times> graphW" where
  "queryPullRequestsForRepo E owner repo = askGithub (CachedPRs (geGh E) owner repo)"

subsection \<open>Lemmas: reads of running plugins\<close>

text \<open>Every plugin the joins read runs, and no statement fails.\<close>

definition calmW :: "graphW \<Rightarrow> tmux_db \<Rightarrow> claude_db \<Rightarrow> github_db \<Rightarrow> bool" where
  "calmW w t c g \<longleftrightarrow> wTmux w = Some t \<and> wClaude w = Some c \<and> wGithub w = Some g \<and> faults t = [] \<and> faults c = [] \<and> faults g = []"

lemmas single_simps = singleGet_def singleSet_def

lemma sessions_calm:
  "calmW w t c g \<Longrightarrow> askTmux (Sessions []) w = (Inr (map scanSession (sort_key stKey (tmuxSessions t))), w)"
  by (simp add: calmW_def askTmux_def Sessions_def withStore_def single_simps scanSessions_def)

definition branchPanes :: "string \<Rightarrow> tmux_db \<Rightarrow> PaneRow list" where
  "branchPanes br t = map scanPane (concat (map (\<lambda>p.
     map (\<lambda>_. p) (filter (\<lambda>se. stName se = ptSession p \<and> stBranch se = Some br) (tmuxSessions t))) (sort_key ptKey (tmuxPanes t))))"

lemma panes_calm: "calmW w t c g \<Longrightarrow> askTmux (PaneForBranch br) w = (Inr (branchPanes br t), w)"
  by (simp add: calmW_def askTmux_def PaneForBranch_def withStore_def single_simps panesForBranch_def branchPanes_def)

definition sessionRows :: "int option \<Rightarrow> claude_db \<Rightarrow> ClaudeRow list" where
  "sessionRows issue c = map scanRow (sort_key srSid (filter (\<lambda>r. case issue of None \<Rightarrow> True | Some i \<Rightarrow> srIssueNumber r = i) (sessions c)))"

lemma claude_calm: "calmW w t c g \<Longrightarrow> askClaude (QuerySessions None iss) w = (sessionRows iss c, w)"
  by (simp add: calmW_def askClaude_def QuerySessions_def liveRows_def single_simps listSessions_def sessionRows_def)

definition cachedPRs :: "'u ghEnv \<Rightarrow> string \<Rightarrow> string \<Rightarrow> github_db \<Rightarrow> PRNode list" where
  "cachedPRs E o' r g = fst (CachedPRs E o' r (Some g))"

lemma prs_calm:
  assumes "calmW w t c g"
  shows "askGithub (CachedPRs E o' r) w = (cachedPRs E o' r g, w)"
proof -
  have "snd (CachedPRs E o' r (Some g)) = Some g"
    using assms by (simp add: calmW_def CachedPRs_def single_simps nodesByKind_def split: sum.split prod.split)
  then show ?thesis
    using assms by (simp add: calmW_def askGithub_def cachedPRs_def case_prod_unfold)
qed

lemma pr_calm:
  assumes "calmW w t c g"
  shows "snd (askGithub (PullRequest E key) w) = w"
  using assms
  by (simp add: calmW_def askGithub_def PullRequest_def single_simps getOrNil_def getNode_no_faults split: option.split prod.split)

subsection \<open>Lemmas: joins\<close>

lemma addRows_spec: "distinct (map key (addRows key rs seen)) \<and> set (addRows key rs seen) \<subseteq> set rs
  \<and> key ` set (addRows key rs seen) = key ` set rs - seen"
proof (induction key rs seen rule: addRows.induct)
  case (2 key r rs seen)
  then show ?case by (cases "key r \<in> seen") auto
qed simp

lemma panesOn_calm:
  "calmW w t c g \<Longrightarrow> panesOn brs w = (concat (map (\<lambda>br. branchPanes br t) brs), w)"
  by (induction brs) (simp_all add: panes_calm)

lemma branches_calm:
  assumes "calmW w t c g"
  shows "snd (computeIssueBranches E o' r n w) = w"
  using assms by (simp add: computeIssueBranches_def sessions_calm claude_calm prs_calm)

lemma newestPR_from:
  assumes "prHeadRefName b = branch"
  shows "\<exists>p. newestPR branch prs (Some b) = Some p \<and> (p = b \<or> p \<in> set prs) \<and> prHeadRefName p = branch \<and> prNumber b \<le> prNumber p
    \<and> (\<forall>q \<in> set prs. prHeadRefName q = branch \<longrightarrow> prNumber q \<le> prNumber p)"
  using assms
proof (induction prs arbitrary: b)
  case (Cons pr prs)
  define b' where "b' = (if prHeadRefName pr = branch \<and> prNumber b < prNumber pr then pr else b)"
  have b': "prHeadRefName b' = branch" "prNumber b \<le> prNumber b'" "b' = b \<or> b' = pr"
    "prHeadRefName pr = branch \<longrightarrow> prNumber pr \<le> prNumber b'" "newestPR branch (pr # prs) (Some b) = newestPR branch prs (Some b')"
    using Cons.prems by (auto simp: b'_def)
  from Cons.IH [OF b'(1)] obtain p where p: "newestPR branch prs (Some b') = Some p" "p = b' \<or> p \<in> set prs" "prHeadRefName p = branch"
    "prNumber b' \<le> prNumber p" "\<forall>q \<in> set prs. prHeadRefName q = branch \<longrightarrow> prNumber q \<le> prNumber p"
    by blast
  then show ?case unfolding b'(5) using b'(2-4) by (intro exI [of _ p]) auto
qed auto

lemma newestPR_None:
  "newestPR branch prs None = None \<and> (\<forall>q \<in> set prs. prHeadRefName q \<noteq> branch) \<or>
   (\<exists>p \<in> set prs. newestPR branch prs None = Some p \<and> prHeadRefName p = branch
      \<and> (\<forall>q \<in> set prs. prHeadRefName q = branch \<longrightarrow> prNumber q \<le> prNumber p))"
proof (induction prs)
  case (Cons pr prs)
  show ?case
  proof (cases "prHeadRefName pr = branch")
    case True
    from newestPR_from [OF this, of prs] show ?thesis using True by auto
  qed (use Cons in auto)
qed simp

lemma leastNamed_from:
  assumes "pathClean (seWorktree b) = want"
  shows "\<exists>s. leastNamed want ss (Some b) = Some s \<and> (s = b \<or> s \<in> set ss) \<and> pathClean (seWorktree s) = want \<and> seName s \<le> seName b
    \<and> (\<forall>x \<in> set ss. pathClean (seWorktree x) = want \<longrightarrow> seName s \<le> seName x)"
  using assms
proof (induction ss arbitrary: b)
  case (Cons x ss)
  define b' where "b' = (if pathClean (seWorktree x) = want \<and> seName x < seName b then x else b)"
  have b': "pathClean (seWorktree b') = want" "seName b' \<le> seName b" "b' = b \<or> b' = x"
    "pathClean (seWorktree x) = want \<longrightarrow> seName b' \<le> seName x" "leastNamed want (x # ss) (Some b) = leastNamed want ss (Some b')"
    using Cons.prems by (auto simp: b'_def)
  from Cons.IH [OF b'(1)] obtain s where s: "leastNamed want ss (Some b') = Some s" "s = b' \<or> s \<in> set ss" "pathClean (seWorktree s) = want"
    "seName s \<le> seName b'" "\<forall>x \<in> set ss. pathClean (seWorktree x) = want \<longrightarrow> seName s \<le> seName x"
    by blast
  then show ?case unfolding b'(5) using b'(2-4) by (intro exI [of _ s]) auto
qed auto

lemma leastNamed_None:
  "leastNamed want ss None = None \<and> (\<forall>x \<in> set ss. pathClean (seWorktree x) \<noteq> want) \<or>
   (\<exists>s \<in> set ss. leastNamed want ss None = Some s \<and> pathClean (seWorktree s) = want
      \<and> (\<forall>x \<in> set ss. pathClean (seWorktree x) = want \<longrightarrow> seName s \<le> seName x))"
proof (induction ss)
  case (Cons x ss)
  show ?case
  proof (cases "pathClean (seWorktree x) = want")
    case True
    from leastNamed_from [OF this, of ss] show ?thesis using True by auto
  qed (use Cons in auto)
qed simp


definition demoGithub :: github_db where
  "demoGithub = \<lparr>faults = [], ringCapacity = 10, tables = [], schemaVersions = [], events = [], lastId = 0, cursors = [],
     nodes = [], tags = [], hooksTbl = [], deliveries = []\<rparr>"

definition demoTmux :: tmux_db where
  "demoTmux = demoTmuxDb\<lparr>tmuxSessions :=
     [\<lparr>stKey = ''session:b@h'', stName = ''b'', stWorktree = Some ''/r/x/'', stBranch = Some ''issue7'', stSeen = None, stStale = None\<rparr>]\<rparr>"

definition demoW :: graphW where
  "demoW = \<lparr>wTmux = Some demoTmux, wClaude = Some (demoDb []), wGithub = Some demoGithub, wGit = None, wPeer = None\<rparr>"

lemma demoW_calm: "calmW demoW demoTmux (demoDb []) demoGithub"
  by (simp add: calmW_def demoW_def demoTmux_def demoTmuxDb_def demoDb_def demoGithub_def)

definition demoWorktree :: WorktreeNode where
  "demoWorktree = \<lparr>wnKey = ''h:/r/x'', wnHostID = ''h'', wnRepoKey = ''h:/r'', wnRepoSlug = ''o/r'', wnPath = ''/r/x'', wnHead = [],
     wnBranch = Some ''issue7'', wnDetached = False, wnAhead = None, wnBehind = None, wnStaleSince = None\<rparr>"




lemma subseq_filter_both: "subseq xs ys \<Longrightarrow> subseq (filter P xs) (filter P ys)"
  by (induction rule: list_emb.induct) auto

lemma concat_map_if: "concat (map (\<lambda>x. if P x then [] else [f x]) xs) = map f (filter (\<lambda>x. \<not> P x) xs)"
  "concat (map (\<lambda>x. if P x then [f x] else []) xs) = map f (filter P xs)"
  by (induction xs) auto

lemma issuePrefix_key:
  assumes "scopeName o'" "scopeName r" "scopeName o2" "scopeName r2"
  shows "hasPrefix (objKey ''issue'' (CHR ''#'') o2 r2 d) (issuePrefix (Some o') (Some r)) \<longleftrightarrow> o2 = o' \<and> r2 = r"
proof -
  have cut: "x @ c # y = x' @ c # y' \<longleftrightarrow> x = x' \<and> y = y'" if "c \<notin> set x" "c \<notin> set x'" for c :: char and x x' y y'
    using that by (induction x arbitrary: x') (case_tac x', auto)+
  have "hasPrefix (objKey ''issue'' (CHR ''#'') o2 r2 d) (issuePrefix (Some o') (Some r)) \<longleftrightarrow>
      (\<exists>z. o2 @ CHR ''/'' # (r2 @ CHR ''#'' # d) = o' @ CHR ''/'' # (r @ CHR ''#'' # z))"
    unfolding hasPrefix_iff objKey_def issuePrefix_def by auto
  also have "\<dots> \<longleftrightarrow> o2 = o' \<and> (\<exists>z. r2 @ CHR ''#'' # d = r @ CHR ''#'' # z)"
    using assms by (subst cut) (auto simp: scopeName_seps)
  also have "\<dots> \<longleftrightarrow> o2 = o' \<and> r2 = r"
    using assms by (subst cut) (auto simp: scopeName_seps)
  finally show ?thesis .
qed




end
