(* ===== verification/Cli.thy ===== *)
theory Cli
  imports CoreConfig GoHttp
begin

text \<open>
  \<open>cmd/supergraph\<close>, the client commands: \<open>query.go\<close>, \<open>schema.go\<close>, \<open>subscribe.go\<close>, the hook installer
  and forwarder (\<open>install.go\<close>) and \<open>status\<close> (\<open>service.go\<close>). The file system, the JSON codec, the TOML
  decoder, the URL parser and the transports are fields of the environment. A websocket connection is
  the sequence of what its reads return; after the last one the read fails. A response whose body
  cannot be read is a failed request. Writes to the terminal succeed. Flag parsing (cobra) is not modelled.
\<close>

record 'u cliEnv =
  ceToml :: "string \<Rightarrow> Config option"
  ceHome :: "string option"
  ceRead :: "string \<Rightarrow> string option"
  ceXdg :: string
  ceMarshal :: "any \<Rightarrow> string"
  ceUnmarshal :: "string \<Rightarrow> any option"
  ceEnvelope :: "string \<Rightarrow> (string \<times> string list) option"
  ceIndent :: "string \<Rightarrow> string option"
  ceURLHost :: "string \<Rightarrow> string option"
  ceDo :: "request \<Rightarrow> 'u \<Rightarrow> response option \<times> 'u"

definition loadConfig :: "'u cliEnv \<Rightarrow> string \<Rightarrow> Config res" where
  "loadConfig E path = LoadConfig (ceToml E) (ceHome E) (ceRead E path)"

subsection \<open>Endpoints\<close>

definition defaultQueryEndpoint :: string where
  "defaultQueryEndpoint = ''http://127.0.0.1:7788/graphql''"

definition pluginsWithOpRoute :: "string list" where
  "pluginsWithOpRoute = [''github'']"

definition coreTypedOps :: "string list" where
  "coreTypedOps = [''issue'', ''pullRequest'', ''issuesForRepo'']"

text \<open>A file that cannot be read fails both \<open>os.Stat\<close> and \<open>LoadConfig\<close>, or only the latter; either way the
  endpoint stays the default.\<close>

definition resolveEndpoint :: "'u cliEnv \<Rightarrow> string \<Rightarrow> string \<Rightarrow> string" where
  "resolveEndpoint E endpoint cfgPath =
     (if endpoint \<noteq> defaultQueryEndpoint then endpoint
      else case loadConfig E cfgPath of Inr c \<Rightarrow> ''http://'' @ Listen c @ ''/graphql'' | Inl _ \<Rightarrow> endpoint)"

definition queriesDirFor :: "string \<Rightarrow> string \<Rightarrow> string" where
  "queriesDirFor dir plugin = (if dir \<noteq> [] then dir else ''./plugins/'' @ plugin @ ''/queries'')"

definition pluginEndpoint :: "'u cliEnv \<Rightarrow> string \<Rightarrow> string \<Rightarrow> string \<Rightarrow> string \<times> bool" where
  "pluginEndpoint E plugin endpoint cfgPath =
     (let base = trimSuffix (resolveEndpoint E endpoint cfgPath) ''/graphql'' in
      if plugin \<in> set pluginsWithOpRoute then (base @ ''/plugins/'' @ plugin @ ''/graphql'', True)
      else (base @ ''/graphql'', False))"

definition githubEndpoint :: "'u cliEnv \<Rightarrow> string \<Rightarrow> string \<Rightarrow> string" where
  "githubEndpoint E endpoint cfgPath = trimSuffix (resolveEndpoint E endpoint cfgPath) ''/graphql'' @ ''/plugins/github/graphql''"

definition nl :: string where
  "nl = [CHR 0x0A]"

subsection \<open>Query\<close>

fun parseVars :: "'u cliEnv \<Rightarrow> string list \<Rightarrow> obj res" where
  "parseVars E [] = Inr []"
| "parseVars E (kv # kvs) =
     (case cut (CHR ''='') kv of (key, value, ok) \<Rightarrow>
        if \<not> ok then Inl ''invalid --var''
        else case parseVars E kvs of
               Inl e \<Rightarrow> Inl e
             | Inr m \<Rightarrow>
                 Inr (if tblHas fst key m then m
                      else (key, case ceUnmarshal E value of Some v \<Rightarrow> v | None \<Rightarrow> AStr value) # m))"

definition postGraphQL :: "'u cliEnv \<Rightarrow> string \<Rightarrow> string \<Rightarrow> 'u \<Rightarrow> string res \<times> 'u" where
  "postGraphQL E endpoint body u =
     (case ceDo E \<lparr>reqMethod = ''POST'', reqURL = endpoint, reqHeaders = [(''Content-Type'', ''application/json'')], reqBody = body\<rparr> u of
        (None, u1) \<Rightarrow> (Inl ''query transport'', u1)
      | (Some r, u1) \<Rightarrow> (Inr (respBody r), u1))"

text \<open>The line printed, or the error.\<close>

definition printGraphQLResult :: "'u cliEnv \<Rightarrow> string \<Rightarrow> string res" where
  "printGraphQLResult E raw =
     (case ceEnvelope E raw of
        None \<Rightarrow> Inl ''decode response''
      | Some (data, errors) \<Rightarrow>
          if errors \<noteq> [] then Inl (''graphql errors: '' @ (case ceIndent E raw of None \<Rightarrow> [] | Some s \<Rightarrow> s))
          else Inr (case ceIndent E data of None \<Rightarrow> data | Some s \<Rightarrow> s))"

definition runQuery :: "'u cliEnv \<Rightarrow> string \<Rightarrow> string \<Rightarrow> 'u \<Rightarrow> string res \<times> 'u" where
  "runQuery E endpoint query u =
     (case postGraphQL E endpoint (ceMarshal E (AObj [(''query'', AStr query)])) u of
        (Inl e, u1) \<Rightarrow> (Inl e, u1) | (Inr raw, u1) \<Rightarrow> (printGraphQLResult E raw, u1))"

definition queryCandidates :: "'u cliEnv \<Rightarrow> string \<Rightarrow> string \<Rightarrow> string list" where
  "queryCandidates E op dir =
     pathJoin [dir, op @ ''.graphql''] #
       (if ceXdg E \<noteq> [] then [pathJoin [ceXdg E, ''supergraph'', ''queries'', op @ ''.graphql'']]
        else case ceHome E of None \<Rightarrow> []
             | Some h \<Rightarrow> [pathJoin [h, ''.config'', ''supergraph'', ''queries'', op @ ''.graphql'']])"

fun firstFile :: "(string \<Rightarrow> string option) \<Rightarrow> string list \<Rightarrow> string option" where
  "firstFile rd [] = None"
| "firstFile rd (p # ps) = (case rd p of Some d \<Rightarrow> Some d | None \<Rightarrow> firstFile rd ps)"

definition loadNamedQuery :: "'u cliEnv \<Rightarrow> string \<Rightarrow> string \<Rightarrow> string res" where
  "loadNamedQuery E op dir =
     (case firstFile (ceRead E) (queryCandidates E op dir) of
        None \<Rightarrow> Inl ''named operation not found'' | Some q \<Rightarrow> Inr q)"

definition runNamedQuery :: "'u cliEnv \<Rightarrow> string \<Rightarrow> string \<Rightarrow> string list \<Rightarrow> string \<Rightarrow> bool \<Rightarrow> 'u \<Rightarrow> string res \<times> 'u" where
  "runNamedQuery E endpoint op varArgs dir opRoute u =
     (case loadNamedQuery E op dir of
        Inl e \<Rightarrow> (Inl e, u)
      | Inr query \<Rightarrow>
          (case parseVars E varArgs of
             Inl e \<Rightarrow> (Inl e, u)
           | Inr vars \<Rightarrow>
               (let req = (if opRoute then [(''op'', AStr op), (''variables'', AObj vars)]
                           else [(''query'', AStr query), (''variables'', AObj vars)])
                in case postGraphQL E endpoint (ceMarshal E (AObj req)) u of
                     (Inl e, u1) \<Rightarrow> (Inl e, u1) | (Inr raw, u1) \<Rightarrow> (printGraphQLResult E raw, u1))))"

text \<open>The \<open>RunE\<close> of \<open>query\<close>.\<close>

definition queryRun ::
  "'u cliEnv \<Rightarrow> string \<Rightarrow> string \<Rightarrow> string \<Rightarrow> string \<Rightarrow> string list \<Rightarrow> string \<Rightarrow> string list \<Rightarrow> 'u \<Rightarrow> string res \<times> 'u" where
  "queryRun E cfgPath endpoint op plugin varArgs queriesDir args u =
     (if op \<noteq> [] then
        (if plugin = ''github'' \<and> op \<in> set coreTypedOps
         then runNamedQuery E (resolveEndpoint E endpoint cfgPath) op varArgs
                (if queriesDir = [] then queriesDirFor queriesDir plugin @ ''/typed'' else queriesDir) False u
         else case pluginEndpoint E plugin endpoint cfgPath of (url, opRoute) \<Rightarrow>
                runNamedQuery E url op varArgs (queriesDirFor queriesDir plugin) opRoute u)
      else case args of
             [q] \<Rightarrow> runQuery E (resolveEndpoint E endpoint cfgPath) q u
           | _ \<Rightarrow> (Inl ''query: pass a GraphQL string, or --op NAME'', u))"

subsection \<open>Schema\<close>

definition introspectTypeQuery :: string where
  "introspectTypeQuery =
     ''query($name: String!) {'' @ nl @ ''  __type(name: $name) {'' @ nl @ ''    name'' @ nl @ ''    kind'' @ nl
     @ ''    description'' @ nl @ ''    fields {'' @ nl @ ''      name'' @ nl
     @ ''      type { name kind ofType { name kind } }'' @ nl @ ''    }'' @ nl @ ''  }'' @ nl @ ''}''"

record ofType =
  otName :: string
  otKind :: string

record fieldType =
  ftName :: string
  ftKind :: string
  ftOfType :: "ofType option"

record introType =
  itName :: string
  itKind :: string
  itDescription :: string
  itFields :: "(string \<times> fieldType) list"

definition formatOfType :: "ofType option \<Rightarrow> string" where
  "formatOfType t = (case t of None \<Rightarrow> ''Unknown'' | Some x \<Rightarrow> otName x)"

definition formatFieldType :: "fieldType \<Rightarrow> string" where
  "formatFieldType t =
     (if ftKind t = ''NON_NULL'' then formatOfType (ftOfType t) @ ''!''
      else if ftKind t = ''LIST'' then ''['' @ formatOfType (ftOfType t) @ '']''
      else ftName t)"

definition quotes3 :: string where
  "quotes3 = [CHR 0x22, CHR 0x22, CHR 0x22]"

definition formatSchemaType :: "introType \<Rightarrow> string" where
  "formatSchemaType t =
     (if itDescription t \<noteq> [] then quotes3 @ itDescription t @ quotes3 @ [CHR 0x0A] else [])
     @ ''type '' @ itName t @ '' {'' @ [CHR 0x0A]
     @ concat (map (\<lambda>(n, ft). ''  '' @ n @ '': '' @ formatFieldType ft @ [CHR 0x0A]) (itFields t)) @ ''}''"

text \<open>\<open>decode\<close> reads the envelope: the type, if the answer has one, and the raw errors. The line printed,
  or the error.\<close>

definition runSchema ::
  "'u cliEnv \<Rightarrow> (string \<Rightarrow> (introType option \<times> string list) option) \<Rightarrow> string \<Rightarrow> string \<Rightarrow> 'u \<Rightarrow> string res \<times> 'u" where
  "runSchema E decode endpoint typeName u =
     (case postGraphQL E endpoint
             (ceMarshal E (AObj [(''query'', AStr introspectTypeQuery), (''variables'', AObj [(''name'', AStr typeName)])])) u of
        (Inl e, u1) \<Rightarrow> (Inl e, u1)
      | (Inr raw, u1) \<Rightarrow>
          (case decode raw of
             None \<Rightarrow> Inl ''decode response''
           | Some (ty, errors) \<Rightarrow>
               if errors \<noteq> [] then Inl (''graphql errors: '' @ joinStr '', '' errors)
               else case ty of None \<Rightarrow> Inl (''unknown type: '' @ typeName) | Some x \<Rightarrow> Inr (formatSchemaType x), u1))"

subsection \<open>Subscribe\<close>

definition defaultSubscribeMaxRetries :: int where
  "defaultSubscribeMaxRetries = 3"

definition subscriptionFields :: "(string \<times> string list) list" where
  "subscriptionFields = [(''issueUpdated'', [''owner'', ''repo'']), (''checkRunUpdated'', []), (''claudeSessionUpdated'', [''hostId'']),
     (''tmuxEvents'', []), (''worktreeUpdated'', [])]"

definition eventSelection :: string where
  "eventSelection = '' { ts type v key payload } }''"

definition subscriptionText :: "string \<Rightarrow> string list \<Rightarrow> string" where
  "subscriptionText field keys =
     (if keys = [] then ''subscription { '' @ field @ eventSelection
      else ''subscription('' @ joinStr '', '' (map (\<lambda>k. ''$'' @ k @ '': String'') keys) @ '') { '' @ field
           @ ''('' @ joinStr '', '' (map (\<lambda>k. k @ '': $'' @ k) keys) @ '')'' @ eventSelection)"

definition buildSubscription :: "string \<Rightarrow> obj \<Rightarrow> (string \<times> obj) res" where
  "buildSubscription field vars =
     (case map_of subscriptionFields field of
        None \<Rightarrow> Inl ''unknown subscription field''
      | Some allowed \<Rightarrow>
          if list_ex (\<lambda>(k, v). k \<notin> set allowed) vars
          then Inl (if allowed = [] then ''field takes no arguments'' else ''field has no argument'')
          else (let keys = sort (map fst vars) in Inr (subscriptionText field keys, map (\<lambda>k. (k, at vars k)) keys)))"

definition wsEndpoint :: "string \<Rightarrow> string" where
  "wsEndpoint e =
     (if hasPrefix e ''https://'' then ''wss://'' @ trimPrefix e ''https://''
      else if hasPrefix e ''http://'' then ''ws://'' @ trimPrefix e ''http://'' else e)"

text \<open>The token of the caller that sorts first.\<close>

definition firstToken :: "(string \<times> string) list \<Rightarrow> string option" where
  "firstToken tokens = (case sort (map fst tokens) of [] \<Rightarrow> None | n # _ \<Rightarrow> map_of tokens n)"

definition subscribeAuthHeader :: "'u cliEnv \<Rightarrow> string \<Rightarrow> string \<Rightarrow> string" where
  "subscribeAuthHeader E wsURL cfgPath =
     (let host = (case ceURLHost E wsURL of Some h \<Rightarrow> if h \<noteq> [] then h else wsURL | None \<Rightarrow> wsURL) in
      if ListenIsLoopback host then []
      else case loadConfig E cfgPath of
             Inl _ \<Rightarrow> []
           | Inr c \<Rightarrow> (case firstToken (Tokens c) of None \<Rightarrow> [] | Some t \<Rightarrow> ''Bearer '' @ t))"

text \<open>A dialled connection: whether the two writes succeed, and the frames; a frame that is not JSON is
  \<open>None\<close>. \<open>None\<close> for the connection is a failed dial.\<close>

record conn =
  coInit :: bool
  coSub :: bool
  coFrames :: "obj option list"

fun waitForAck :: "obj option list \<Rightarrow> obj option list res" where
  "waitForAck [] = Inl ''read''"
| "waitForAck (None # fs) = Inl ''decode frame''"
| "waitForAck (Some m # fs) =
     (if at m ''type'' = AStr ''connection_ack'' then Inr fs
      else if at m ''type'' = AStr ''error'' then Inl ''connection_init error''
      else waitForAck fs)"

definition eventLine :: "'u cliEnv \<Rightarrow> obj \<Rightarrow> string \<Rightarrow> string" where
  "eventLine E frame field =
     (let payload = (case asObj (at frame ''payload'') of None \<Rightarrow> [] | Some m \<Rightarrow> m);
          data = (case asObj (at payload ''data'') of None \<Rightarrow> [] | Some m \<Rightarrow> m)
      in ceMarshal E (at data field) @ [CHR 0x0A])"

text \<open>The read loop: the error, if any, and the lines printed.\<close>

fun subLoop :: "'u cliEnv \<Rightarrow> string \<Rightarrow> bool \<Rightarrow> obj option list \<Rightarrow> unit res \<times> string list" where
  "subLoop E field once [] = (Inl ''read'', [])"
| "subLoop E field once (None # fs) = (Inl ''decode frame'', [])"
| "subLoop E field once (Some m # fs) =
     (if at m ''type'' = AStr ''next'' then
        (if once then (Inr (), [eventLine E m field])
         else case subLoop E field once fs of (r, out) \<Rightarrow> (r, eventLine E m field # out))
      else if at m ''type'' = AStr ''error'' then (Inl ''subscription error'', [])
      else if at m ''type'' = AStr ''complete'' then (Inl ''subscription completed by server before an event was delivered'', [])
      else subLoop E field once fs)"

text \<open>What one attempt did on the wire: the address and the \<open>Authorization\<close> header of its dial (empty: none) and the
  frames it wrote.\<close>

record dialTrace =
  dtURL :: string
  dtAuth :: string
  dtSent :: "any list"

definition initFrame :: any where
  "initFrame = AObj [(''type'', AStr ''connection_init''), (''payload'', AObj [])]"

definition subFrame :: "string \<Rightarrow> obj \<Rightarrow> any" where
  "subFrame query variables =
     AObj [(''id'', AStr ''1''), (''type'', AStr ''subscribe''),
           (''payload'', AObj [(''query'', AStr query), (''variables'', AObj variables)])]"

definition subscribeOnce ::
  "'u cliEnv \<Rightarrow> string \<Rightarrow> string \<Rightarrow> string \<Rightarrow> string \<Rightarrow> obj \<Rightarrow> bool \<Rightarrow> conn option \<Rightarrow> unit res \<times> string list \<times> dialTrace" where
  "subscribeOnce E wsURL auth field query variables once c =
     (let tr = (\<lambda>fs. \<lparr>dtURL = wsURL, dtAuth = auth, dtSent = fs\<rparr>) in
      case c of
        None \<Rightarrow> (Inl ''dial'', [], tr [])
      | Some co \<Rightarrow>
          if \<not> coInit co then (Inl ''write'', [], tr [])
          else case waitForAck (coFrames co) of
                 Inl e \<Rightarrow> (Inl e, [], tr [initFrame])
               | Inr fs \<Rightarrow>
                   if \<not> coSub co then (Inl ''write'', [], tr [initFrame])
                   else case subLoop E field once fs of (r, out) \<Rightarrow> (r, out, tr [initFrame, subFrame query variables]))"

text \<open>The attempts left, from attempt \<open>i\<close>, given what each attempt does: the exit code, the lines printed and the dials.
  \<open>dn i\<close> says whether the context ends during the pause after attempt \<open>i\<close>.\<close>

fun attempts :: "(nat \<Rightarrow> unit res \<times> string list \<times> dialTrace) \<Rightarrow> (nat \<Rightarrow> bool) \<Rightarrow> nat \<Rightarrow> nat \<Rightarrow> int \<times> string list \<times> dialTrace list" where
  "attempts attempt dn 0 i = (2, [], [])"
| "attempts attempt dn (Suc k) i =
     (case attempt i of
        (Inr _, out, d) \<Rightarrow> (0, out, [d])
      | (Inl _, out, d) \<Rightarrow>
          if k = 0 \<or> dn i then (2, out, [d])
          else case attempts attempt dn k (Suc i) of (code, out', ds) \<Rightarrow> (code, out @ out', d # ds))"

record subscribeOptions =
  soField :: string
  soVarArgs :: "string list"
  soOnce :: bool
  soEndpoint :: string
  soConfigPath :: string
  soMaxRetries :: int

definition maxAttempts :: "subscribeOptions \<Rightarrow> int" where
  "maxAttempts opts =
     wrap64 ((if soMaxRetries opts = 0 then defaultSubscribeMaxRetries else soMaxRetries opts) + 1)"

text \<open>\<open>dial wsURL auth i\<close> is what the dial of attempt \<open>i\<close> gives. The pause is not modelled, nor what goes to
  standard error.\<close>

definition runSubscribe ::
  "'u cliEnv \<Rightarrow> subscribeOptions \<Rightarrow> (string \<Rightarrow> string \<Rightarrow> nat \<Rightarrow> conn option) \<Rightarrow> (nat \<Rightarrow> bool) \<Rightarrow> int \<times> string list \<times> dialTrace list" where
  "runSubscribe E opts dial dn =
     (case parseVars E (soVarArgs opts) of
        Inl _ \<Rightarrow> (1, [], [])
      | Inr vars \<Rightarrow>
          (case buildSubscription (soField opts) vars of
             Inl _ \<Rightarrow> (1, [], [])
           | Inr (query, variables) \<Rightarrow>
               (let wsURL = wsEndpoint (resolveEndpoint E (soEndpoint opts) (soConfigPath opts));
                    auth = subscribeAuthHeader E wsURL (soConfigPath opts)
                in attempts (\<lambda>i. subscribeOnce E wsURL auth (soField opts) query variables (soOnce opts) (dial wsURL auth i)) dn
                     (nat (maxAttempts opts)) 0)))"

subsection \<open>Hook installation\<close>

definition claudeHookEvents :: "string list" where
  "claudeHookEvents = [''SessionStart'', ''UserPromptSubmit'', ''PreToolUse'', ''PostToolUse'', ''Notification'', ''Stop'', ''SessionEnd'']"

definition claudeHookCommand :: string where
  "claudeHookCommand = ''supergraph claude-hook''"

definition hookEntry :: any where
  "hookEntry = AObj [(''hooks'', AArr [AObj [(''type'', AStr ''command''), (''command'', AStr claudeHookCommand)]])]"

definition hookBlock :: any where
  "hookBlock = AObj [(''hooks'', AObj (map (\<lambda>ev. (ev, AArr [hookEntry])) claudeHookEvents))]"

definition entryHas :: "string \<Rightarrow> any \<Rightarrow> bool" where
  "entryHas cmd e =
     (let em = (case asObj e of None \<Rightarrow> [] | Some m \<Rightarrow> m);
          inner = (case asArr (at em ''hooks'') of None \<Rightarrow> [] | Some xs \<Rightarrow> xs)
      in list_ex (\<lambda>h. let hm = (case asObj h of None \<Rightarrow> [] | Some m \<Rightarrow> m) in
           (case asStr (at hm ''command'') of None \<Rightarrow> [] | Some s \<Rightarrow> s) = cmd) inner)"

definition containsHookCommand :: "any list \<Rightarrow> string \<Rightarrow> bool" where
  "containsHookCommand arr cmd = list_ex (entryHas cmd) arr"

definition mergeEvent :: "string \<Rightarrow> obj \<Rightarrow> obj" where
  "mergeEvent ev hooks =
     (let arr = (case asArr (at hooks ev) of None \<Rightarrow> [] | Some xs \<Rightarrow> xs);
          arr' = (if containsHookCommand arr claudeHookCommand then arr else arr @ [hookEntry])
      in tblUpsert fst (ev, AArr arr') hooks)"

definition mergeSettings :: "obj \<Rightarrow> obj" where
  "mergeSettings settings =
     (let hooks = (case asObj (at settings ''hooks'') of None \<Rightarrow> [] | Some m \<Rightarrow> m)
      in tblUpsert fst (''hooks'', AObj (fold mergeEvent claudeHookEvents hooks)) settings)"

text \<open>\<open>json.MarshalIndent\<close> is \<open>json.Indent\<close> of \<open>json.Marshal\<close>; \<open>Indent\<close> does not fail on the output of \<open>Marshal\<close>.\<close>

definition marshalIndent :: "'u cliEnv \<Rightarrow> any \<Rightarrow> string" where
  "marshalIndent E v = (case ceIndent E (ceMarshal E v) of None \<Rightarrow> [] | Some s \<Rightarrow> s)"

definition printHookBlock :: "'u cliEnv \<Rightarrow> string" where
  "printHookBlock E =
     ''# Paste this into your ~/.claude/settings.json (hook install is opt-in).'' @ nl
     @ ''# Or run: supergraph install-claude-hook --install-hook --settings ~/.claude/settings.json'' @ nl
     @ marshalIndent E hookBlock @ nl"

text \<open>What the settings path holds: no file, a file that cannot be read, or its content.\<close>

datatype settings_file = NoFile | ReadError | Content string

text \<open>Which steps of \<open>writeFileAtomic\<close> succeed, in their order.\<close>

record writeSteps =
  wsMkdir :: bool
  wsCreate :: bool
  wsWrite :: bool
  wsChmod :: bool
  wsClose :: bool
  wsRename :: bool

definition stepsOk :: "writeSteps \<Rightarrow> bool" where
  "stepsOk F = (wsMkdir F \<and> wsCreate F \<and> wsWrite F \<and> wsChmod F \<and> wsClose F \<and> wsRename F)"

text \<open>The file at the path changes only by the rename.\<close>

definition writeFileAtomic :: "writeSteps \<Rightarrow> string \<Rightarrow> settings_file \<Rightarrow> unit res \<times> settings_file" where
  "writeFileAtomic F data old =
     (if \<not> wsMkdir F then (Inl ''mkdir'', old)
      else if \<not> wsCreate F then (Inl ''create'', old)
      else if \<not> wsWrite F then (Inl ''write'', old)
      else if \<not> wsChmod F then (Inl ''chmod'', old)
      else if \<not> wsClose F then (Inl ''close'', old)
      else if \<not> wsRename F then (Inl ''rename'', old)
      else (Inr (), Content data))"

definition settingsText :: "'u cliEnv \<Rightarrow> obj \<Rightarrow> string" where
  "settingsText E m = marshalIndent E (AObj m) @ nl"

text \<open>\<open>mergeHookBlock\<close>: \<open>None\<close> is a panic. A file that holds \<open>null\<close> decodes to a nil map, and assigning to a
  nil map panics.\<close>

definition mergeHookBlock :: "'u cliEnv \<Rightarrow> writeSteps \<Rightarrow> settings_file \<Rightarrow> unit res option \<times> settings_file" where
  "mergeHookBlock E F f =
     (let put = (\<lambda>m. case writeFileAtomic F (settingsText E (mergeSettings m)) f of (r, f') \<Rightarrow> (Some r, f')) in
      case f of
        NoFile \<Rightarrow> put []
      | ReadError \<Rightarrow> (Some (Inl ''read''), f)
      | Content b \<Rightarrow>
          (case ceUnmarshal E b of
             Some (AObj m) \<Rightarrow> put m
           | Some ANil \<Rightarrow> (None, f)
           | _ \<Rightarrow> (Some (Inl ''parse''), f)))"

subsection \<open>The hook forwarder\<close>

definition hookEndpoint :: "'u cliEnv \<Rightarrow> string \<Rightarrow> string \<times> string" where
  "hookEndpoint E cfgPath =
     (case loadConfig E cfgPath of
        Inl _ \<Rightarrow> (''http://127.0.0.1:7788/plugins/claude/hook'', [])
      | Inr c \<Rightarrow>
          (''http://'' @ (if Listen c \<noteq> [] then Listen c else ''127.0.0.1:7788'') @ ''/plugins/claude/hook'',
           case firstToken (Tokens c) of None \<Rightarrow> [] | Some t \<Rightarrow> t))"

definition forwardPayload :: "'u cliEnv \<Rightarrow> string \<Rightarrow> string \<Rightarrow> int \<Rightarrow> obj" where
  "forwardPayload E stdin pane ppid =
     (let p0 = (case ceUnmarshal E (take (1024 * 1024) stdin) of Some (AObj m) \<Rightarrow> m | _ \<Rightarrow> []);
          p1 = (if pane \<noteq> [] then tblUpsert fst (''tmux_pane'', AStr pane) p0 else p0)
      in tblUpsert fst (''pid'', AInt ppid) p1)"

text \<open>The request the forwarder sends; its outcome is ignored and the command exits 0.\<close>

definition forwardClaudeHook :: "'u cliEnv \<Rightarrow> string \<Rightarrow> string \<Rightarrow> string \<Rightarrow> int \<Rightarrow> request" where
  "forwardClaudeHook E cfgPath stdin pane ppid =
     (case hookEndpoint E cfgPath of (url, token) \<Rightarrow>
        \<lparr>reqMethod = ''POST'', reqURL = url,
         reqHeaders = (''Content-Type'', ''application/json'') # (if token \<noteq> [] then [(''Authorization'', ''Bearer '' @ token)] else []),
         reqBody = ceMarshal E (AObj (forwardPayload E stdin pane ppid))\<rparr>)"

subsection \<open>Status\<close>

text \<open>\<open>rows\<close> decodes the body of the health endpoint.\<close>

definition probeHealth :: "'u cliEnv \<Rightarrow> (string \<Rightarrow> 'r option) \<Rightarrow> string \<Rightarrow> 'u \<Rightarrow> 'r res \<times> 'u" where
  "probeHealth E rows listen u =
     (case ceDo E \<lparr>reqMethod = ''GET'', reqURL = ''http://'' @ listen @ ''/health'', reqHeaders = [], reqBody = []\<rparr> u of
        (None, u1) \<Rightarrow> (Inl ''get'', u1)
      | (Some r, u1) \<Rightarrow>
          if respStatus r \<noteq> 200 then (Inl ''health status'', u1)
          else (case rows (respBody r) of None \<Rightarrow> (Inl ''decode'', u1) | Some x \<Rightarrow> (Inr x, u1)))"

text \<open>The exit code of \<open>status\<close>; the rows it prints come from a second probe.\<close>

definition statusCode :: "'u cliEnv \<Rightarrow> (string \<Rightarrow> 'r option) \<Rightarrow> string \<Rightarrow> 'u \<Rightarrow> int \<times> 'u" where
  "statusCode E rows cfgPath u =
     (let listen = (case loadConfig E cfgPath of Inr c \<Rightarrow> Listen c | Inl _ \<Rightarrow> defaultListen) in
      case probeHealth E rows listen u of
        (Inl _, u1) \<Rightarrow> (3, u1)
      | (Inr _, u1) \<Rightarrow> (0, snd (probeHealth E rows listen u1)))"

subsection \<open>Serve\<close>

text \<open>How \<open>serve\<close> ends: the listener returns, with or without an error, or a signal arrives and the server shuts down,
  with or without an error. The wait for the supervisor, bounded by five seconds, and the logs are not modelled.\<close>

datatype listenErr = ServerClosed | AddrInUse | ListenOther string

datatype serveEnd = Listened "listenErr option" | Signalled "string option"

definition runServe :: "'u cliEnv \<Rightarrow> string \<Rightarrow> (Config \<Rightarrow> serveEnd) \<Rightarrow> unit res" where
  "runServe E cfgPath serve =
     (case loadConfig E cfgPath of
        Inl e \<Rightarrow> Inl e
      | Inr c \<Rightarrow>
          (case serve c of
             Listened None \<Rightarrow> Inr ()
           | Listened (Some ServerClosed) \<Rightarrow> Inr ()
           | Listened (Some AddrInUse) \<Rightarrow> Inl (''address '' @ Listen c @ '' already in use'')
           | Listened (Some (ListenOther e)) \<Rightarrow> Inl e
           | Signalled None \<Rightarrow> Inr ()
           | Signalled (Some e) \<Rightarrow> Inl e))"

subsection \<open>Lemmas on the hook installer\<close>

lemma map_of_upsert [simp]: "map_of (tblUpsert fst (k, v) m) = (map_of m)(k \<mapsto> v)"
proof -
  have "map_of (map (\<lambda>x. if fst x = k then (k, v) else x) m) = (\<lambda>a. if a = k \<and> k \<in> fst ` set m then Some v else map_of m a)"
    by (induction m) (auto simp: fun_eq_iff)
  moreover have "k \<notin> fst ` set m \<Longrightarrow> map_of m k = None" by (simp add: map_of_eq_None_iff)
  ultimately show ?thesis by (auto simp: tblUpsert_def tblMerge_def tblHas_def fun_eq_iff map_add_def split: option.split)
qed

lemma at_upsert [simp]: "at (tblUpsert fst (k, v) m) a = (if a = k then v else at m a)"
  by (simp add: at_def)

lemma tblUpsert_same: "map_of m k = Some v \<Longrightarrow> tblInv fst m \<Longrightarrow> tblUpsert fst (k, v) m = m"
proof -
  assume m: "map_of m k = Some v" "tblInv fst m"
  then have "x \<in> set m \<Longrightarrow> fst x = k \<Longrightarrow> x = (k, v)" for x
    by (cases x) (auto simp: tblInv_def)
  moreover have "tblHas fst k m" using m(1) by (force simp: tblHas_def dest: map_of_SomeD)
  moreover have "map (\<lambda>x. if fst x = k then (k, v) else x) m = m" using calculation(1) by (intro map_idI) auto
  ultimately show ?thesis by (simp add: tblUpsert_def tblMerge_def)
qed

definition eventArr :: "obj \<Rightarrow> string \<Rightarrow> any list" where
  "eventArr hooks ev = (case asArr (at hooks ev) of None \<Rightarrow> [] | Some xs \<Rightarrow> xs)"

definition wiredArr :: "any list \<Rightarrow> any list" where
  "wiredArr arr = (if containsHookCommand arr claudeHookCommand then arr else arr @ [hookEntry])"

lemma mergeEvent_wired: "mergeEvent ev hooks = tblUpsert fst (ev, AArr (wiredArr (eventArr hooks ev))) hooks"
  by (simp add: mergeEvent_def wiredArr_def eventArr_def Let_def)

lemma entryHas_hookEntry: "entryHas claudeHookCommand hookEntry"
  by (simp add: entryHas_def hookEntry_def at_def Let_def)

lemma wiredArr_contains: "containsHookCommand (wiredArr arr) claudeHookCommand"
  by (simp add: wiredArr_def containsHookCommand_def entryHas_hookEntry)

lemma wiredArr_idem [simp]: "wiredArr (wiredArr arr) = wiredArr arr"
  using wiredArr_contains [of arr] by (simp add: wiredArr_def [of "wiredArr arr"])

lemma wiredArr_prefix: "wiredArr arr = arr \<or> wiredArr arr = arr @ [hookEntry]"
  by (simp add: wiredArr_def)

lemma at_mergeEvent:
  "at (mergeEvent ev hooks) k = (if k = ev then AArr (wiredArr (eventArr hooks ev)) else at hooks k)"
  by (simp add: mergeEvent_wired)

lemma at_mergeEvents:
  "distinct evs \<Longrightarrow> at (fold mergeEvent evs hooks) k =
     (if k \<in> set evs then AArr (wiredArr (eventArr hooks k)) else at hooks k)"
  by (induction evs arbitrary: hooks) (auto simp: at_mergeEvent eventArr_def)

lemma inv_mergeEvents: "tblInv fst hooks \<Longrightarrow> tblInv fst (fold mergeEvent evs hooks)"
  by (induction evs arbitrary: hooks) (auto simp: mergeEvent_wired)

lemma mergeEvents_id:
  "tblInv fst hooks \<Longrightarrow> (\<And>ev. ev \<in> set evs \<Longrightarrow> \<exists>arr. at hooks ev = AArr (wiredArr arr)) \<Longrightarrow> fold mergeEvent evs hooks = hooks"
proof (induction evs)
  case (Cons ev evs)
  then obtain arr where arr: "at hooks ev = AArr (wiredArr arr)" by force
  then have "map_of hooks ev = Some (AArr (wiredArr arr))" by (auto simp: at_def split: option.splits)
  with Cons.prems(1) arr have "mergeEvent ev hooks = hooks"
    by (simp add: mergeEvent_wired eventArr_def tblUpsert_same)
  with Cons show ?case by simp
qed simp

lemma claudeHookEvents_distinct: "distinct claudeHookEvents"
  by code_simp

definition hooksOf :: "obj \<Rightarrow> obj" where
  "hooksOf m = (case asObj (at m ''hooks'') of None \<Rightarrow> [] | Some h \<Rightarrow> h)"

lemma mergeSettings_hooks: "at (mergeSettings m) ''hooks'' = AObj (fold mergeEvent claudeHookEvents (hooksOf m))"
  by (simp add: mergeSettings_def hooksOf_def Let_def)

lemma hooksOf_merge: "hooksOf (mergeSettings m) = fold mergeEvent claudeHookEvents (hooksOf m)"
  by (simp add: hooksOf_def [of "mergeSettings m"] mergeSettings_hooks)

lemma mergeSettings_idem:
  assumes "tblInv fst m" "tblInv fst (hooksOf m)"
  shows "mergeSettings (mergeSettings m) = mergeSettings m"
proof -
  let ?h = "fold mergeEvent claudeHookEvents (hooksOf m)"
  have "fold mergeEvent claudeHookEvents ?h = ?h"
    using assms(2) by (intro mergeEvents_id inv_mergeEvents) (auto simp: at_mergeEvents claudeHookEvents_distinct)
  then have "mergeSettings (mergeSettings m) = tblUpsert fst (''hooks'', AObj ?h) (mergeSettings m)"
    by (simp add: mergeSettings_def [of "mergeSettings m"] hooksOf_def [symmetric] hooksOf_merge Let_def)
  also have "\<dots> = mergeSettings m"
    using assms(1) by (intro tblUpsert_same) (simp_all add: mergeSettings_def hooksOf_def Let_def)
  finally show ?thesis .
qed

lemma writeFileAtomic_snd: "snd (writeFileAtomic F d old) = (if stepsOk F then Content d else old)"
  by (simp add: writeFileAtomic_def stepsOk_def)

lemma writeFileAtomic_ok: "stepsOk F \<Longrightarrow> writeFileAtomic F d old = (Inr (), Content d)"
  by (simp add: writeFileAtomic_def stepsOk_def)


text \<open>Settings that hold the user's own \<open>Stop\<close> hook and another key.\<close>

definition demoSettings :: obj where
  "demoSettings = [(''model'', AStr ''opus''), (''hooks'', AObj [(''Stop'', AArr [AStr ''mine''])])]"

definition demoCli :: "(string \<Rightarrow> any option) \<Rightarrow> unit cliEnv" where
  "demoCli dec = \<lparr>ceToml = (\<lambda>_. None), ceHome = None, ceRead = (\<lambda>_. None), ceXdg = [],
     ceMarshal = (\<lambda>v. case v of AStr s \<Rightarrow> s | AObj m \<Rightarrow> if m = demoSettings then ''s'' else ''t'' | _ \<Rightarrow> ''x''),
     ceUnmarshal = dec, ceEnvelope = (\<lambda>_. None), ceIndent = Some, ceURLHost = (\<lambda>_. None), ceDo = (\<lambda>_ u. (None, u))\<rparr>"

definition demoDecode :: "string \<Rightarrow> any option" where
  "demoDecode s = (if s = ''s'' then Some (AObj demoSettings) else if s = ''t'' @ nl then Some (AObj (mergeSettings demoSettings)) else None)"


text \<open>A file that holds \<open>null\<close> makes the installer panic.\<close>

lemma null_settings_panic: "ceUnmarshal E b = Some ANil \<Longrightarrow> mergeHookBlock E F (Content b) = (None, Content b)"
  by (simp add: mergeHookBlock_def)

subsection \<open>Lemmas on subscribe\<close>

lemma parseVars_inv: "parseVars E kvs = Inr m \<Longrightarrow> distinct (map fst m)"
  by (induction kvs arbitrary: m) (auto simp: tblHas_def split: if_splits prod.splits sum.splits)

text \<open>The outcome of one attempt: with \<open>once\<close> one line and success or nothing, without it never success.\<close>

definition attemptOk :: "bool \<Rightarrow> unit res \<times> string list \<Rightarrow> bool" where
  "attemptOk once ro = (case ro of (r, out) \<Rightarrow>
     if once then (case r of Inr _ \<Rightarrow> length out = 1 | Inl _ \<Rightarrow> out = []) else (case r of Inr _ \<Rightarrow> False | Inl _ \<Rightarrow> True))"

lemma subLoop_ok: "attemptOk once (subLoop E field once fs)"
proof (induction fs)
  case (Cons x fs)
  then show ?case by (cases x; cases once) (auto simp: attemptOk_def split: prod.splits sum.splits)
qed (simp add: attemptOk_def)

lemma attemptOk_quiet: "attemptOk once (Inl e, [])"
  by (simp add: attemptOk_def)

lemma subscribeOnce_ok:
  assumes "subscribeOnce E wsURL auth field query variables once c = (r, out, d)"
  shows "attemptOk once (r, out)"
proof -
  let ?x = "subscribeOnce E wsURL auth field query variables once c"
  have "attemptOk once (fst ?x, fst (snd ?x))"
    by (simp add: subscribeOnce_def Let_def attemptOk_quiet subLoop_ok case_prod_unfold split: option.split sum.split)
  with assms show ?thesis by simp
qed

lemma subscribeOnce_trace:
  "subscribeOnce E wsURL auth field query variables once c = (r, out, d) \<Longrightarrow>
     dtURL d = wsURL \<and> dtAuth d = auth \<and> dtSent d \<in> {[], [initFrame], [initFrame, subFrame query variables]}"
  by (auto simp: subscribeOnce_def Let_def split: option.splits if_splits sum.splits prod.splits)

lemma attempts_trace: "attempts attempt dn k i = (code, out, ds) \<Longrightarrow> d \<in> set ds \<Longrightarrow> \<exists>j r os. attempt j = (r, os, d)"
proof (induction k arbitrary: i code out ds)
  case (Suc k)
  obtain r os d0 where a: "attempt i = (r, os, d0)" by (metis prod_cases3)
  obtain c' o' ds' where n: "attempts attempt dn k (Suc i) = (c', o', ds')" by (metis prod_cases3)
  from Suc.prems have "d = d0 \<or> d \<in> set ds'" by (auto simp: a n split: sum.splits if_splits)
  with a Suc.IH [OF n] show ?case by blast
qed simp

lemma attempts_shape:
  assumes "\<And>j r os d. attempt j = (r, os, d) \<Longrightarrow> attemptOk once (r, os)" and "attempts attempt dn k i = (code, out, ds)"
  shows "length ds \<le> k \<and> code \<in> {0, 2} \<and> (if once then out = [] \<and> code = 2 \<or> length out = 1 \<and> code = 0 else code = 2)"
  using assms(2)
proof (induction k arbitrary: i code out ds)
  case (Suc k)
  obtain r os d0 where a: "attempt i = (r, os, d0)" by (metis prod_cases3)
  obtain c' o' ds' where n: "attempts attempt dn k (Suc i) = (c', o', ds')" by (metis prod_cases3)
  from assms(1) [OF a] Suc.IH [OF n] Suc.prems show ?case
    by (cases r) (auto simp: a n attemptOk_def split: if_splits)
qed auto

lemma firstToken_mem: "firstToken ts = Some t \<Longrightarrow> t \<in> snd ` set ts"
  by (force simp: firstToken_def split: list.splits dest: map_of_SomeD)

lemma subscribeAuthHeader_token:
  "subscribeAuthHeader E wsURL cfgPath = [] \<or> (\<exists>c t. loadConfig E cfgPath = Inr c \<and> t \<in> snd ` set (Tokens c)
     \<and> subscribeAuthHeader E wsURL cfgPath = ''Bearer '' @ t
     \<and> \<not> ListenIsLoopback (case ceURLHost E wsURL of Some h \<Rightarrow> if h \<noteq> [] then h else wsURL | None \<Rightarrow> wsURL))"
proof -
  let ?h = "case ceURLHost E wsURL of Some h \<Rightarrow> if h \<noteq> [] then h else wsURL | None \<Rightarrow> wsURL"
  show ?thesis
  proof (cases "ListenIsLoopback ?h \<or> (\<exists>e. loadConfig E cfgPath = Inl e)")
    case True
    then show ?thesis by (auto simp: subscribeAuthHeader_def Let_def)
  next
    case False
    then obtain c where c: "loadConfig E cfgPath = Inr c" by (cases "loadConfig E cfgPath") auto
    show ?thesis
    proof (cases "firstToken (Tokens c)")
      case None
      with c show ?thesis by (simp add: subscribeAuthHeader_def Let_def)
    next
      case (Some t)
      with c False show ?thesis
        by (intro disjI2 exI [of _ c] exI [of _ t] conjI firstToken_mem) (simp_all add: subscribeAuthHeader_def Let_def)
    qed
  qed
qed

lemma buildSubscription_SomeD:
  assumes "buildSubscription field vars = Inr (query, variables)" "distinct (map fst vars)"
  shows "\<exists>allowed. map_of subscriptionFields field = Some allowed \<and> sorted (map fst variables) \<and> distinct (map fst variables)
    \<and> set (map fst variables) = set (map fst vars) \<and> set (map fst variables) \<subseteq> set allowed
    \<and> query = subscriptionText field (map fst variables) \<and> map_of variables = map_of vars"
proof -
  let ?ks = "sort (map fst vars)"
  obtain allowed where a: "map_of subscriptionFields field = Some allowed" "\<not> list_ex (\<lambda>(k, v). k \<notin> set allowed) vars"
    "query = subscriptionText field ?ks" "variables = map (\<lambda>k. (k, at vars k)) ?ks"
    using assms(1) by (auto simp: buildSubscription_def Let_def split: option.splits if_splits)
  have ks: "map fst variables = ?ks" by (simp add: a(4) comp_def)
  have "map_of variables k = map_of vars k" for k
  proof (cases "k \<in> set (map fst vars)")
    case True
    then have "map_of variables k = Some (at vars k)" by (simp add: a(4) map_of_map_restrict)
    with True show ?thesis by (auto simp: at_def map_of_eq_None_iff split: option.splits)
  next
    case False
    then show ?thesis using ks by (metis map_of_eq_None_iff list.set_map set_sort)
  qed
  with a ks assms(2) show ?thesis by (intro exI [of _ allowed]) (auto simp: list_ex_iff)
qed

lemma runSubscribe_cases:
  obtains (usage) "runSubscribe E opts dial dn = (1, [], [])"
      "(case parseVars E (soVarArgs opts) of Inl _ \<Rightarrow> True | Inr vars \<Rightarrow> (case buildSubscription (soField opts) vars of Inl _ \<Rightarrow> True | Inr _ \<Rightarrow> False))"
  | (run) vars query variables wsURL auth where "parseVars E (soVarArgs opts) = Inr vars" "buildSubscription (soField opts) vars = Inr (query, variables)"
      "wsURL = wsEndpoint (resolveEndpoint E (soEndpoint opts) (soConfigPath opts))" "auth = subscribeAuthHeader E wsURL (soConfigPath opts)"
      "runSubscribe E opts dial dn =
         attempts (\<lambda>i. subscribeOnce E wsURL auth (soField opts) query variables (soOnce opts) (dial wsURL auth i)) dn (nat (maxAttempts opts)) 0"
proof (cases "parseVars E (soVarArgs opts)")
  case (Inl e)
  with usage show ?thesis by (simp add: runSubscribe_def)
next
  case (Inr vars)
  then show ?thesis
  proof (cases "buildSubscription (soField opts) vars")
    case (Inl e)
    with Inr usage show ?thesis by (simp add: runSubscribe_def)
  next
    case i: (Inr x)
    obtain q v where "x = (q, v)" by (cases x)
    with Inr i run [of vars q v] show ?thesis by (simp add: runSubscribe_def Let_def)
  qed
qed

text \<open>C31. The exit codes of \<open>subscribe\<close>: 1 exactly for a bad variable or a field or argument outside the allowlist, and then nothing is
  dialled or printed; otherwise 0 or 2, after at most \<open>maxRetries + 1\<close> dials. With \<open>--once\<close> it exits 0 exactly when one event was
  printed, and prints nothing otherwise; without it it never exits 0.\<close>

theorem subscribe_exit_codes:
  "let (code, out, ds) = runSubscribe E opts dial dn;
       bad = (case parseVars E (soVarArgs opts) of Inl _ \<Rightarrow> True
              | Inr vars \<Rightarrow> (case buildSubscription (soField opts) vars of Inl _ \<Rightarrow> True | Inr _ \<Rightarrow> False)) in
     code = (if bad then 1 else if soOnce opts \<and> length out = 1 then 0 else 2)
     \<and> (if bad then out = [] \<and> ds = [] else int (length ds) \<le> max 0 (maxAttempts opts))
     \<and> (if soOnce opts then length out \<le> 1 else True)"
proof (cases rule: runSubscribe_cases [of E opts dial dn])
  case usage
  then show ?thesis by (simp add: Let_def)
next
  case (run vars query variables wsURL auth)
  let ?at = "\<lambda>i. subscribeOnce E wsURL auth (soField opts) query variables (soOnce opts) (dial wsURL auth i)"
  obtain code out ds where r: "attempts ?at dn (nat (maxAttempts opts)) 0 = (code, out, ds)" by (metis prod_cases3)
  have "length ds \<le> nat (maxAttempts opts) \<and> code \<in> {0, 2}
      \<and> (if soOnce opts then out = [] \<and> code = 2 \<or> length out = 1 \<and> code = 0 else code = 2)"
    using r by (intro attempts_shape [of ?at]) (auto intro: subscribeOnce_ok)
  then show ?thesis using run(1,2) unfolding run(5) r by (auto simp: Let_def)
qed

text \<open>C30. Whatever \<open>subscribe\<close> puts on the wire is the handshake followed by one of the fixed subscription documents of the allowlisted
  field, over a sorted choice of its own arguments; the values the caller passed travel as variables only. The bearer token is sent only to
  an address that is not loopback, and is a configured one.\<close>

theorem subscribe_request_confined:
  assumes "runSubscribe E opts dial dn = (code, out, ds)" and "d \<in> set ds"
  shows "\<exists>vars allowed variables. parseVars E (soVarArgs opts) = Inr vars \<and> map_of subscriptionFields (soField opts) = Some allowed
    \<and> dtURL d = wsEndpoint (resolveEndpoint E (soEndpoint opts) (soConfigPath opts))
    \<and> dtSent d \<in> {[], [initFrame], [initFrame, subFrame (subscriptionText (soField opts) (map fst variables)) variables]}
    \<and> sorted (map fst variables) \<and> distinct (map fst variables) \<and> set (map fst variables) \<subseteq> set allowed \<and> map_of variables = map_of vars
    \<and> (dtAuth d = [] \<or> (\<exists>c t. loadConfig E (soConfigPath opts) = Inr c \<and> t \<in> snd ` set (Tokens c) \<and> dtAuth d = ''Bearer '' @ t
         \<and> \<not> ListenIsLoopback (case ceURLHost E (dtURL d) of Some h \<Rightarrow> if h \<noteq> [] then h else dtURL d | None \<Rightarrow> dtURL d)))"
proof (cases rule: runSubscribe_cases [of E opts dial dn])
  case usage
  with assms show ?thesis by simp
next
  case (run vars query variables wsURL auth)
  let ?at = "\<lambda>i. subscribeOnce E wsURL auth (soField opts) query variables (soOnce opts) (dial wsURL auth i)"
  from assms run(5) obtain j r os where "?at j = (r, os, d)" using attempts_trace by metis
  from subscribeOnce_trace [OF this] have d: "dtURL d = wsURL" "dtAuth d = auth"
    "dtSent d \<in> {[], [initFrame], [initFrame, subFrame query variables]}" by simp_all
  obtain allowed where b: "map_of subscriptionFields (soField opts) = Some allowed" "sorted (map fst variables)" "distinct (map fst variables)"
    "set (map fst variables) \<subseteq> set allowed" "query = subscriptionText (soField opts) (map fst variables)" "map_of variables = map_of vars"
    using buildSubscription_SomeD [OF run(2) parseVars_inv [OF run(1)]] by blast
  have url: "dtURL d = wsEndpoint (resolveEndpoint E (soEndpoint opts) (soConfigPath opts))" by (simp only: d run(3))
  have auth: "dtAuth d = subscribeAuthHeader E (dtURL d) (soConfigPath opts)" by (simp only: d run(4))
  have "dtAuth d = [] \<or> (\<exists>c t. loadConfig E (soConfigPath opts) = Inr c \<and> t \<in> snd ` set (Tokens c) \<and> dtAuth d = ''Bearer '' @ t
         \<and> \<not> ListenIsLoopback (case ceURLHost E (dtURL d) of Some h \<Rightarrow> if h \<noteq> [] then h else dtURL d | None \<Rightarrow> dtURL d))"
    unfolding auth by (rule subscribeAuthHeader_token)
  then show ?thesis using run(1) url b d(3) by (intro exI [of _ vars] exI [of _ allowed] exI [of _ variables] conjI) simp_all
qed

text \<open>A connection that delivers: both writes succeed, the acknowledgement comes before any error and a \<open>next\<close> frame before any
  error or completion.\<close>

fun nextComes :: "obj option list \<Rightarrow> bool" where
  "nextComes (Some m # fs) = (at m ''type'' = AStr ''next''
     \<or> at m ''type'' \<noteq> AStr ''error'' \<and> at m ''type'' \<noteq> AStr ''complete'' \<and> nextComes fs)"
| "nextComes _ = False"

definition delivers :: "conn option \<Rightarrow> bool" where
  "delivers c = (case c of None \<Rightarrow> False
     | Some co \<Rightarrow> coInit co \<and> coSub co \<and> (case waitForAck (coFrames co) of Inl _ \<Rightarrow> False | Inr fs \<Rightarrow> nextComes fs))"

lemma subLoop_next: "nextComes fs \<Longrightarrow> fst (subLoop E field True fs) = Inr ()"
  by (induction fs rule: nextComes.induct) auto

lemma delivers_ok: "delivers c \<Longrightarrow> \<exists>out d. subscribeOnce E wsURL auth field query variables True c = (Inr (), out, d)"
  by (auto simp: delivers_def subscribeOnce_def Let_def case_prod_unfold subLoop_next split: option.splits sum.splits)

lemma attempts_reach:
  assumes "\<And>j. \<not> dn j" "fst (attempt (i + n)) = Inr ()" "n < k" "attempts attempt dn k i = (code, out, ds)"
  shows "code = 0 \<and> length ds \<le> Suc n"
  using assms(2-)
proof (induction k arbitrary: i n code out ds)
  case (Suc k)
  obtain r os d0 where a: "attempt i = (r, os, d0)" by (metis prod_cases3)
  obtain c' o' ds' where n: "attempts attempt dn k (Suc i) = (c', o', ds')" by (metis prod_cases3)
  show ?case
  proof (cases r)
    case (Inr u)
    with Suc.prems show ?thesis by (auto simp: a)
  next
    case (Inl e)
    with Suc.prems(1) a obtain n' where n': "n = Suc n'" by (cases n) auto
    with Suc.prems Suc.IH [of "Suc i" n' c' o' ds'] n have "c' = 0 \<and> length ds' \<le> Suc n'" by simp
    moreover have "attempts attempt dn (Suc k) i = (c', os @ o', d0 # ds')"
      using Inl a n n' Suc.prems(2) assms(1) [of i] by simp
    ultimately show ?thesis using Suc.prems(3) n' by (auto simp del: attempts.simps)
  qed
qed simp

text \<open>C32. \<open>subscribe --once\<close> rides out drops: while its context lives, if any of the first \<open>maxRetries + 1\<close> connections delivers an event, it
  prints one line and exits 0, having dialled no further than that connection.\<close>

theorem subscribe_rides_out_drops:
  fixes E :: "'u cliEnv"
  assumes "parseVars E (soVarArgs opts) = Inr vars" and "buildSubscription (soField opts) vars = Inr qv"
    and "soOnce opts" and "\<And>j. \<not> dn j" and "int n < maxAttempts opts" and "\<And>url auth. delivers (dial url auth n)"
  shows "\<exists>line ds. runSubscribe E opts dial dn = (0, [line], ds) \<and> length ds \<le> Suc n"
proof (cases rule: runSubscribe_cases [of E opts dial dn])
  case usage
  with assms(1,2) show ?thesis by simp
next
  case (run vs query variables wsURL auth)
  let ?at = "\<lambda>i. subscribeOnce E wsURL auth (soField opts) query variables (soOnce opts) (dial wsURL auth i)"
  obtain code out ds where r: "attempts ?at dn (nat (maxAttempts opts)) 0 = (code, out, ds)" by (metis prod_cases3)
  have "\<exists>o' d. ?at n = (Inr (), o', d)" using assms(3,6) by (simp add: delivers_ok)
  then have "fst (?at (0 + n)) = Inr ()" by auto
  then have c: "code = 0" "length ds \<le> Suc n" using attempts_reach [OF assms(4) _ _ r, of n] assms(5) by simp_all
  have "if soOnce opts then out = [] \<and> code = 2 \<or> length out = 1 \<and> code = 0 else code = 2"
    using attempts_shape [of ?at "soOnce opts", OF _ r] subscribeOnce_ok by blast
  with c assms(3) have "length out = 1" by simp
  then obtain line where "out = [line]" by (cases out) auto
  with c r run(5) show ?thesis by simp
qed

definition demoOpts :: subscribeOptions where
  "demoOpts = \<lparr>soField = ''issueUpdated'', soVarArgs = [''repo=r''], soOnce = True, soEndpoint = ''http://10.0.0.2:7788/graphql'',
     soConfigPath = ''c'', soMaxRetries = 0\<rparr>"

definition demoDial :: "string \<Rightarrow> string \<Rightarrow> nat \<Rightarrow> conn option" where
  "demoDial url auth i =
     (if i < 2 then None
      else Some \<lparr>coInit = True, coSub = True, coFrames = [Some [(''type'', AStr ''connection_ack'')], Some [(''type'', AStr ''next'')]]\<rparr>)"

lemma demo_vars: "parseVars (demoCli (\<lambda>_. None)) (soVarArgs demoOpts) = Inr [(''repo'', AStr ''r'')]"
  "buildSubscription (soField demoOpts) [(''repo'', AStr ''r'')] =
     Inr (subscriptionText ''issueUpdated'' [''repo''], [(''repo'', AStr ''r'')])"
  by code_simp+

theorem subscribe_rides_out_drops_witness:
  "\<exists>line ds. runSubscribe (demoCli (\<lambda>_. None)) demoOpts demoDial (\<lambda>_. False) = (0, [line], ds) \<and> length ds \<le> 3"
proof -
  have "soOnce demoOpts" "maxAttempts demoOpts = 4" by code_simp+
  moreover have "delivers (demoDial url auth 2)" for url auth
    by (simp add: demoDial_def delivers_def at_def Let_def)
  ultimately show ?thesis
    using subscribe_rides_out_drops [OF demo_vars, of "\<lambda>_. False" 2 demoDial] by (simp add: eval_nat_numeral)
qed

theorem subscribe_request_confined_witness:
  "\<exists>code out d ds. runSubscribe (demoCli (\<lambda>_. None)) demoOpts demoDial (\<lambda>_. False) = (code, out, ds) \<and> d \<in> set ds
     \<and> dtURL d = ''ws://10.0.0.2:7788/graphql'' \<and> dtAuth d = []
     \<and> dtSent d = [initFrame, subFrame (subscriptionText ''issueUpdated'' [''repo'']) [(''repo'', AStr ''r'')]]"
proof -
  obtain code out ds where r: "runSubscribe (demoCli (\<lambda>_. None)) demoOpts demoDial (\<lambda>_. False) = (code, out, ds)" by (metis prod_cases3)
  have "list_ex (\<lambda>d. dtSent d = [initFrame, subFrame (subscriptionText ''issueUpdated'' [''repo'']) [(''repo'', AStr ''r'')]])
      (snd (snd (runSubscribe (demoCli (\<lambda>_. None)) demoOpts demoDial (\<lambda>_. False))))" by code_simp
  then obtain d where d: "d \<in> set ds" "dtSent d = [initFrame, subFrame (subscriptionText ''issueUpdated'' [''repo'']) [(''repo'', AStr ''r'')]]"
    by (auto simp: r list_ex_iff)
  have u: "wsEndpoint (resolveEndpoint (demoCli (\<lambda>_. None)) (soEndpoint demoOpts) (soConfigPath demoOpts)) = ''ws://10.0.0.2:7788/graphql''"
    and l: "loadConfig (demoCli (\<lambda>_. None)) (soConfigPath demoOpts) = Inl ''core: read config''" by code_simp+
  from subscribe_request_confined [OF r d(1)] have "dtURL d = ''ws://10.0.0.2:7788/graphql''" "dtAuth d = []"
    unfolding u l by auto
  with r d show ?thesis by blast
qed

end
