(* ===== verification/Serve.thy ===== *)
theory Serve
  imports Server Cli
begin

text \<open>
  \<open>serve\<close> as it runs: \<open>runServe\<close> (\<open>cmd/supergraph/serve.go\<close>), \<open>Supervisor.Run\<close> and the goroutines of the
  event streams (\<open>EventsChannel\<close>), interleaved. One step relation covers the process: the supervisor
  starts its plugins one by one, while those that run emit; an emit is three steps, because other
  goroutines may run between its append, its stamp and its publish; a client opens a stream, the
  stream takes events from its bus channel and hands them over, the client hangs up; and the process
  ends by an error of the listener or by a signal. \<open>waitSupervisor\<close> gives up after five seconds at the latest: its exit is a step
  that is always enabled and records whether the supervisor was done. The trace of labels, newest first, is what a
  theorem speaks about. The lag streams, which an event of the bus only
  wakes, are in theory \<open>Server\<close>.
\<close>

subsection \<open>The state\<close>

text \<open>A stream: the source it filters by, the event it holds while the client is not ready, what the client got, whether
  its context is done and whether its goroutine returned.\<close>

record strm =
  stSource :: string
  stHeld :: "envelope option"
  stOut :: "envelope list"
  stGone :: bool
  stEnded :: bool

text \<open>Where the goroutine of \<open>Supervisor.Run\<close> is, with the plugins left to start, and where \<open>runServe\<close> is: in its select, in
  \<open>waitSupervisor\<close> with the result it will return, or returned; the flag says that the supervisor was joined in time.\<close>

datatype supSt = SupStart "string list" | SupRun | SupJoin | SupDone

datatype mainSt = MainSelect | MainWait "unit res" | MainExit "unit res" bool

text \<open>\<open>pending\<close> are the emits between their append and their publish: the plugin, the envelope and whether health was stamped.\<close>

record ('w, 'x) process =
  sup :: "('w, 'x) supervisor"
  pending :: "(string \<times> envelope \<times> bool) list"
  streams :: "(int \<times> strm) list"
  ctxDone :: bool
  supAt :: supSt
  mainAt :: mainSt

text \<open>The conversion of \<open>NewHealthAggregator\<close>, with the product exact where Go rounds it to a float.\<close>

definition lagThreshold :: "Config \<Rightarrow> duration" where
  "lagThreshold c = (case LagThresholdSeconds c of (m, k) \<Rightarrow> floatTrunc (m * second) k)"

text \<open>\<open>runServe\<close> up to its goroutines, for a configuration that loaded; \<open>d\<close> are the database files on disk.\<close>

definition serveInit :: "Config \<Rightarrow> (string \<times> ('w, 'x) Factory) list \<Rightarrow> (string \<Rightarrow> 'x core_db_scheme) \<Rightarrow> ('w, 'x) process" where
  "serveInit c facs d =
     \<lparr>sup = NewSupervisor c facs (NewHealthAggregator (lagThreshold c)) NewBus d, pending = [], streams = [], ctxDone = False,
      supAt = SupStart (SortedFactoryNames facs), mainAt = MainSelect\<rparr>"

subsection \<open>The steps\<close>

datatype proc_ev =
    PStart string | PWrite string | PRun | PEnd string start_end | PStop | PJoined
  | PAppend string envelope bool | PStamp string envelope | PPublish string envelope
  | POpen int string | PTake int envelope | PDeliver int envelope | PHangup int | PUnsub int | PLeave int
  | PSignal | PListen "listenErr option" | PShutdown "string option" | PExit bool

definition keeps :: "string \<Rightarrow> envelope \<Rightarrow> bool" where
  "keeps source e \<longleftrightarrow> source = [] \<or> Source e = source"

text \<open>The result of \<open>runServe\<close> when the listener returns.\<close>

definition listenResult :: "Config \<Rightarrow> listenErr option \<Rightarrow> unit res" where
  "listenResult c err =
     (case err of
        None \<Rightarrow> Inr () | Some ServerClosed \<Rightarrow> Inr ()
      | Some AddrInUse \<Rightarrow> Inl (''address '' @ Listen c @ '' already in use'')
      | Some (ListenOther e) \<Rightarrow> Inl e)"

definition onSup :: "(('w, 'x) supervisor \<Rightarrow> ('w, 'x) supervisor) \<Rightarrow> ('w, 'x) process \<Rightarrow> ('w, 'x) process" where
  "onSup f p = p\<lparr>sup := f (sup p)\<rparr>"

definition setBus :: "bus \<Rightarrow> ('w, 'x) process \<Rightarrow> ('w, 'x) process" where
  "setBus b = onSup (\<lambda>sv. sv\<lparr>svBus := b\<rparr>)"

definition setStream :: "int \<Rightarrow> strm \<Rightarrow> ('w, 'x) process \<Rightarrow> ('w, 'x) process" where
  "setStream i s p = p\<lparr>streams := tblUpsert fst (i, s) (streams p)\<rparr>"

text \<open>The append of an emit: a handle that \<open>Stop\<close> closed fails.\<close>

definition appendStep :: "string \<Rightarrow> envelope \<Rightarrow> ('w, 'x) process \<Rightarrow> bool \<times> ('w, 'x) process" where
  "appendStep n e p =
     (if stopped (sup p) then (False, p)
      else case AppendEvent e (disk (sup p) n) of
             (Inl _, d) \<Rightarrow> (False, onSup (\<lambda>sv. sv\<lparr>disk := (disk sv)(n := d)\<rparr>) p)
           | (Inr _, d) \<Rightarrow> (True, (onSup (\<lambda>sv. sv\<lparr>disk := (disk sv)(n := d)\<rparr>) p)\<lparr>pending := pending p @ [(n, e, False)]\<rparr>))"

text \<open>What a plugin's own statements may do to its database: anything to its tables and cursors; the ring and the stamps of the
  migrations are core's.\<close>

definition ownWrite :: "'x core_db_scheme \<Rightarrow> 'x core_db_scheme \<Rightarrow> bool" where
  "ownWrite s t \<longleftrightarrow> events t = events s \<and> lastId t = lastId s \<and> ringCapacity t = ringCapacity s
     \<and> schemaVersions t = schemaVersions s \<and> tblInv fst (cursors t)"

inductive procStep :: "fsys \<Rightarrow> proc_ev \<Rightarrow> ('w, 'x) process \<Rightarrow> ('w, 'x) process \<Rightarrow> bool" for fs :: fsys where
  starts: "supAt p = SupStart (n # ns) \<Longrightarrow> procStep fs (PStart n) p ((onSup (startOne fs n) p)\<lparr>supAt := SupStart ns\<rparr>)"
| runs: "supAt p = SupStart [] \<Longrightarrow> procStep fs PRun p (p\<lparr>supAt := SupRun\<rparr>)"
| ends: "n \<in> set (running (sup p)) \<Longrightarrow> procStep fs (PEnd n r) p (onSup (runPluginEnd n r) p)"
| stops: "supAt p = SupRun \<Longrightarrow> ctxDone p \<Longrightarrow> procStep fs PStop p ((onSup Stop p)\<lparr>supAt := SupJoin\<rparr>)"
| joined: "supAt p = SupJoin \<Longrightarrow> running (sup p) = [] \<Longrightarrow> procStep fs PJoined p (p\<lparr>supAt := SupDone\<rparr>)"
| writes: "tblHas fst n (svPlugins (sup p)) \<Longrightarrow> \<not> stopped (sup p) \<Longrightarrow> ownWrite (disk (sup p) n) t \<Longrightarrow>
    procStep fs (PWrite n) p (onSup (\<lambda>sv. sv\<lparr>disk := (disk sv)(n := t)\<rparr>) p)"
| append: "tblHas fst n (svPlugins (sup p)) \<Longrightarrow> appendStep n e p = (ok, p') \<Longrightarrow> procStep fs (PAppend n e ok) p p'"
| stamp: "pending p = xs @ (n, e, False) # ys \<Longrightarrow>
    procStep fs (PStamp n e) p ((onSup (\<lambda>sv. sv\<lparr>health := Record n (TS e) (health sv)\<rparr>) p)\<lparr>pending := xs @ (n, e, True) # ys\<rparr>)"
| publish: "pending p = xs @ (n, e, True) # ys \<Longrightarrow> publish e (svBus (sup p)) = Some b \<Longrightarrow>
    procStep fs (PPublish n e) p ((setBus b p)\<lparr>pending := xs @ ys\<rparr>)"
| opens: "Subscribe (svBus (sup p)) = (i, b) \<Longrightarrow>
    procStep fs (POpen i src) p
      (setStream i \<lparr>stSource = src, stHeld = None, stOut = [], stGone = False, stEnded = False\<rparr> (setBus b p))"
| take: "tblGet fst i (streams p) = Some (i, s) \<Longrightarrow> \<not> stEnded s \<Longrightarrow> stHeld s = None \<Longrightarrow> receive i (svBus (sup p)) = Some (e, b) \<Longrightarrow>
    procStep fs (PTake i e) p (setStream i (s\<lparr>stHeld := (if keeps (stSource s) e then Some e else None)\<rparr>) (setBus b p))"
| deliver: "tblGet fst i (streams p) = Some (i, s) \<Longrightarrow> \<not> stEnded s \<Longrightarrow> stHeld s = Some e \<Longrightarrow>
    procStep fs (PDeliver i e) p (setStream i (s\<lparr>stHeld := None, stOut := stOut s @ [e]\<rparr>) p)"
| hangup: "tblGet fst i (streams p) = Some (i, s) \<Longrightarrow> procStep fs (PHangup i) p (setStream i (s\<lparr>stGone := True\<rparr>) p)"
| unsub: "tblGet fst i (streams p) = Some (i, s) \<Longrightarrow> stGone s \<Longrightarrow> i \<in> set (watchers (svBus (sup p))) \<Longrightarrow>
    unsubscribe i (svBus (sup p)) = Some b \<Longrightarrow> procStep fs (PUnsub i) p (setBus b p)"
| leave: "tblGet fst i (streams p) = Some (i, s) \<Longrightarrow> stGone s \<Longrightarrow> \<not> stEnded s \<Longrightarrow>
    procStep fs (PLeave i) p (setStream i (s\<lparr>stEnded := True\<rparr>) p)"
| signal: "procStep fs PSignal p (p\<lparr>ctxDone := True\<rparr>)"
| listen: "mainAt p = MainSelect \<Longrightarrow>
    procStep fs (PListen err) p (p\<lparr>ctxDone := True, mainAt := MainWait (listenResult (cfg (sup p)) err)\<rparr>)"
| shutdown: "mainAt p = MainSelect \<Longrightarrow> ctxDone p \<Longrightarrow>
    procStep fs (PShutdown err) p (p\<lparr>mainAt := MainWait (case err of None \<Rightarrow> Inr () | Some x \<Rightarrow> Inl x)\<rparr>)"
| exits: "mainAt p = MainWait r \<Longrightarrow> procStep fs (PExit (supAt p = SupDone)) p (p\<lparr>mainAt := MainExit r (supAt p = SupDone)\<rparr>)"

text \<open>The states the process reaches; it takes no step once \<open>runServe\<close> returned.\<close>

definition alive :: "('w, 'x) process \<Rightarrow> bool" where
  "alive p = (case mainAt p of MainExit _ _ \<Rightarrow> False | _ \<Rightarrow> True)"

inductive procReach :: "fsys \<Rightarrow> ('w, 'x) process \<Rightarrow> proc_ev list \<Rightarrow> ('w, 'x) process \<Rightarrow> bool"
  for fs :: fsys and p0 :: "('w, 'x) process" where
  init: "procReach fs p0 [] p0"
| step: "procReach fs p0 tr p \<Longrightarrow> alive p \<Longrightarrow> procStep fs ev p p' \<Longrightarrow> procReach fs p0 (ev # tr) p'"

subsection \<open>What a trace says\<close>

fun busEvs :: "proc_ev list \<Rightarrow> bus_ev list" where
  "busEvs [] = []"
| "busEvs (POpen i s # tr) = EvSubscribe i # busEvs tr"
| "busEvs (PUnsub i # tr) = EvCancel i # busEvs tr"
| "busEvs (PPublish n e # tr) = EvPublish e # busEvs tr"
| "busEvs (PTake i e # tr) = EvReceive i e # busEvs tr"
| "busEvs (_ # tr) = busEvs tr"

fun storedEvs :: "proc_ev list \<Rightarrow> (string \<times> envelope) list" where
  "storedEvs [] = []"
| "storedEvs (PAppend n e True # tr) = storedEvs tr @ [(n, e)]"
| "storedEvs (_ # tr) = storedEvs tr"

fun publishedEvs :: "proc_ev list \<Rightarrow> (string \<times> envelope) list" where
  "publishedEvs [] = []"
| "publishedEvs (PPublish n e # tr) = publishedEvs tr @ [(n, e)]"
| "publishedEvs (_ # tr) = publishedEvs tr"

lemma length_busEvs: "length (busEvs tr) \<le> length tr"
  by (induction tr rule: busEvs.induct) simp_all

lemma offered_published: "set (offered i (busEvs tr)) \<subseteq> snd ` set (publishedEvs tr)"
  by (induction tr rule: busEvs.induct) auto

subsection \<open>Lemmas: the parts of a step\<close>

lemma process_simps [simp]:
  "sup (onSup f p) = f (sup p)" "pending (onSup f p) = pending p" "streams (onSup f p) = streams p"
  "supAt (onSup f p) = supAt p" "mainAt (onSup f p) = mainAt p" "ctxDone (onSup f p) = ctxDone p"
  "sup (setBus b p) = (sup p)\<lparr>svBus := b\<rparr>" "pending (setBus b p) = pending p" "streams (setBus b p) = streams p"
  "supAt (setBus b p) = supAt p" "mainAt (setBus b p) = mainAt p" "ctxDone (setBus b p) = ctxDone p"
  "sup (setStream i s p) = sup p" "pending (setStream i s p) = pending p" "streams (setStream i s p) = tblUpsert fst (i, s) (streams p)"
  "supAt (setStream i s p) = supAt p" "mainAt (setStream i s p) = mainAt p" "ctxDone (setStream i s p) = ctxDone p"
  by (simp_all add: onSup_def setBus_def setStream_def)

lemma runPluginEnd_frame [simp]:
  "svBus (runPluginEnd n r sv) = svBus sv" "disk (runPluginEnd n r sv) = disk sv" "stopped (runPluginEnd n r sv) = stopped sv"
  "cfg (runPluginEnd n r sv) = cfg sv" "running (runPluginEnd n r sv) = remove1 n (running sv)"
  "svPlugins (runPluginEnd n r sv) = svPlugins sv" "ringCap (runPluginEnd n r sv) = ringCap sv" "factories (runPluginEnd n r sv) = factories sv"
  by (auto simp: runPluginEnd_def stopDead_def Let_def split: option.split start_end.split)

lemma appendStep_cases:
  assumes "appendStep n e p = (ok, p')"
  obtains (closed) "ok = False" "p' = p" "stopped (sup p)"
  | (failed) x d where "ok = False" "\<not> stopped (sup p)" "AppendEvent e (disk (sup p) n) = (Inl x, d)"
      "p' = onSup (\<lambda>sv. sv\<lparr>disk := (disk sv)(n := d)\<rparr>) p"
  | (stored) d where "ok = True" "\<not> stopped (sup p)" "AppendEvent e (disk (sup p) n) = (Inr (), d)"
      "p' = (onSup (\<lambda>sv. sv\<lparr>disk := (disk sv)(n := d)\<rparr>) p)\<lparr>pending := pending p @ [(n, e, False)]\<rparr>"
  using assms by (auto simp: appendStep_def split: if_splits prod.splits sum.splits)

lemma appendStep_frame:
  assumes "appendStep n e p = (ok, p')"
  shows "svBus (sup p') = svBus (sup p)" "streams p' = streams p" "supAt p' = supAt p" "mainAt p' = mainAt p" "ctxDone p' = ctxDone p"
    "running (sup p') = running (sup p)" "stopped (sup p') = stopped (sup p)" "cfg (sup p') = cfg (sup p)" "svPlugins (sup p') = svPlugins (sup p)"
    "health (sup p') = health (sup p)" "ringCap (sup p') = ringCap (sup p)" "factories (sup p') = factories (sup p)"
    "pending p' = (if ok then pending p @ [(n, e, False)] else pending p)" "ok \<Longrightarrow> \<not> stopped (sup p)"
  by (rule appendStep_cases [OF assms]; simp)+

subsection \<open>Lemmas: the bus inside the process\<close>

text \<open>The bus of the process is a bus: what the process does is a run of it.\<close>

lemma procStep_bus:
  assumes "procStep fs ev p p'" "busReach (busEvs tr) (svBus (sup p))"
  shows "busReach (busEvs (ev # tr)) (svBus (sup p'))"
  using assms(1)
proof (cases rule: procStep.cases)
  case (publish xs n e ys b)
  then show ?thesis using busReach.publish [OF assms(2)] by simp
next
  case (opens i b src)
  then show ?thesis using busReach.subscribe [OF assms(2)] by simp
next
  case (take i s e b)
  then show ?thesis using busReach.receive [OF assms(2)] by simp
next
  case (unsub i s b)
  then show ?thesis using busReach.cancel [OF assms(2)] by simp
qed (use assms(2) in \<open>auto simp: Stop_def dest: appendStep_frame(1)\<close>)

lemma procReach_bus: "procReach fs p0 tr p \<Longrightarrow> busReach [] (svBus (sup p0)) \<Longrightarrow> busReach (busEvs tr) (svBus (sup p))"
  by (induction rule: procReach.induct) (auto intro: procStep_bus simp del: busEvs.simps(2-) simp: busEvs.simps)

lemma serve_busInv:
  assumes "procReach fs (serveInit c facs d) tr p" "int (length tr) < 2 ^ 63"
  shows "busInv (busEvs tr) (svBus (sup p))"
proof -
  have "busReach [] (svBus (sup (serveInit c facs d)))" by (simp add: serveInit_def NewSupervisor_def busReach.init)
  from busReach_inv [OF procReach_bus [OF assms(1) this]] assms(2) length_busEvs [of tr] show ?thesis by linarith
qed

text \<open>Every stored event is published or on its way.\<close>

lemma procStep_stored:
  assumes "procStep fs ev p p'" "mset (storedEvs tr) = mset (publishedEvs tr) + mset (map (\<lambda>(n, e, _). (n, e)) (pending p))"
  shows "mset (storedEvs (ev # tr)) = mset (publishedEvs (ev # tr)) + mset (map (\<lambda>(n, e, _). (n, e)) (pending p'))"
  using assms(1)
proof (cases rule: procStep.cases)
  case (append n e ok)
  then show ?thesis using assms(2) appendStep_frame(13) [OF append(3)] by (cases ok) simp_all
qed (use assms(2) in \<open>simp_all\<close>)

lemma procReach_stored:
  "procReach fs (serveInit c facs d) tr p \<Longrightarrow>
     mset (storedEvs tr) = mset (publishedEvs tr) + mset (map (\<lambda>(n, e, _). (n, e)) (pending p))"
  by (induction rule: procReach.induct) (simp add: serveInit_def, erule procStep_stored, assumption)

text \<open>What a stream took and its filter kept is what the client got and what it holds.\<close>

definition streamInv :: "proc_ev list \<Rightarrow> ('w, 'x) process \<Rightarrow> bool" where
  "streamInv tr p \<longleftrightarrow> (\<forall>i s. tblGet fst i (streams p) = Some (i, s) \<longrightarrow>
     filter (keeps (stSource s)) (received i (busEvs tr)) = stOut s @ (case stHeld s of None \<Rightarrow> [] | Some e \<Rightarrow> [e]))"

lemma streamInv_same: "streamInv tr p \<Longrightarrow> streams p' = streams p \<Longrightarrow> (\<And>i. received i (busEvs tr') = received i (busEvs tr)) \<Longrightarrow> streamInv tr' p'"
  by (simp add: streamInv_def)

lemma Subscribe_fresh: "busInv tr b \<Longrightarrow> Subscribe b = (i, b') \<Longrightarrow> received i tr = []"
  by (auto simp: busInv_def Subscribe_def Let_def)

lemma procStep_streams:
  assumes "procStep fs ev p p'" "streamInv tr p" "busInv (busEvs tr) (svBus (sup p))"
  shows "streamInv (ev # tr) p'"
  using assms(1)
proof (cases rule: procStep.cases)
  case (append n e ok)
  then show ?thesis using assms(2) appendStep_frame(2) [OF append(3)] by (auto simp: streamInv_def)
next
  case (opens i b src)
  then show ?thesis using assms(2) Subscribe_fresh [OF assms(3) opens(3)] by (auto simp: streamInv_def tbl_simps)
next
  case (take i s e b)
  then show ?thesis using assms(2) by (auto simp: streamInv_def tbl_simps)
next
  case (deliver i s e)
  then show ?thesis using assms(2) by (auto simp: streamInv_def tbl_simps)
next
  case (hangup i s)
  then show ?thesis using assms(2) by (auto simp: streamInv_def tbl_simps)
next
  case (leave i s)
  then show ?thesis using assms(2) by (auto simp: streamInv_def tbl_simps)
qed (use assms(2) in \<open>auto simp: streamInv_def\<close>)

lemma procReach_streams:
  "procReach fs (serveInit c facs d) tr p \<Longrightarrow> int (length tr) < 2 ^ 63 \<Longrightarrow> streamInv tr p"
proof (induction rule: procReach.induct)
  case init
  show ?case by (simp add: streamInv_def serveInit_def)
next
  case (step tr p ev p')
  then have "busInv (busEvs tr) (svBus (sup p))" by (intro serve_busInv) simp_all
  with step show ?case by (intro procStep_streams [OF step(3)]) simp_all
qed

lemma subseq_set: "subseq xs ys \<Longrightarrow> set xs \<subseteq> set ys"
  by (auto elim: list_emb_set)


subsection \<open>Lemmas: the shape of the state\<close>

text \<open>A database file of this program: the ring is ordered by its ids and within its capacity.\<close>

definition dbOk :: "'x core_db_scheme \<Rightarrow> bool" where
  "dbOk s \<longleftrightarrow> coreInv s \<and> int (length (events s)) \<le> defaultRingCapacity"

text \<open>A migration of a plugin keeps that and the capacity of the open store.\<close>

definition facOk :: "(string \<times> ('w, 'x) Factory) list \<Rightarrow> bool" where
  "facOk facs \<longleftrightarrow> tblInv fst facs \<and> (\<forall>(n, f) \<in> set facs. \<forall>c pl. f c = Inr pl \<longrightarrow>
     (\<forall>s. dbOk s \<longrightarrow> dbOk (snd (plMigrate pl s)) \<and> ringCapacity (snd (plMigrate pl s)) = ringCapacity s))"

text \<open>What holds of the supervisor and of the phases of its goroutine and of \<open>runServe\<close>.\<close>

definition svWf :: "('w, 'x) supervisor \<Rightarrow> bool" where
  "svWf sv \<longleftrightarrow> ringCap sv = defaultRingCapacity \<and> (\<forall>n. dbOk (disk sv n)) \<and> tblInv fst (plugins (health sv))
     \<and> tblInv fst (svPlugins sv) \<and> distinct (running sv)
     \<and> (\<forall>n. n \<in> set (running sv) \<longrightarrow> tblHas fst n (svPlugins sv))
     \<and> (\<forall>n. tblHas fst n (svPlugins sv) \<longrightarrow>
          tblHas fst n (factories sv) \<and> tblHas fst n (plugins (health sv)) \<and> ringCapacity (disk sv n) = defaultRingCapacity)"

definition toStart :: "('w, 'x) process \<Rightarrow> string list" where
  "toStart p = (case supAt p of SupStart ns \<Rightarrow> ns | _ \<Rightarrow> [])"

definition procWf :: "('w, 'x) process \<Rightarrow> bool" where
  "procWf p \<longleftrightarrow> svWf (sup p) \<and> tblInv fst (streams p)
     \<and> distinct (toStart p) \<and> (\<forall>n \<in> set (toStart p). tblHas fst n (factories (sup p)) \<and> \<not> tblHas fst n (svPlugins (sup p)))
     \<and> (\<forall>(n, e, st) \<in> set (pending p). tblHas fst n (svPlugins (sup p)))
     \<and> (stopped (sup p) \<longleftrightarrow> supAt p = SupJoin \<or> supAt p = SupDone)
     \<and> (stopped (sup p) \<longrightarrow> ctxDone p) \<and> (supAt p = SupDone \<longrightarrow> running (sup p) = []) \<and> (mainAt p \<noteq> MainSelect \<longrightarrow> ctxDone p)"

lemma dbOk_append: "dbOk s \<Longrightarrow> ringCapacity s = defaultRingCapacity \<Longrightarrow>
    dbOk (snd (AppendEvent e s)) \<and> ringCapacity (snd (AppendEvent e s)) = defaultRingCapacity"
  using AppendEvent_outcome [of s e] AppendEvent_inv [of s e]
    length_lastN [of defaultRingCapacity "events s @ [envRow (lastId s + 1) e]"]
  by (auto simp: dbOk_def ringPush_def defaultRingCapacity_def)

lemma dbOk_ownWrite: "dbOk s \<Longrightarrow> ownWrite s t \<Longrightarrow> dbOk t"
  by (simp add: dbOk_def ownWrite_def coreInv_def)

lemma dbOk_open:
  assumes "dbOk s" "OpenStore a b now cap s = (r, t)"
  shows "dbOk t \<and> (\<forall>u. r = Inr u \<longrightarrow> u = t \<and> ringCapacity t = cap)"
  using assms applyCoreMigrations_cases [of now "s\<lparr>ringCapacity := cap\<rparr>"]
  by (auto simp: OpenStore_def dbOk_def coreInv_def tblInv_def tblHas_def image_iff split: if_splits)

lemma tblHas_upsert_fst: "tblHas fst n (tblUpsert fst r t) \<longleftrightarrow> n = fst r \<or> tblHas fst n t"
  by (simp add: tblHas_upsert)

text \<open>The aggregator after the marks of a turn: the plugin joined those tracked.\<close>

definition tracks :: "string \<Rightarrow> 'w aggregator \<Rightarrow> 'w aggregator \<Rightarrow> bool" where
  "tracks n h h' \<longleftrightarrow> tblInv fst (plugins h') \<and> (\<forall>m. tblHas fst m (plugins h') \<longleftrightarrow> m = n \<or> tblHas fst m (plugins h))"

lemma tracks_ops:
  "tblInv fst (plugins h) \<Longrightarrow> tracks n h (MarkStarting n h)"
  "tracks n h h' \<Longrightarrow> tracks n h (MarkStale n h')"
  "tracks n h h' \<Longrightarrow> tracks n h (SetCursorFunc n cr h')"
  by (auto simp: tracks_def health_ops)

lemma startOne_outcome:
  assumes "svWf sv" "facOk (factories sv)" "tblHas fst n (factories sv)"
  shows "\<exists>h d. dbOk d \<and> tracks n (health sv) h \<and> (startOne fs n sv = sv\<lparr>health := h, disk := (disk sv)(n := d)\<rparr>
      \<or> ringCapacity d = defaultRingCapacity
        \<and> (\<exists>pl. startOne fs n sv = sv\<lparr>health := h, disk := (disk sv)(n := d), stores := stores sv @ [n],
             svPlugins := tblUpsert fst (n, pl) (svPlugins sv), running := running sv @ [n]\<rparr>))"
    (is "\<exists>h d. ?Q h d")
proof -
  obtain f where f: "tblGet fst n (factories sv) = Some (n, f)" using assms(3) by (auto simp: tblHas_get)
  let ?h0 = "MarkStarting n (health sv)"
  have wf: "dbOk (disk sv n)" "tracks n (health sv) ?h0" "ringCap sv = defaultRingCapacity"
    using assms(1) by (simp_all add: svWf_def tracks_ops)
  show ?thesis
  proof (cases "f (PluginConfigFor (cfg sv) n)")
    case (Inl e)
    then have "?Q (MarkStale n ?h0) (disk sv n)" using f wf by (simp add: startOne_def tracks_ops)
    then show ?thesis by blast
  next
    case (Inr pl)
    define h where "h = (case plCursor pl of None \<Rightarrow> ?h0 | Some cr \<Rightarrow> SetCursorFunc n cr ?h0)"
    have h: "tracks n (health sv) h" "tracks n (health sv) (MarkStale n h)"
      using wf(2) by (auto simp: h_def tracks_ops split: option.split)
    obtain r t where o: "OpenStore (mkOk fs n) (openOk fs n) (clock fs) (ringCap sv) (disk sv n) = (r, t)" by fastforce
    note t = dbOk_open [OF wf(1) o]
    have sv: "startOne fs n sv = (case r of
          Inl _ \<Rightarrow> sv\<lparr>health := MarkStale n h, disk := (disk sv)(n := t)\<rparr>
        | Inr s \<Rightarrow> (case plMigrate pl s of
            (Inl _, d) \<Rightarrow> sv\<lparr>health := MarkStale n h, disk := (disk sv)(n := d)\<rparr>
          | (Inr _, d) \<Rightarrow> sv\<lparr>health := h, disk := (disk sv)(n := d), stores := stores sv @ [n],
               svPlugins := tblUpsert fst (n, pl) (svPlugins sv), running := running sv @ [n]\<rparr>))"
      using f Inr o by (cases "plCursor pl") (simp_all add: startOne_def h_def split: sum.split prod.split)
    show ?thesis
    proof (cases r)
      case (Inl e)
      then have "?Q (MarkStale n h) t" using t h sv by simp
      then show ?thesis by blast
    next
      case (Inr u)
      then have u: "u = t" "ringCapacity t = defaultRingCapacity" using t wf(3) by auto
      obtain q d where m: "plMigrate pl t = (q, d)" by fastforce
      have d: "dbOk d" "ringCapacity d = defaultRingCapacity"
        using assms(2) tblGet_SomeD [OF f] \<open>f _ = Inr pl\<close> t u m by (fastforce simp: facOk_def)+
      show ?thesis
      proof (cases q)
        case (Inl e)
        then have "?Q (MarkStale n h) d" using \<open>r = Inr u\<close> u m d h sv by simp
        then show ?thesis by blast
      next
        case (Inr v)
        then have "?Q h d" using \<open>r = Inr u\<close> u m d h sv by auto
        then show ?thesis by blast
      qed
    qed
  qed
qed

lemma startOne_svWf:
  assumes "svWf sv" "facOk (factories sv)" "tblHas fst n (factories sv)" "\<not> tblHas fst n (svPlugins sv)"
  shows "svWf (startOne fs n sv)"
    and "tblHas fst m (svPlugins (startOne fs n sv)) \<Longrightarrow> m = n \<or> tblHas fst m (svPlugins sv)"
    and "tblHas fst m (svPlugins sv) \<Longrightarrow> tblHas fst m (svPlugins (startOne fs n sv))"
  using startOne_outcome [OF assms(1-3), of fs] assms
  by (auto simp: svWf_def tracks_def tblHas_upsert)

lemma svWf_bus [simp]: "svWf (sv\<lparr>svBus := b\<rparr>) = svWf sv"
  by (simp add: svWf_def)

lemma svWf_stopped [simp]: "svWf (sv\<lparr>stopped := b\<rparr>) = svWf sv"
  by (simp add: svWf_def)

lemma svWf_disk: "svWf sv \<Longrightarrow> dbOk d \<Longrightarrow> ringCapacity d = ringCapacity (disk sv n) \<Longrightarrow> svWf (sv\<lparr>disk := (disk sv)(n := d)\<rparr>)"
  by (simp add: svWf_def)

lemma svWf_health: "svWf sv \<Longrightarrow> svWf (sv\<lparr>health := setEntry n e (health sv)\<rparr>)"
  by (simp add: svWf_def)

lemma svWf_end: "svWf sv \<Longrightarrow> svWf (runPluginEnd n r sv)"
  by (auto simp: svWf_def runPluginEnd_def stopDead_def MarkStale_def Let_def split: option.split start_end.split dest: notin_set_remove1)

lemma svWf_append:
  assumes "svWf (sup p)" "tblHas fst n (svPlugins (sup p))" "appendStep n e p = (ok, p')"
  shows "svWf (sup p')"
proof -
  have c: "dbOk (disk (sup p) n)" "ringCapacity (disk (sup p) n) = defaultRingCapacity" using assms(1,2) by (auto simp: svWf_def)
  from assms(3) show ?thesis
    by (cases rule: appendStep_cases) (use assms(1) dbOk_append [OF c, of e] c(2) in \<open>auto intro: svWf_disk\<close>)
qed

lemma procStep_facs: "procStep fs ev p p' \<Longrightarrow> factories (sup p') = factories (sup p)"
  by (cases rule: procStep.cases) (auto simp: Stop_def dest: appendStep_frame(12))

lemma procStep_wf:
  assumes "procStep fs ev p p'" "procWf p" "facOk (factories (sup p))"
  shows "procWf p'"
  using assms(1)
proof (cases rule: procStep.cases)
  case (starts n ns)
  then have n: "tblHas fst n (factories (sup p))" "\<not> tblHas fst n (svPlugins (sup p))" "svWf (sup p)"
    using assms(2) by (auto simp: procWf_def toStart_def)
  from starts assms(2) startOne_svWf [OF n(3) assms(3) n(1,2)] show ?thesis
    by (fastforce simp: procWf_def toStart_def)
next
  case (ends n r)
  then show ?thesis using assms(2) by (auto simp: procWf_def toStart_def svWf_end)
next
  case stops
  then show ?thesis using assms(2) by (auto simp: procWf_def toStart_def Stop_def)
next
  case (writes n t)
  then have "dbOk (disk (sup p) n)" using assms(2) by (simp add: procWf_def svWf_def)
  from dbOk_ownWrite [OF this writes(5)] writes assms(2) show ?thesis
    by (auto simp: procWf_def toStart_def ownWrite_def intro: svWf_disk)
next
  case (append n e ok)
  have "svWf (sup p')" using svWf_append [OF _ append(2,3)] assms(2) by (simp add: procWf_def)
  with append assms(2) appendStep_frame [OF append(3)] show ?thesis
    by (auto simp: procWf_def toStart_def split: if_splits)
next
  case (stamp xs n e ys)
  then show ?thesis using assms(2) by (auto simp: procWf_def toStart_def Record_def svWf_health)
next
  case (publish xs n e ys b)
  then show ?thesis using assms(2) by (auto simp: procWf_def toStart_def)
next
  case exits
  then show ?thesis using assms(2) by (auto simp: procWf_def toStart_def)
qed (use assms(2) in \<open>auto simp: procWf_def toStart_def\<close>)

lemma serveInit_wf: "facOk facs \<Longrightarrow> (\<And>n. dbOk (d n)) \<Longrightarrow> procWf (serveInit c facs d)"
  by (auto simp: procWf_def svWf_def serveInit_def NewSupervisor_def NewHealthAggregator_def toStart_def SortedFactoryNames_def
      facOk_def tblInv_def tblHas_def)

lemma procReach_wf:
  assumes "procReach fs (serveInit c facs d) tr p" "facOk facs" "\<And>n. dbOk (d n)"
  shows "procWf p \<and> factories (sup p) = facs"
  using assms(1)
proof (induction rule: procReach.induct)
  case init
  show ?case using serveInit_wf [OF assms(2,3)] by (simp add: serveInit_def NewSupervisor_def)
next
  case (step tr p ev p')
  then show ?case using procStep_wf [OF step(3)] procStep_facs [OF step(3)] assms(2) by simp
qed

subsection \<open>Lemmas: runs and the end of the process\<close>

lemma procReach_trans: "procReach fs q b r \<Longrightarrow> procReach fs p a q \<Longrightarrow> procReach fs p (b @ a) r"
  by (induction rule: procReach.induct) (auto intro: procReach.intros)

lemma procReach_split: "procReach fs p (b @ a) r \<Longrightarrow> \<exists>q. procReach fs p a q \<and> procReach fs q b r"
proof (induction b arbitrary: r)
  case Nil
  then show ?case by (auto intro: procReach.init)
next
  case (Cons ev b)
  from Cons.prems obtain r' where "procReach fs p (b @ a) r'" "alive r'" "procStep fs ev r' r"
    by (cases rule: procReach.cases) auto
  with Cons.IH [of r'] show ?case by (auto intro: procReach.step)
qed

text \<open>How a trace says \<open>runServe\<close> left its select, and the result it then returns.\<close>

fun serveEnds :: "proc_ev list \<Rightarrow> serveEnd list" where
  "serveEnds [] = []"
| "serveEnds (PListen err # tr) = serveEnds tr @ [Listened err]"
| "serveEnds (PShutdown err # tr) = serveEnds tr @ [Signalled err]"
| "serveEnds (_ # tr) = serveEnds tr"

definition serveResult :: "Config \<Rightarrow> serveEnd \<Rightarrow> unit res" where
  "serveResult c en = (case en of Listened err \<Rightarrow> listenResult c err | Signalled err \<Rightarrow> (case err of None \<Rightarrow> Inr () | Some x \<Rightarrow> Inl x))"

lemma runServe_result: "loadConfig E path = Inr c \<Longrightarrow> runServe E path (\<lambda>_. en) = serveResult c en"
  by (auto simp: runServe_def serveResult_def listenResult_def split: serveEnd.split option.split listenErr.split)

lemma procStep_cfg: "procStep fs ev p p' \<Longrightarrow> cfg (sup p') = cfg (sup p)"
  by (cases rule: procStep.cases) (auto simp: Stop_def dest: appendStep_frame(8))

definition endInv :: "Config \<Rightarrow> proc_ev list \<Rightarrow> ('w, 'x) process \<Rightarrow> bool" where
  "endInv c tr p \<longleftrightarrow> cfg (sup p) = c \<and>
     (case mainAt p of MainSelect \<Rightarrow> serveEnds tr = []
      | MainWait r \<Rightarrow> (\<exists>en. serveEnds tr = [en] \<and> r = serveResult c en)
      | MainExit r j \<Rightarrow> (\<exists>en. serveEnds tr = [en] \<and> r = serveResult c en) \<and> (j \<longrightarrow> supAt p = SupDone))"

lemma procReach_end: "procReach fs (serveInit c facs d) tr p \<Longrightarrow> endInv c tr p"
proof (induction rule: procReach.induct)
  case init
  show ?case by (simp add: endInv_def serveInit_def NewSupervisor_def)
next
  case (step tr p ev p')
  note c = procStep_cfg [OF step(3)]
  from step(3) show ?case
  proof (cases rule: procStep.cases)
    case (append n e ok)
    then show ?thesis using step(2,4) c appendStep_frame(3,4) [OF append(3)]
      by (auto simp: endInv_def alive_def split: mainSt.splits)
  qed (use step(2,4) c in \<open>auto simp: endInv_def alive_def serveResult_def split: mainSt.splits\<close>)
qed

text \<open>Once \<open>Stop\<close> closed the stores, nothing is stored.\<close>

lemma stopped_stays: "procReach fs q tr p \<Longrightarrow> stopped (sup q) \<Longrightarrow> stopped (sup p) \<and> storedEvs tr = []"
proof (induction rule: procReach.induct)
  case init
  then show ?case by simp
next
  case (step tr p ev p')
  from step(3) show ?case
  proof (cases rule: procStep.cases)
    case (append n e ok)
    then show ?thesis using step(4,5) appendStep_frame(7,14) [OF append(3)] by (cases ok) simp_all
  qed (use step(4,5) in \<open>simp_all add: Stop_def\<close>)
qed

text \<open>A clean exit can still be reached: driven by the signal, the ends of the plugins and the goroutines themselves.\<close>

definition canExit :: "fsys \<Rightarrow> ('w, 'x) process \<Rightarrow> bool" where
  "canExit fs p \<longleftrightarrow> (\<exists>tr p' r. procReach fs p tr p' \<and> mainAt p' = MainExit r True)"

lemma canExit_step: "canExit fs p' \<Longrightarrow> alive p \<Longrightarrow> procStep fs ev p p' \<Longrightarrow> canExit fs p"
  using procReach_trans [OF _ procReach.step [OF procReach.init]] unfolding canExit_def by blast

lemma canExit_done:
  assumes "alive p" "ctxDone p" "supAt p = SupDone"
  shows "canExit fs p"
proof -
  have w: "canExit fs q" if "mainAt q = MainWait r" "supAt q = SupDone" for q :: "('a, 'b) process" and r
  proof -
    have "procReach fs q [PExit (supAt q = SupDone)] (q\<lparr>mainAt := MainExit r (supAt q = SupDone)\<rparr>)"
      using that by (intro procReach.step [OF procReach.init] procStep.exits) (simp_all add: alive_def)
    then show ?thesis using that unfolding canExit_def
      by (intro exI [of _ "[PExit (supAt q = SupDone)]"] exI [of _ "q\<lparr>mainAt := MainExit r (supAt q = SupDone)\<rparr>"] exI [of _ r]) simp
  qed
  show ?thesis
  proof (cases "mainAt p")
    case MainSelect
    show ?thesis
      by (rule canExit_step [OF w assms(1) procStep.shutdown [OF MainSelect assms(2), of fs None]]) (use assms(3) in simp_all)
  qed (use assms w in \<open>auto simp: alive_def\<close>)
qed

lemma canExit_join: "alive p \<Longrightarrow> ctxDone p \<Longrightarrow> supAt p = SupJoin \<Longrightarrow> canExit fs p"
proof (induction "length (running (sup p))" arbitrary: p)
  case 0
  then show ?case
    by (intro canExit_step [OF canExit_done _ procStep.joined]) (simp_all add: alive_def)
next
  case (Suc k)
  then obtain n ns where n: "running (sup p) = n # ns" by (cases "running (sup p)") auto
  show ?case
    by (rule canExit_step [OF Suc.hyps(1) Suc.prems(1) procStep.ends [of n _ _ Returned]]) (use Suc n in \<open>simp_all add: alive_def\<close>)
qed

lemma canExit_run: "alive p \<Longrightarrow> ctxDone p \<Longrightarrow> supAt p = SupRun \<Longrightarrow> canExit fs p"
  by (intro canExit_step [OF canExit_join _ procStep.stops]) (simp_all add: alive_def)

lemma canExit_start: "alive p \<Longrightarrow> ctxDone p \<Longrightarrow> supAt p = SupStart ns \<Longrightarrow> canExit fs p"
proof (induction ns arbitrary: p)
  case Nil
  then show ?case by (intro canExit_step [OF canExit_run _ procStep.runs]) (simp_all add: alive_def)
next
  case (Cons n ns)
  show ?case
    by (rule canExit_step [OF Cons.IH Cons.prems(1) procStep.starts [OF Cons.prems(3)]]) (use Cons in \<open>simp_all add: alive_def\<close>)
qed

lemma alive_canExit:
  assumes "alive p"
  shows "canExit fs p"
proof -
  have "canExit fs (p\<lparr>ctxDone := True\<rparr>)"
    using assms canExit_start [of "p\<lparr>ctxDone := True\<rparr>"] canExit_run [of "p\<lparr>ctxDone := True\<rparr>"]
      canExit_join [of "p\<lparr>ctxDone := True\<rparr>"] canExit_done [of "p\<lparr>ctxDone := True\<rparr>"]
    by (cases "supAt p") (simp_all add: alive_def)
  from canExit_step [OF this assms procStep.signal] show ?thesis .
qed

subsection \<open>Lemmas: a run of the demo plugins\<close>

definition demoServe :: "(unit, unit) process" where
  "demoServe = serveInit (demoConfig [] []) demoFacs (\<lambda>_. freshDb [])"

lemma demo_ok: "facOk demoFacs" "dbOk (freshDb [])"
  by (simp_all add: facOk_def demoFacs_def tblInv_def demoPlugin_def dbOk_def coreInv_def freshDb_def defaultRingCapacity_def)

lemma demo_start:
  defines "sv \<equiv> startOne demoFs ''git'' (sup demoServe)"
  shows "tblHas fst ''git'' (svPlugins sv)" "\<not> stopped sv" "svBus sv = NewBus" "coreInv (disk sv ''git'')" "faults (disk sv ''git'') = []"
  unfolding sv_def
  by (simp_all add: demoServe_def serveInit_def demoFacs_def NewSupervisor_def startOne_def demoFs_def OpenStore_def freshDb_def
      demoPlugin_def applyCoreMigrations_def coreMigrations_def applyMigration_def createTable_def coreInv_def tblUpsert_def tblMerge_def tblInv_def)

text \<open>The git plugin starts and a client opens a stream; then one event goes from the plugin to the client.\<close>

definition demoBus :: "envelope list \<Rightarrow> bus" where
  "demoBus es = \<lparr>nextSub = 1, subs = [0], chans = [(0, \<lparr>buf = es, closed = False\<rparr>)], watchers = [0]\<rparr>"

definition demoStrm :: "envelope option \<Rightarrow> envelope list \<Rightarrow> strm" where
  "demoStrm held out = \<lparr>stSource = [], stHeld = held, stOut = out, stGone = False, stEnded = False\<rparr>"

lemma demo_open:
  "\<exists>p. procReach demoFs demoServe [POpen 0 [], PStart ''git''] p \<and> tblHas fst ''git'' (svPlugins (sup p)) \<and> \<not> stopped (sup p)
    \<and> coreInv (disk (sup p) ''git'') \<and> faults (disk (sup p) ''git'') = []
    \<and> svBus (sup p) = demoBus [] \<and> pending p = [] \<and> streams p = [(0, demoStrm None [])] \<and> mainAt p = MainSelect"
proof -
  define p1 where "p1 = (onSup (startOne demoFs ''git'') demoServe)\<lparr>supAt := SupStart [''tmux'']\<rparr>"
  have r1: "procReach demoFs demoServe [PStart ''git''] p1"
    unfolding p1_def
    by (intro procReach.step [OF procReach.init] procStep.starts)
      (simp_all add: demoServe_def serveInit_def alive_def SortedFactoryNames_def demoFacs_def)
  have f1: "tblHas fst ''git'' (svPlugins (sup p1))" "\<not> stopped (sup p1)" "svBus (sup p1) = NewBus" "coreInv (disk (sup p1) ''git'')"
      "faults (disk (sup p1) ''git'') = []" "pending p1 = []" "streams p1 = []" "mainAt p1 = MainSelect"
    using demo_start by (simp_all add: p1_def) (simp_all add: demoServe_def serveInit_def)
  have "procReach demoFs demoServe [POpen 0 [], PStart ''git''] (setStream 0 (demoStrm None []) (setBus (demoBus []) p1))"
    unfolding demoStrm_def using f1 by (intro procReach.step [OF r1] procStep.opens)
      (simp_all add: alive_def Subscribe_def NewBus_def demoBus_def tblUpsert_def tblMerge_def wrap64_def Let_def)
  then show ?thesis using f1
    by (intro exI [of _ "setStream 0 (demoStrm None []) (setBus (demoBus []) p1)"]) (simp add: tblUpsert_def tblMerge_def)
qed

definition demoTrace :: "proc_ev list" where
  "demoTrace = (let e = demoEvent ''a'' in
     [PDeliver 0 e, PTake 0 e, PPublish ''git'' e, PStamp ''git'' e, PAppend ''git'' e True, POpen 0 [], PStart ''git''])"

lemma demo_run:
  "\<exists>p. procReach demoFs demoServe demoTrace p \<and> tblGet fst 0 (streams p) = Some (0, demoStrm None [demoEvent ''a''])
    \<and> receive 0 (svBus (sup p)) = None \<and> alive p"
proof -
  define e where "e = demoEvent ''a''"
  obtain p where r: "procReach demoFs demoServe [POpen 0 [], PStart ''git''] p"
    and f: "tblHas fst ''git'' (svPlugins (sup p))" "\<not> stopped (sup p)" "coreInv (disk (sup p) ''git'')" "faults (disk (sup p) ''git'') = []"
      "svBus (sup p) = demoBus []" "pending p = []" "streams p = [(0, demoStrm None [])]" "mainAt p = MainSelect"
    using demo_open by (elim exE conjE)
  define p3 where "p3 = (onSup (\<lambda>sv. sv\<lparr>disk := (disk sv)(''git'' := ringPush e (disk sv ''git''))\<rparr>) p)\<lparr>pending := pending p @ [(''git'', e, False)]\<rparr>"
  have r3: "procReach demoFs demoServe [PAppend ''git'' e True, POpen 0 [], PStart ''git''] p3"
    using f by (intro procReach.step [OF r] procStep.append) (simp_all add: alive_def p3_def appendStep_def onSup_def)
  define p4 where "p4 = (onSup (\<lambda>sv. sv\<lparr>health := Record ''git'' (TS e) (health sv)\<rparr>) p3)\<lparr>pending := [] @ (''git'', e, True) # []\<rparr>"
  have r4: "procReach demoFs demoServe [PStamp ''git'' e, PAppend ''git'' e True, POpen 0 [], PStart ''git''] p4"
    unfolding p4_def using f by (intro procReach.step [OF r3] procStep.stamp) (simp_all add: alive_def p3_def)
  define p5 where "p5 = (setBus (demoBus [e]) p4)\<lparr>pending := [] @ []\<rparr>"
  have r5: "procReach demoFs demoServe [PPublish ''git'' e, PStamp ''git'' e, PAppend ''git'' e True, POpen 0 [], PStart ''git''] p5"
    unfolding p5_def using f by (intro procReach.step [OF r4] procStep.publish)
      (simp_all add: alive_def p3_def p4_def publish_def trySend_def demoBus_def subBuffer_def tblUpsert_def tblMerge_def)
  define p6 where "p6 = setStream 0 ((demoStrm None [])\<lparr>stHeld := (if keeps (stSource (demoStrm None [])) e then Some e else None)\<rparr>) (setBus (demoBus []) p5)"
  have r6: "procReach demoFs demoServe [PTake 0 e, PPublish ''git'' e, PStamp ''git'' e, PAppend ''git'' e True, POpen 0 [], PStart ''git''] p6"
    unfolding p6_def using f by (intro procReach.step [OF r5] procStep.take)
      (simp_all add: alive_def p3_def p4_def p5_def receive_def demoBus_def demoStrm_def tblUpsert_def tblMerge_def)
  have "procReach demoFs demoServe demoTrace
      (setStream 0 ((demoStrm (Some e) [])\<lparr>stHeld := None, stOut := stOut (demoStrm (Some e) []) @ [e]\<rparr>) p6)"
    unfolding demoTrace_def Let_def e_def [symmetric] using f by (intro procReach.step [OF r6] procStep.deliver)
      (simp_all add: alive_def p3_def p4_def p5_def p6_def demoStrm_def keeps_def tbl_simps)
  then have "procReach demoFs demoServe demoTrace (setStream 0 (demoStrm None [e]) p6)" by (simp add: demoStrm_def)
  moreover have "receive 0 (svBus (sup (setStream 0 (demoStrm None [e]) p6))) = None" by (simp add: p6_def demoBus_def receive_def)
  moreover have "alive (setStream 0 (demoStrm None [e]) p6)" using f(8) by (simp add: alive_def p3_def p4_def p5_def p6_def)
  ultimately show ?thesis by (intro exI [of _ "setStream 0 (demoStrm None [e]) p6"]) (simp add: tbl_simps e_def)
qed


text \<open>C14. The process keeps its shape: whatever its goroutines do, in every state it reaches each plugin's database is ordered by its ids and its ring within the
  capacity, the health table lists a plugin once and lists every started plugin, only started plugins run or have an emit in flight, and each factory is started once; the
  stores are closed exactly when \<open>Run\<close> is past its \<open>Stop\<close>, which only a done context allows; and no publish and no unsubscribe of the bus panics.\<close>

theorem serve_well_formed:
  fixes facs :: "(string \<times> ('w, 'x) Factory) list"
  assumes "procReach fs (serveInit c facs d) tr p" and "facOk facs" and "\<forall>n. dbOk (d n)"
  shows "procWf p \<and> (int (length tr) < 2 ^ 63 \<longrightarrow> (\<forall>e. \<exists>b. publish e (svBus (sup p)) = Some b)
    \<and> (\<forall>i \<in> set (watchers (svBus (sup p))). \<exists>b. unsubscribe i (svBus (sup p)) = Some b))"
  using procReach_wf [OF assms(1,2)] assms(3) serve_busInv [OF assms(1)] publish_inv unsubscribe_inv by blast

theorem serve_well_formed_witness:
  "\<exists>p. procReach demoFs demoServe demoTrace p \<and> procWf p \<and> (\<exists>b. publish (demoEvent ''b'') (svBus (sup p)) = Some b)"
proof -
  obtain p where p: "procReach demoFs demoServe demoTrace p" using demo_run by (elim exE conjE)
  have "int (length demoTrace) < 2 ^ 63" by (simp add: demoTrace_def Let_def)
  with serve_well_formed [OF p [unfolded demoServe_def] demo_ok(1)] demo_ok(2) p show ?thesis by (intro exI [of _ p]) simp
qed

text \<open>C15. The end of the process: \<open>runServe\<close> returns what its sequential description says of the one ending that the run had, a listener error or a signal; the
  context is done; when the supervisor was joined in time every plugin's goroutine returned and the stores are closed; and nothing is stored once they are.\<close>

theorem serve_shutdown:
  fixes facs :: "(string \<times> ('w, 'x) Factory) list"
  assumes "procReach fs (serveInit c facs d) tr p" and "facOk facs" and "\<forall>n. dbOk (d n)" and "loadConfig E path = Inr c"
    and "mainAt p = MainExit r j"
  shows "(\<exists>en. serveEnds tr = [en] \<and> runServe E path (\<lambda>_. en) = r) \<and> ctxDone p
    \<and> (j \<longrightarrow> running (sup p) = [] \<and> stopped (sup p))
    \<and> (\<forall>later earlier. tr = later @ PStop # earlier \<longrightarrow> storedEvs later = [])"
proof -
  have wf: "procWf p" using procReach_wf [OF assms(1,2)] assms(3) by blast
  have en: "\<exists>en. serveEnds tr = [en] \<and> r = serveResult c en" "j \<longrightarrow> supAt p = SupDone"
    using procReach_end [OF assms(1)] assms(5) by (simp_all add: endInv_def)
  have "storedEvs later = []" if split: "tr = later @ PStop # earlier" for later earlier
  proof -
    obtain q where "procReach fs (serveInit c facs d) (PStop # earlier) q" "procReach fs q later p"
      using procReach_split [OF assms(1) [unfolded split]] by blast
    moreover from this(1) have "stopped (sup q)"
      by (cases rule: procReach.cases) (auto elim: procStep.cases simp: Stop_def)
    ultimately show ?thesis using stopped_stays by blast
  qed
  with wf en assms(5) show ?thesis by (auto simp: procWf_def runServe_result [OF assms(4)])
qed

definition demoServeCli :: "unit cliEnv" where
  "demoServeCli = (demoCli (\<lambda>_. None))\<lparr>ceToml := (\<lambda>_. Some (demoConfig [] [])), ceRead := (\<lambda>_. Some ''f'')\<rparr>"

lemma demo_host: "trimSpace (HostID (demoConfig [] [])) \<noteq> []"
  by code_simp

theorem serve_shutdown_witness:
  "\<exists>c tr p r. loadConfig demoServeCli ''c'' = Inr c \<and> procReach demoFs (serveInit c demoFacs (\<lambda>_. freshDb [])) tr p
     \<and> mainAt p = MainExit r True \<and> running (sup p) = [] \<and> (\<exists>en. runServe demoServeCli ''c'' (\<lambda>_. en) = r)"
proof -
  obtain c where c: "loadConfig demoServeCli ''c'' = Inr c"
    by (simp add: loadConfig_def demoServeCli_def LoadConfig_def demo_host) (simp add: demoConfig_def)
  have "alive (serveInit c demoFacs (\<lambda>_. freshDb []))" by (simp add: alive_def serveInit_def)
  from alive_canExit [OF this, of demoFs] obtain tr p r
    where p: "procReach demoFs (serveInit c demoFacs (\<lambda>_. freshDb [])) tr p" "mainAt p = MainExit r True"
    unfolding canExit_def by (elim exE conjE)
  have "\<forall>n :: string. dbOk (freshDb [])" using demo_ok(2) by blast
  from serve_shutdown [OF p(1) demo_ok(1) this c p(2)] c p show ?thesis by blast
qed



end
