(* ===== verification/OsService.thy ===== *)
theory OsService
  imports GoNet
begin

text \<open>
  \<open>core/service\<close>: the managers that install \<open>supergraph serve\<close> as a service, systemd on Linux and
  launchd on macOS, and \<open>newManager\<close> of \<open>cmd/supergraph/service.go\<close>. The control command, the outcome
  of the file operations, the home directory and the user id are fields of the environment; the
  state is the file table, the commands run so far and the state of the control command. What the
  two managers promise about their unit file is the locale \<open>unit_manager\<close>.
\<close>

record 'u svcEnv =
  svHome :: "string option"
  svUid :: int
  svRun :: "string list \<Rightarrow> 'u \<Rightarrow> (string \<times> bool) \<times> 'u"
  svMkdir :: "string \<Rightarrow> 'u \<Rightarrow> bool"
  svWrite :: "string \<Rightarrow> 'u \<Rightarrow> string option option"
  svRemove :: "string \<Rightarrow> 'u \<Rightarrow> bool"

record 'u svcWorld =
  swFiles :: "(string \<times> string) list"
  swCmds :: "string list list"
  swSt :: 'u

definition serviceName :: string where
  "serviceName = ''supergraph''"

definition launchdLabel :: string where
  "launchdLabel = ''com.drewdrewthis.supergraph''"

text \<open>A \<open>Runner\<close> call: its output and whether it succeeded.\<close>

definition runCmd :: "'u svcEnv \<Rightarrow> string list \<Rightarrow> 'u svcWorld \<Rightarrow> (string \<times> bool) \<times> 'u svcWorld" where
  "runCmd E args w = (case svRun E args (swSt w) of (out, s) \<Rightarrow> (out, w\<lparr>swCmds := swCmds w @ [args], swSt := s\<rparr>))"

text \<open>\<open>os.MkdirAll\<close> of the directory and \<open>os.WriteFile\<close>: \<open>svWrite\<close> is \<open>Some\<close> of what a failed write leaves behind,
  which is the file as it was when it could not be opened.\<close>

definition writeUnit :: "'u svcEnv \<Rightarrow> string \<Rightarrow> string \<Rightarrow> 'u svcWorld \<Rightarrow> unit res \<times> 'u svcWorld" where
  "writeUnit E path data w =
     (if \<not> svMkdir E path (swSt w) then (Inl ''service: create dir'', w)
      else case svWrite E path (swSt w) of
             Some None \<Rightarrow> (Inl ''service: write'', w)
           | Some (Some left) \<Rightarrow> (Inl ''service: write'', w\<lparr>swFiles := tblUpsert fst (path, left) (swFiles w)\<rparr>)
           | None \<Rightarrow> (Inr (), w\<lparr>swFiles := tblUpsert fst (path, data) (swFiles w)\<rparr>))"

text \<open>\<open>os.Remove\<close> where a missing file is not an error.\<close>

definition removeUnit :: "'u svcEnv \<Rightarrow> string \<Rightarrow> 'u svcWorld \<Rightarrow> unit res \<times> 'u svcWorld" where
  "removeUnit E path w =
     (if \<not> tblHas fst path (swFiles w) then (Inr (), w)
      else if svRemove E path (swSt w) then (Inr (), w\<lparr>swFiles := tblDelete (\<lambda>r. fst r = path) (swFiles w)\<rparr>)
      else (Inl ''service: remove'', w))"

subsection \<open>systemd\<close>

record systemd =
  sdBin :: string
  sdUnit :: string

definition newSystemd :: "'u svcEnv \<Rightarrow> string \<Rightarrow> systemd res" where
  "newSystemd E bin =
     (case svHome E of
        None \<Rightarrow> Inl ''service: resolve home''
      | Some h \<Rightarrow> Inr \<lparr>sdBin = bin, sdUnit = pathJoin [h, ''.config'', ''systemd'', ''user'', serviceName @ ''.service'']\<rparr>)"

definition unlines :: "string list \<Rightarrow> string" where
  "unlines ls = concat (map (\<lambda>l. l @ [CHR 0x0A]) ls)"

definition renderUnit :: "string \<Rightarrow> string" where
  "renderUnit bin = unlines [''[Unit]'', ''Description=supergraph aggregator'', ''After=network.target'', '''', ''[Service]'',
     ''ExecStart='' @ bin @ '' serve'', ''Restart=on-failure'', '''', ''[Install]'', ''WantedBy=default.target'']"

definition systemctl :: "string \<Rightarrow> string list" where
  "systemctl verb = [''systemctl'', ''--user'', verb, serviceName @ ''.service'']"

definition daemonReload :: "string list" where
  "daemonReload = [''systemctl'', ''--user'', ''daemon-reload'']"

definition sdInstall :: "'u svcEnv \<Rightarrow> systemd \<Rightarrow> 'u svcWorld \<Rightarrow> unit res \<times> 'u svcWorld" where
  "sdInstall E s w =
     (case writeUnit E (sdUnit s) (renderUnit (sdBin s)) w of
        (Inl e, w1) \<Rightarrow> (Inl e, w1)
      | (Inr _, w1) \<Rightarrow>
          (case runCmd E daemonReload w1 of
             ((_, False), w2) \<Rightarrow> (Inl ''service: daemon-reload'', w2)
           | ((_, True), w2) \<Rightarrow>
               (case runCmd E (systemctl ''enable'') w2 of
                  ((_, False), w3) \<Rightarrow> (Inl ''service: enable'', w3)
                | ((_, True), w3) \<Rightarrow> (Inr (), w3))))"

definition sdUninstall :: "'u svcEnv \<Rightarrow> systemd \<Rightarrow> 'u svcWorld \<Rightarrow> unit res \<times> 'u svcWorld" where
  "sdUninstall E s w =
     (case removeUnit E (sdUnit s) (snd (runCmd E (systemctl ''stop'') (snd (runCmd E (systemctl ''disable'') w)))) of
        (Inl e, w1) \<Rightarrow> (Inl e, w1)
      | (Inr _, w1) \<Rightarrow> (Inr (), snd (runCmd E daemonReload w1)))"

definition sdCtl :: "'u svcEnv \<Rightarrow> string \<Rightarrow> 'u svcWorld \<Rightarrow> unit res \<times> 'u svcWorld" where
  "sdCtl E verb w =
     (case runCmd E (systemctl verb) w of ((_, ok), w1) \<Rightarrow> (if ok then Inr () else Inl (''service: '' @ verb), w1))"

definition sdStart :: "'u svcEnv \<Rightarrow> 'u svcWorld \<Rightarrow> unit res \<times> 'u svcWorld" where
  "sdStart E = sdCtl E ''start''"

definition sdStop :: "'u svcEnv \<Rightarrow> 'u svcWorld \<Rightarrow> unit res \<times> 'u svcWorld" where
  "sdStop E = sdCtl E ''stop''"

definition sdRestart :: "'u svcEnv \<Rightarrow> 'u svcWorld \<Rightarrow> unit res \<times> 'u svcWorld" where
  "sdRestart E = sdCtl E ''restart''"

definition sdStatus :: "'u svcEnv \<Rightarrow> 'u svcWorld \<Rightarrow> (bool \<times> string) \<times> 'u svcWorld" where
  "sdStatus E w =
     (case runCmd E (systemctl ''is-active'') w of ((out, _), w1) \<Rightarrow> ((trimSpace out = ''active'', trimSpace out), w1))"

subsection \<open>launchd\<close>

record launchd =
  ldBin :: string
  ldPlist :: string
  ldUid :: int

definition newLaunchd :: "'u svcEnv \<Rightarrow> string \<Rightarrow> launchd res" where
  "newLaunchd E bin =
     (case svHome E of
        None \<Rightarrow> Inl ''service: resolve home''
      | Some h \<Rightarrow> Inr \<lparr>ldBin = bin, ldPlist = pathJoin [h, ''Library'', ''LaunchAgents'', launchdLabel @ ''.plist''], ldUid = svUid E\<rparr>)"

definition dq :: string where
  "dq = [CHR 0x22]"

definition tab :: string where
  "tab = [CHR 0x09]"

definition renderPlist :: "string \<Rightarrow> string" where
  "renderPlist bin = unlines
     [''<?xml version='' @ dq @ ''1.0'' @ dq @ '' encoding='' @ dq @ ''UTF-8'' @ dq @ ''?>'',
      ''<!DOCTYPE plist PUBLIC '' @ dq @ ''-//Apple//DTD PLIST 1.0//EN'' @ dq @ '' '' @ dq
        @ ''http://www.apple.com/DTDs/PropertyList-1.0.dtd'' @ dq @ ''>'',
      ''<plist version='' @ dq @ ''1.0'' @ dq @ ''>'', ''<dict>'',
      tab @ ''<key>Label</key>'', tab @ ''<string>'' @ launchdLabel @ ''</string>'',
      tab @ ''<key>ProgramArguments</key>'', tab @ ''<array>'',
      tab @ tab @ ''<string>'' @ bin @ ''</string>'', tab @ tab @ ''<string>serve</string>'',
      tab @ ''</array>'', tab @ ''<key>RunAtLoad</key>'', tab @ ''<true/>'', tab @ ''<key>KeepAlive</key>'', tab @ ''<true/>'',
      ''</dict>'', ''</plist>'']"

definition ldDomain :: "launchd \<Rightarrow> string" where
  "ldDomain l = ''gui/'' @ itoa (ldUid l)"

definition ldInstall :: "'u svcEnv \<Rightarrow> launchd \<Rightarrow> 'u svcWorld \<Rightarrow> unit res \<times> 'u svcWorld" where
  "ldInstall E l w =
     (case writeUnit E (ldPlist l) (renderPlist (ldBin l)) w of
        (Inl e, w1) \<Rightarrow> (Inl e, w1)
      | (Inr _, w1) \<Rightarrow>
          (case runCmd E [''launchctl'', ''bootstrap'', ldDomain l, ldPlist l] w1 of
             ((_, ok), w2) \<Rightarrow> (Inr (), if ok then w2 else snd (runCmd E [''launchctl'', ''load'', ldPlist l] w2))))"

definition ldUninstall :: "'u svcEnv \<Rightarrow> launchd \<Rightarrow> 'u svcWorld \<Rightarrow> unit res \<times> 'u svcWorld" where
  "ldUninstall E l w = removeUnit E (ldPlist l) (snd (runCmd E [''launchctl'', ''bootout'', ldDomain l, ldPlist l] w))"

definition ldCtl :: "'u svcEnv \<Rightarrow> string \<Rightarrow> string list \<Rightarrow> 'u svcWorld \<Rightarrow> unit res \<times> 'u svcWorld" where
  "ldCtl E verb args w =
     (case runCmd E (''launchctl'' # args) w of ((_, ok), w1) \<Rightarrow> (if ok then Inr () else Inl (''service: '' @ verb), w1))"

definition ldStart :: "'u svcEnv \<Rightarrow> launchd \<Rightarrow> 'u svcWorld \<Rightarrow> unit res \<times> 'u svcWorld" where
  "ldStart E l = ldCtl E ''start'' [''kickstart'', ldDomain l @ ''/'' @ launchdLabel]"

definition ldStop :: "'u svcEnv \<Rightarrow> launchd \<Rightarrow> 'u svcWorld \<Rightarrow> unit res \<times> 'u svcWorld" where
  "ldStop E l = ldCtl E ''stop'' [''bootout'', ldDomain l, ldPlist l]"

definition ldRestart :: "'u svcEnv \<Rightarrow> launchd \<Rightarrow> 'u svcWorld \<Rightarrow> unit res \<times> 'u svcWorld" where
  "ldRestart E l = ldCtl E ''restart'' [''kickstart'', ''-k'', ldDomain l @ ''/'' @ launchdLabel]"

definition ldStatus :: "'u svcEnv \<Rightarrow> 'u svcWorld \<Rightarrow> (bool \<times> string) \<times> 'u svcWorld" where
  "ldStatus E w =
     (case runCmd E [''launchctl'', ''list'', launchdLabel] w of
        ((out, ok), w1) \<Rightarrow> ((ok \<and> containsStr out launchdLabel, trimSpace out), w1))"

text \<open>\<open>newManager\<close> of the command: the path of the running binary, with its links resolved when they can be.\<close>

definition managerBin :: "string option \<Rightarrow> (string \<Rightarrow> string option) \<Rightarrow> string res" where
  "managerBin exe evalSymlinks =
     (case exe of
        None \<Rightarrow> Inl ''resolve binary path''
      | Some e \<Rightarrow> Inr (case evalSymlinks e of Some r \<Rightarrow> r | None \<Rightarrow> e))"

subsection \<open>What a manager promises about its unit file\<close>

text \<open>An operation of a history is an install or an uninstall by some manager.\<close>

locale unit_manager =
  fixes inst uninst :: "'m \<Rightarrow> 'w \<Rightarrow> unit res \<times> 'w"
    and upath utext :: "'m \<Rightarrow> string"
    and files :: "'w \<Rightarrow> (string \<times> string) list"
  assumes inst_ok: "inst m w = (Inr (), w') \<Longrightarrow> tblGet fst (upath m) (files w') = Some (upath m, utext m)"
    and inst_other: "k \<noteq> upath m \<Longrightarrow> tblGet fst k (files (snd (inst m w))) = tblGet fst k (files w)"
    and inst_inv: "tblInv fst (files w) \<Longrightarrow> tblInv fst (files (snd (inst m w)))"
    and uninst_ok: "uninst m w = (Inr (), w') \<Longrightarrow> tblGet fst (upath m) (files w') = None"
    and uninst_other: "k \<noteq> upath m \<Longrightarrow> tblGet fst k (files (snd (uninst m w))) = tblGet fst k (files w)"
    and uninst_inv: "tblInv fst (files w) \<Longrightarrow> tblInv fst (files (snd (uninst m w)))"
begin

lemma history_other:
  "k \<notin> upath ` snd ` set ops \<Longrightarrow>
     tblGet fst k (files (fold (\<lambda>(b, m) w. snd (if b then inst m w else uninst m w)) ops w)) = tblGet fst k (files w)"
  by (induction ops arbitrary: w) (auto simp: inst_other uninst_other)

lemma history_inv:
  "tblInv fst (files w) \<Longrightarrow> tblInv fst (files (fold (\<lambda>(b, m) w. snd (if b then inst m w else uninst m w)) ops w))"
  by (induction ops arbitrary: w) (auto simp: inst_inv uninst_inv)

lemma install_exact:
  assumes "\<And>b m'. (b, m') \<in> set ops \<Longrightarrow> upath m' = upath m" and "tblInv fst (files w)"
    and "inst m (fold (\<lambda>(b, m) w. snd (if b then inst m w else uninst m w)) ops w) = (Inr (), w')"
  shows "tblInv fst (files w') \<and> (\<forall>k. tblGet fst k (files w') = (if k = upath m then Some (k, utext m) else tblGet fst k (files w)))"
proof -
  let ?w = "fold (\<lambda>(b, m) w. snd (if b then inst m w else uninst m w)) ops w"
  have "tblInv fst (files w')" using inst_inv [OF history_inv [OF assms(2), of ops], of m] by (simp only: assms(3) snd_conv)
  moreover have "tblGet fst k (files w') = tblGet fst k (files w)" if "k \<noteq> upath m" for k
  proof -
    have "k \<notin> upath ` snd ` set ops" using that assms(1) by auto
    from inst_other [OF that, of ?w] history_other [OF this, of w] show ?thesis by (simp only: assms(3) snd_conv)
  qed
  ultimately show ?thesis using inst_ok [OF assms(3)] by auto
qed

lemma uninstall_exact:
  assumes "\<And>b m'. (b, m') \<in> set ops \<Longrightarrow> upath m' = upath m"
    and "uninst m (fold (\<lambda>(b, m) w. snd (if b then inst m w else uninst m w)) ops w) = (Inr (), w')"
  shows "\<forall>k. tblGet fst k (files w') = (if k = upath m then None else tblGet fst k (files w))"
proof -
  let ?w = "fold (\<lambda>(b, m) w. snd (if b then inst m w else uninst m w)) ops w"
  have "tblGet fst k (files w') = tblGet fst k (files w)" if "k \<noteq> upath m" for k
  proof -
    have "k \<notin> upath ` snd ` set ops" using that assms(1) by auto
    from uninst_other [OF that, of ?w] history_other [OF this, of w] show ?thesis by (simp only: assms(2) snd_conv)
  qed
  then show ?thesis using uninst_ok [OF assms(2)] by auto
qed

end

lemma runCmd_files [simp]: "swFiles (snd (runCmd E args w)) = swFiles w"
  by (simp add: runCmd_def case_prod_unfold)

lemma runCmd_filesD: "runCmd E args w = (r, w') \<Longrightarrow> swFiles w' = swFiles w"
  by (metis runCmd_files snd_conv)

lemma writeUnit_other: "writeUnit E p d w = (r, w') \<Longrightarrow> k \<noteq> p \<Longrightarrow> tblGet fst k (swFiles w') = tblGet fst k (swFiles w)"
  by (auto simp: writeUnit_def tbl_simps split: if_splits option.splits)

lemma writeUnit_ok: "writeUnit E p d w = (Inr (), w') \<Longrightarrow> tblGet fst p (swFiles w') = Some (p, d)"
  by (auto simp: writeUnit_def tbl_simps split: if_splits option.splits)

lemma writeUnit_inv: "writeUnit E p d w = (r, w') \<Longrightarrow> tblInv fst (swFiles w) \<Longrightarrow> tblInv fst (swFiles w')"
  by (auto simp: writeUnit_def split: if_splits option.splits)

lemma removeUnit_other: "removeUnit E p w = (r, w') \<Longrightarrow> k \<noteq> p \<Longrightarrow> tblGet fst k (swFiles w') = tblGet fst k (swFiles w)"
  by (auto simp: removeUnit_def tbl_simps split: if_splits)

lemma removeUnit_ok: "removeUnit E p w = (Inr (), w') \<Longrightarrow> tblGet fst p (swFiles w') = None"
  by (auto simp: removeUnit_def tblGet_None_iff tblHas_def tblDelete_def split: if_splits)

lemma removeUnit_inv: "removeUnit E p w = (r, w') \<Longrightarrow> tblInv fst (swFiles w) \<Longrightarrow> tblInv fst (swFiles w')"
  by (auto simp: removeUnit_def tblInv_def tblDelete_def distinct_map_filter split: if_splits)

lemmas unit_files = writeUnit_other writeUnit_ok writeUnit_inv removeUnit_other removeUnit_ok removeUnit_inv

text \<open>Both managers run commands after the file is written or removed, which leaves the files alone.\<close>

lemma sdInstall_files:
  "\<exists>r w1. writeUnit E (sdUnit s) (renderUnit (sdBin s)) w = (r, w1) \<and> swFiles (snd (sdInstall E s w)) = swFiles w1
     \<and> (fst (sdInstall E s w) = Inr () \<longrightarrow> r = Inr ())"
  by (auto simp: sdInstall_def split: sum.split prod.split bool.split dest!: runCmd_filesD)

lemma ldInstall_files:
  "\<exists>r w1. writeUnit E (ldPlist s) (renderPlist (ldBin s)) w = (r, w1) \<and> swFiles (snd (ldInstall E s w)) = swFiles w1
     \<and> (fst (ldInstall E s w) = Inr () \<longrightarrow> r = Inr ())"
  by (auto simp: ldInstall_def split: sum.split prod.split bool.split dest!: runCmd_filesD)

lemma sdUninstall_files:
  "\<exists>w0. swFiles w0 = swFiles w \<and> swFiles (snd (sdUninstall E s w)) = swFiles (snd (removeUnit E (sdUnit s) w0))
     \<and> fst (sdUninstall E s w) = fst (removeUnit E (sdUnit s) w0)"
  by (rule exI [of _ "snd (runCmd E (systemctl ''stop'') (snd (runCmd E (systemctl ''disable'') w)))"])
    (simp add: sdUninstall_def split: sum.split prod.split)

lemma ldUninstall_files:
  "\<exists>w0. swFiles w0 = swFiles w \<and> swFiles (snd (ldUninstall E s w)) = swFiles (snd (removeUnit E (ldPlist s) w0))
     \<and> fst (ldUninstall E s w) = fst (removeUnit E (ldPlist s) w0)"
  by (rule exI [of _ "snd (runCmd E [''launchctl'', ''bootout'', ldDomain s, ldPlist s] w)"]) (simp add: ldUninstall_def)

interpretation sd: unit_manager "sdInstall E" "sdUninstall E" sdUnit "\<lambda>s. renderUnit (sdBin s)" swFiles for E :: "'u svcEnv"
proof
  fix m k and w w' :: "'u svcWorld"
  obtain r w1 where i: "writeUnit E (sdUnit m) (renderUnit (sdBin m)) w = (r, w1)" "swFiles (snd (sdInstall E m w)) = swFiles w1"
    "fst (sdInstall E m w) = Inr () \<longrightarrow> r = Inr ()" using sdInstall_files [of E m w] by blast
  obtain w0 where u: "swFiles w0 = swFiles w" "swFiles (snd (sdUninstall E m w)) = swFiles (snd (removeUnit E (sdUnit m) w0))"
    "fst (sdUninstall E m w) = fst (removeUnit E (sdUnit m) w0)" using sdUninstall_files [of w E m] by blast
  obtain r2 w2 where x: "removeUnit E (sdUnit m) w0 = (r2, w2)" by (cases "removeUnit E (sdUnit m) w0")
  show "sdInstall E m w = (Inr (), w') \<Longrightarrow> tblGet fst (sdUnit m) (swFiles w') = Some (sdUnit m, renderUnit (sdBin m))"
    using i writeUnit_ok by fastforce
  show "k \<noteq> sdUnit m \<Longrightarrow> tblGet fst k (swFiles (snd (sdInstall E m w))) = tblGet fst k (swFiles w)" using i writeUnit_other by metis
  show "tblInv fst (swFiles w) \<Longrightarrow> tblInv fst (swFiles (snd (sdInstall E m w)))" using i writeUnit_inv by metis
  show "sdUninstall E m w = (Inr (), w') \<Longrightarrow> tblGet fst (sdUnit m) (swFiles w') = None" using u x removeUnit_ok by fastforce
  show "k \<noteq> sdUnit m \<Longrightarrow> tblGet fst k (swFiles (snd (sdUninstall E m w))) = tblGet fst k (swFiles w)" using u x removeUnit_other by fastforce
  show "tblInv fst (swFiles w) \<Longrightarrow> tblInv fst (swFiles (snd (sdUninstall E m w)))" using u x removeUnit_inv by fastforce
qed

interpretation ld: unit_manager "ldInstall E" "ldUninstall E" ldPlist "\<lambda>l. renderPlist (ldBin l)" swFiles for E :: "'u svcEnv"
proof
  fix m k and w w' :: "'u svcWorld"
  obtain r w1 where i: "writeUnit E (ldPlist m) (renderPlist (ldBin m)) w = (r, w1)" "swFiles (snd (ldInstall E m w)) = swFiles w1"
    "fst (ldInstall E m w) = Inr () \<longrightarrow> r = Inr ()" using ldInstall_files [of E m w] by blast
  obtain w0 where u: "swFiles w0 = swFiles w" "swFiles (snd (ldUninstall E m w)) = swFiles (snd (removeUnit E (ldPlist m) w0))"
    "fst (ldUninstall E m w) = fst (removeUnit E (ldPlist m) w0)" using ldUninstall_files [of w E m] by blast
  obtain r2 w2 where x: "removeUnit E (ldPlist m) w0 = (r2, w2)" by (cases "removeUnit E (ldPlist m) w0")
  show "ldInstall E m w = (Inr (), w') \<Longrightarrow> tblGet fst (ldPlist m) (swFiles w') = Some (ldPlist m, renderPlist (ldBin m))"
    using i writeUnit_ok by fastforce
  show "k \<noteq> ldPlist m \<Longrightarrow> tblGet fst k (swFiles (snd (ldInstall E m w))) = tblGet fst k (swFiles w)" using i writeUnit_other by metis
  show "tblInv fst (swFiles w) \<Longrightarrow> tblInv fst (swFiles (snd (ldInstall E m w)))" using i writeUnit_inv by metis
  show "ldUninstall E m w = (Inr (), w') \<Longrightarrow> tblGet fst (ldPlist m) (swFiles w') = None" using u x removeUnit_ok by fastforce
  show "k \<noteq> ldPlist m \<Longrightarrow> tblGet fst k (swFiles (snd (ldUninstall E m w))) = tblGet fst k (swFiles w)" using u x removeUnit_other by fastforce
  show "tblInv fst (swFiles w) \<Longrightarrow> tblInv fst (swFiles (snd (ldUninstall E m w)))" using u x removeUnit_inv by fastforce
qed

lemma sdInstall_cmds:
  "sdInstall E s w = (Inr (), w') \<Longrightarrow> swCmds w' = swCmds w @ [daemonReload, systemctl ''enable'']"
  by (auto simp: sdInstall_def writeUnit_def runCmd_def split: sum.splits prod.splits bool.splits if_splits option.splits)


definition demoSvc :: "unit svcEnv" where
  "demoSvc = \<lparr>svHome = Some ''/h'', svUid = 501, svRun = (\<lambda>_ u. (([], True), u)), svMkdir = (\<lambda>_ _. True), svWrite = (\<lambda>_ _. None),
     svRemove = (\<lambda>_ _. True)\<rparr>"


end
