(* ===== verification/Template.thy ===== *)
theory Template
  imports Supervisor
begin

text \<open>
  \<open>plugins/template\<close>: the reference plugin, composed with the supervisor that runs it. A run of its
  \<open>Start\<close> is the time of the hello and the times of the ticks that fire before its context ends; every
  emit goes through \<open>emitFor\<close>. The JSON encoder is an argument.
\<close>

record template =
  tlHost :: string
  tlInterval :: duration
  tlPanic :: bool
  tlHb :: heartbeat

definition defaultIntervalSeconds :: int where
  "defaultIntervalSeconds = 30"

text \<open>\<open>envPanic\<close> says whether \<open>SUPERGRAPH_TEMPLATE_PANIC\<close> is 1.\<close>

definition templateNew :: "bool \<Rightarrow> PluginConfig \<Rightarrow> template" where
  "templateNew envPanic c =
     (let raw = (case pcRaw c of None \<Rightarrow> [] | Some m \<Rightarrow> m) in
      \<lparr>tlHost = pcHostID c,
       tlInterval = (case at raw ''intervalSeconds'' of
          AInt n \<Rightarrow> durMul n second | AInt64 n \<Rightarrow> durMul n second | AFloat a b \<Rightarrow> durMul (floatTrunc a b) second
        | _ \<Rightarrow> defaultIntervalSeconds * second),
       tlPanic = (envPanic \<or> at raw ''panic'' = ABool True),
       tlHb = \<lparr>count = 0, last = None\<rparr>\<rparr>)"

definition templateMigrate :: "'a core_db_scheme \<Rightarrow> unit res \<times> 'a core_db_scheme" where
  "templateMigrate s =
     (let (ok, s1) = stmt s in
      if \<not> ok then (Inl ''template: migrate'', s1) else (Inr (), createTable ''template_state'' s1))"

definition templateCursor :: "template \<Rightarrow> string" where
  "templateCursor p = ''n='' @ itoa (count (tlHb p))"

definition templateEnvelope :: "(any \<Rightarrow> string) \<Rightarrow> string \<Rightarrow> string \<Rightarrow> string \<Rightarrow> int \<Rightarrow> instant \<Rightarrow> envelope" where
  "templateEnvelope marshal host typ msg n now =
     \<lparr>TS = now, Source = ''template'', EType = typ, V = 2, Key = ''template:hello@'' @ host,
      Payload = marshal (AObj [(''msg'', AStr msg), (''n'', AInt64 n)])\<rparr>"

text \<open>The envelope is built from the heartbeat, then handed to the supervisor; \<open>None\<close> is a panic of the bus.\<close>

definition templateEmit ::
  "(any \<Rightarrow> string) \<Rightarrow> string \<Rightarrow> string \<Rightarrow> instant \<Rightarrow> template \<Rightarrow> ('w, 'x) supervisor \<Rightarrow> (unit res \<times> template \<times> ('w, 'x) supervisor) option" where
  "templateEmit marshal typ msg now p sv =
     (case Mark now (tlHb p) of
        ((n, t), hb) \<Rightarrow>
          map_option (\<lambda>(r, sv'). (r, p\<lparr>tlHb := hb\<rparr>, sv')) (emitFor ''template'' (templateEnvelope marshal (tlHost p) typ msg n t) sv))"

fun templateTicks ::
  "(any \<Rightarrow> string) \<Rightarrow> instant list \<Rightarrow> template \<Rightarrow> ('w, 'x) supervisor \<Rightarrow> (start_end \<times> template \<times> ('w, 'x) supervisor) option" where
  "templateTicks marshal [] p sv = Some (Returned, p, sv)"
| "templateTicks marshal (now # ts) p sv =
     (case templateEmit marshal ''template.tick'' ''tick'' now p sv of
        None \<Rightarrow> None
      | Some (Inl e, p1, sv1) \<Rightarrow> Some (Failed e, p1, sv1)
      | Some (Inr _, p1, sv1) \<Rightarrow> templateTicks marshal ts p1 sv1)"

text \<open>\<open>time.NewTicker\<close> panics when its interval is not positive.\<close>

definition templateStart ::
  "(any \<Rightarrow> string) \<Rightarrow> instant \<Rightarrow> instant list \<Rightarrow> template \<Rightarrow> ('w, 'x) supervisor \<Rightarrow> (start_end \<times> template \<times> ('w, 'x) supervisor) option" where
  "templateStart marshal now ticks p sv =
     (case templateEmit marshal ''template.hello'' ''hello'' now p sv of
        None \<Rightarrow> None
      | Some (Inl e, p1, sv1) \<Rightarrow> Some (Failed e, p1, sv1)
      | Some (Inr _, p1, sv1) \<Rightarrow>
          if tlPanic p then Some (Panicked ''template: induced panic'', p1, sv1)
          else if tlInterval p \<le> 0 then Some (Panicked ''non-positive interval for NewTicker'', p1, sv1)
          else templateTicks marshal ticks p1 sv1)"

subsection \<open>Lemmas\<close>

text \<open>A supervisor in working order for plugin \<open>n\<close>: it is not stopped, its bus is sound after \<open>tr\<close>, the ring of the plugin holds
  the newest of \<open>es\<close> and no statement on it fails.\<close>

definition calmSv :: "string \<Rightarrow> bus_ev list \<Rightarrow> envelope list \<Rightarrow> ('w, 'x) supervisor \<Rightarrow> bool" where
  "calmSv n tr es sv \<longleftrightarrow> \<not> stopped sv \<and> busInv tr (svBus sv) \<and> coreInv (disk sv n)
     \<and> faults (disk sv n) = [] \<and> ringOf (disk sv n) (lastN (ringCapacity (disk sv n)) es)"

text \<open>What emitting leaves alone: the registry, the ring capacity, the threshold and everything of the other plugins.\<close>

definition othersSame :: "string \<Rightarrow> ('w, 'x) supervisor \<Rightarrow> ('w, 'x) supervisor \<Rightarrow> bool" where
  "othersSame n sv sv' \<longleftrightarrow> running sv' = running sv \<and> svPlugins sv' = svPlugins sv
     \<and> ringCapacity (disk sv' n) = ringCapacity (disk sv n) \<and> threshold (health sv') = threshold (health sv)
     \<and> forcedStale (entry n (health sv')) = forcedStale (entry n (health sv))
     \<and> (tblInv fst (plugins (health sv)) \<longrightarrow> tblInv fst (plugins (health sv')))
     \<and> (\<forall>m. m \<noteq> n \<longrightarrow> disk sv' m = disk sv m \<and> entry m (health sv') = entry m (health sv)
          \<and> tblHas fst m (plugins (health sv')) = tblHas fst m (plugins (health sv)))"

lemma othersSame_refl: "othersSame n sv sv"
  by (simp add: othersSame_def)

lemma othersSame_trans: "othersSame n a b \<Longrightarrow> othersSame n b c \<Longrightarrow> othersSame n a c"
  by (simp add: othersSame_def)

lemma emitFor_calm:
  assumes "calmSv n tr es sv" "fourDigitYear (TS e)"
  shows "\<exists>sv'. emitFor n e sv = Some (Inr (), sv') \<and> calmSv n (EvPublish e # tr) (es @ [e]) sv' \<and> othersSame n sv sv'
    \<and> lastEventAt (entry n (health sv')) = Some (TS e)"
proof -
  let ?d = "disk sv n"
  have c: "\<not> stopped sv" "busInv tr (svBus sv)" "coreInv ?d" "faults ?d = []" "ringOf ?d (lastN (ringCapacity ?d) es)"
    using assms(1) by (simp_all add: calmSv_def)
  obtain b where b: "publish e (svBus sv) = Some b" "busInv (EvPublish e # tr) b" using publish_inv [OF c(2)] by blast
  let ?sv' = "sv\<lparr>disk := (disk sv)(n := ringPush e ?d), health := Record n (TS e) (health sv), svBus := b\<rparr>"
  have push: "ringOf (ringPush e ?d) (lastN (ringCapacity ?d) (es @ [e]))" using ringOf_push [OF c(5) assms(2)] by (simp add: lastN_snoc)
  have fields: "faults (ringPush e ?d) = []" "ringCapacity (ringPush e ?d) = ringCapacity ?d" using c(4) by (simp_all add: ringPush_def)
  have "emitFor n e sv = Some (Inr (), ?sv')" using c b by (simp add: emitFor_def)
  moreover have "calmSv n (EvPublish e # tr) (es @ [e]) ?sv'" using c b push fields by (simp add: calmSv_def)
  moreover have "othersSame n sv ?sv'" using fields by (simp add: othersSame_def health_ops)
  ultimately show ?thesis by (intro exI [of _ ?sv'] conjI) (simp_all add: health_ops)
qed

text \<open>A plugin that emits with a heartbeat: each emit takes the next number and the time from it and goes through the supervisor, and the
  ticks repeat it until one fails.\<close>

fun beats :: "(int \<Rightarrow> instant \<Rightarrow> envelope) \<Rightarrow> int \<Rightarrow> instant list \<Rightarrow> envelope list" where
  "beats env c [] = []"
| "beats env c (t # ts) = env (c + 1) t # beats env (c + 1) ts"

locale beating =
  fixes name :: string and hb :: "'p \<Rightarrow> heartbeat" and setHb :: "heartbeat \<Rightarrow> 'p \<Rightarrow> 'p" and env :: "'p \<Rightarrow> 'k \<Rightarrow> int \<Rightarrow> instant \<Rightarrow> envelope"
    and emit :: "'k \<Rightarrow> instant \<Rightarrow> 'p \<Rightarrow> ('w, 'x) supervisor \<Rightarrow> (unit res \<times> 'p \<times> ('w, 'x) supervisor) option"
    and tick :: 'k and ticks :: "instant list \<Rightarrow> 'p \<Rightarrow> ('w, 'x) supervisor \<Rightarrow> (start_end \<times> 'p \<times> ('w, 'x) supervisor) option"
  assumes emit_eq: "emit k now p sv = (case Mark now (hb p) of ((n, t), h) \<Rightarrow>
      map_option (\<lambda>(r, sv'). (r, setHb h p, sv')) (emitFor name (env p k n t) sv))"
    and env_TS: "TS (env p k n t) = t" and hb_set: "hb (setHb h p) = h" and env_set: "env (setHb h p) = env p"
    and ticks_Nil: "ticks [] p sv = Some (Returned, p, sv)"
    and ticks_Cons: "ticks (t # ts) p sv = (case emit tick t p sv of None \<Rightarrow> None
      | Some (Inl e, p1, sv1) \<Rightarrow> Some (Failed e, p1, sv1) | Some (Inr _, p1, sv1) \<Rightarrow> ticks ts p1 sv1)"
begin

lemma emit_calm:
  assumes "calmSv name tr es sv" "in64 (count (hb p) + 1)" "fourDigitYear now" "e = env p k (count (hb p) + 1) now"
  shows "\<exists>sv'. emit k now p sv = Some (Inr (), setHb \<lparr>count = count (hb p) + 1, last = Some now\<rparr> p, sv')
    \<and> calmSv name (EvPublish e # tr) (es @ [e]) sv' \<and> othersSame name sv sv' \<and> lastEventAt (entry name (health sv')) = Some now"
  using emitFor_calm [OF assms(1), of e] assms(2-) by (auto simp: emit_eq Mark_def Let_def wrap64_id env_TS)

lemma ticks_calm:
  assumes "calmSv name tr es sv" "0 \<le> count (hb p)" "in64 (count (hb p) + int (length ts))" "list_all fourDigitYear ts"
    "lastEventAt (entry name (health sv)) = Some t0"
  shows "\<exists>p' sv'. ticks ts p sv = Some (Returned, p', sv')
    \<and> calmSv name (map EvPublish (rev (beats (env p tick) (count (hb p)) ts)) @ tr) (es @ beats (env p tick) (count (hb p)) ts) sv'
    \<and> othersSame name sv sv' \<and> count (hb p') = count (hb p) + int (length ts)
    \<and> lastEventAt (entry name (health sv')) = Some (List.last (t0 # ts))"
  using assms
proof (induction ts arbitrary: p sv tr es t0)
  case Nil
  then show ?case by (simp add: othersSame_refl ticks_Nil)
next
  case (Cons t ts)
  let ?c = "count (hb p)"
  let ?e = "env p tick (?c + 1) t"
  let ?p = "setHb \<lparr>count = ?c + 1, last = Some t\<rparr> p"
  have "in64 (?c + 1)" using Cons.prems(2,3) by (simp add: in64_def)
  then obtain sv1 where e: "emit tick t p sv = Some (Inr (), ?p, sv1)" "calmSv name (EvPublish ?e # tr) (es @ [?e]) sv1"
      "othersSame name sv sv1" "lastEventAt (entry name (health sv1)) = Some t"
    using emit_calm [OF Cons.prems(1), of p t ?e tick] Cons.prems(4) by auto
  have "0 \<le> count (hb ?p)" "in64 (count (hb ?p) + int (length ts))" "list_all fourDigitYear ts"
    using Cons.prems by (simp_all add: algebra_simps hb_set)
  from Cons.IH [OF e(2) this e(4)] obtain p' sv' where
    "ticks ts ?p sv1 = Some (Returned, p', sv')"
    "calmSv name (map EvPublish (rev (beats (env p tick) (?c + 1) ts)) @ EvPublish ?e # tr) ((es @ [?e]) @ beats (env p tick) (?c + 1) ts) sv'"
    "othersSame name sv1 sv'" "count (hb p') = ?c + 1 + int (length ts)"
    "lastEventAt (entry name (health sv')) = Some (List.last (t # ts))" by (auto simp: hb_set env_set)
  with e othersSame_trans [OF e(3)] show ?case by (intro exI [of _ p'] exI [of _ sv']) (simp add: ticks_Cons)
qed

end

fun tickEvents :: "(any \<Rightarrow> string) \<Rightarrow> string \<Rightarrow> int \<Rightarrow> instant list \<Rightarrow> envelope list" where
  "tickEvents marshal host c [] = []"
| "tickEvents marshal host c (t # ts) = templateEnvelope marshal host ''template.tick'' ''tick'' (c + 1) t # tickEvents marshal host (c + 1) ts"

lemma tickEvents_beats: "beats (templateEnvelope marshal host ''template.tick'' ''tick'') c ts = tickEvents marshal host c ts"
  by (induction ts arbitrary: c) simp_all

interpretation tb: beating "''template''" tlHb "\<lambda>h p. p\<lparr>tlHb := h\<rparr>" "\<lambda>p (typ, msg). templateEnvelope marshal (tlHost p) typ msg"
    "\<lambda>(typ, msg). templateEmit marshal typ msg" "(''template.tick'', ''tick'')" "templateTicks marshal" for marshal
  by unfold_locales (auto simp: templateEmit_def templateEnvelope_def fun_eq_iff)

lemma templateEmit_calm:
  assumes "calmSv ''template'' tr es sv" "in64 (count (tlHb p) + 1)" "fourDigitYear now"
    and "e = templateEnvelope marshal (tlHost p) typ msg (count (tlHb p) + 1) now"
  shows "\<exists>sv'. templateEmit marshal typ msg now p sv = Some (Inr (), p\<lparr>tlHb := \<lparr>count = count (tlHb p) + 1, last = Some now\<rparr>\<rparr>, sv')
    \<and> calmSv ''template'' (EvPublish e # tr) (es @ [e]) sv' \<and> othersSame ''template'' sv sv' \<and> lastEventAt (entry ''template'' (health sv')) = Some now"
  using tb.emit_calm [OF assms(1-3), of e marshal "(typ, msg)"] assms(4) by simp

lemmas templateTicks_calm = tb.ticks_calm [unfolded prod.case tickEvents_beats]

text \<open>C36. A run of the reference plugin through core: with a working store, the hello and every tick are stored, published and
  stamped in order, numbered from 1, and are what \<open>Events\<close> reads back; the cursor counts them; the plugin returns when its context ends; and nothing of
  another plugin changes.\<close>

theorem template_lifecycle:
  fixes sv :: "('w, 'x) supervisor"
  assumes "calmSv ''template'' tr [] sv" and "p = templateNew False c" and "\<not> tlPanic p" and "0 < tlInterval p"
    and "list_all fourDigitYear (t0 # ts)" and "int (length ts) < 2 ^ 62"
  shows "let es = templateEnvelope marshal (pcHostID c) ''template.hello'' ''hello'' 1 t0 # tickEvents marshal (pcHostID c) 1 ts in
    \<exists>p' sv'. templateStart marshal t0 ts p sv = Some (Returned, p', sv')
      \<and> fst (Events limit (disk sv' ''template'')) = Inr (sqlLimit limit (rev (lastN (ringCapacity (disk sv ''template'')) es)))
      \<and> busInv (map EvPublish (rev es) @ tr) (svBus sv') \<and> othersSame ''template'' sv sv'
      \<and> lastEventAt (entry ''template'' (health sv')) = Some (List.last (t0 # ts))
      \<and> templateCursor p' = ''n='' @ itoa (int (length ts) + 1)"
proof -
  have p: "tlHost p = pcHostID c" "count (tlHb p) = 0" by (simp_all add: assms(2) templateNew_def Let_def)
  let ?e = "templateEnvelope marshal (pcHostID c) ''template.hello'' ''hello'' 1 t0"
  let ?es = "?e # tickEvents marshal (pcHostID c) 1 ts"
  let ?p = "p\<lparr>tlHb := \<lparr>count = 1, last = Some t0\<rparr>\<rparr>"
  have "in64 (count (tlHb p) + 1)" by (simp add: p in64_def)
  then obtain sv1 where e: "templateEmit marshal ''template.hello'' ''hello'' t0 p sv = Some (Inr (), ?p, sv1)"
    "calmSv ''template'' (EvPublish ?e # tr) [?e] sv1" "othersSame ''template'' sv sv1" "lastEventAt (entry ''template'' (health sv1)) = Some t0"
    using templateEmit_calm [OF assms(1), of p t0 ?e marshal "''template.hello''" "''hello''"] assms(5) by (auto simp: p)
  have "0 \<le> count (tlHb ?p)" "in64 (count (tlHb ?p) + int (length ts))" using assms(6) by (simp_all add: in64_def)
  from templateTicks_calm [OF e(2) this _ e(4), of marshal] assms(5) obtain p' sv' where
    r: "templateTicks marshal ts ?p sv1 = Some (Returned, p', sv')"
      "calmSv ''template'' (map EvPublish (rev (tickEvents marshal (pcHostID c) 1 ts)) @ EvPublish ?e # tr) ?es sv'"
      "othersSame ''template'' sv1 sv'" "count (tlHb p') = 1 + int (length ts)"
      "lastEventAt (entry ''template'' (health sv')) = Some (List.last (t0 # ts))" by (auto simp: p)
  have o: "othersSame ''template'' sv sv'" using othersSame_trans [OF e(3) r(3)] .
  have "templateStart marshal t0 ts p sv = Some (Returned, p', sv')"
    using e(1) r(1) assms(3,4) by (simp add: templateStart_def)
  moreover have "fst (Events limit (disk sv' ''template'')) = Inr (sqlLimit limit (rev (lastN (ringCapacity (disk sv ''template'')) ?es)))"
    using r(2) o Events_ringOf [of "disk sv' ''template''"] by (auto simp: calmSv_def othersSame_def)
  moreover have "busInv (map EvPublish (rev ?es) @ tr) (svBus sv')" using r(2) by (simp add: calmSv_def)
  moreover have "templateCursor p' = ''n='' @ itoa (int (length ts) + 1)" by (simp add: templateCursor_def r(4) add.commute)
  ultimately show ?thesis using r(5) o unfolding Let_def by blast
qed

text \<open>An interval that is not positive after the conversion to nanoseconds, such as 0 or one whose product wraps, crashes the
  plugin after its hello.\<close>

lemma template_bad_interval:
  assumes "calmSv ''template'' tr [] sv" "tlInterval p \<le> 0" "count (tlHb p) = 0" "fourDigitYear t0"
  shows "\<exists>x p' sv'. templateStart marshal t0 ts p sv = Some (Panicked x, p', sv')"
  using templateEmit_calm [OF assms(1), of p t0 _ marshal "''template.hello''" "''hello''"] assms(2-)
  by (auto simp: templateStart_def in64_def)

lemma template_interval_wraps:
  "tlInterval (templateNew False \<lparr>pcHostID = h, pcDataDir = d, pcRaw = Some [(''intervalSeconds'', AInt64 9223372037)]\<rparr>) < 0"
  "tlInterval (templateNew False \<lparr>pcHostID = h, pcDataDir = d, pcRaw = Some [(''intervalSeconds'', AInt64 0)]\<rparr>) = 0"
  by (simp_all add: templateNew_def durMul_def wrap64_def second_def nsPerSec_def)

theorem template_lifecycle_witness:
  "\<exists>p' sv'. templateStart (\<lambda>_. []) 0 [30000000000] (templateNew False \<lparr>pcHostID = ''h'', pcDataDir = [], pcRaw = None\<rparr>)
      (NewSupervisor (demoConfig [] []) [] (NewHealthAggregator 5) NewBus (\<lambda>_. freshDb [] \<lparr>ringCapacity := 5\<rparr>) :: (unit, unit) supervisor)
        = Some (Returned, p', sv') \<and> templateCursor p' = ''n=2''"
proof -
  let ?sv = "NewSupervisor (demoConfig [] []) [] (NewHealthAggregator 5) NewBus (\<lambda>_. freshDb [] \<lparr>ringCapacity := 5\<rparr>) :: (unit, unit) supervisor"
  let ?c = "\<lparr>pcHostID = ''h'', pcDataDir = [], pcRaw = None\<rparr>"
  have "calmSv ''template'' [] [] ?sv"
    using busInv_init by (simp add: calmSv_def NewSupervisor_def freshDb_def coreInv_def ringOf_def lastN_def)
  moreover have "\<not> tlPanic (templateNew False ?c)" "0 < tlInterval (templateNew False ?c)"
    by (simp_all add: templateNew_def defaultIntervalSeconds_def second_def nsPerSec_def)
  moreover have "list_all fourDigitYear [0, 30000000000]" by code_simp
  moreover have "itoa 2 = ''2''" by code_simp
  ultimately show ?thesis
    using template_lifecycle [of "[]" ?sv "templateNew False ?c" ?c 0 "[30000000000]" "\<lambda>_. []" 5] by (auto simp: Let_def)
qed

end
