(* ===== verification/Harness.thy ===== *)
theory Harness
  imports Template Server
begin

text \<open>
  The plugins of the end-to-end harness: \<open>plugins/fakeok\<close>, which stays healthy while a sibling fails, and
  \<open>plugins/fakeremote\<close>, which stands in for the executor of another machine. The ticker is the list of times it fires before the
  context ends; the JSON encoders are arguments.
\<close>

subsection \<open>fakeok\<close>

record fakeok =
  fkHost :: string
  fkHb :: heartbeat

definition fakeokNew :: "PluginConfig \<Rightarrow> fakeok" where
  "fakeokNew c = \<lparr>fkHost = pcHostID c, fkHb = \<lparr>count = 0, last = None\<rparr>\<rparr>"

definition fakeokEnvelope :: "(any \<Rightarrow> string) \<Rightarrow> string \<Rightarrow> string \<Rightarrow> int \<Rightarrow> instant \<Rightarrow> envelope" where
  "fakeokEnvelope marshal host typ n now =
     \<lparr>TS = now, Source = ''fakeok'', EType = typ, V = 1, Key = ''fakeok:heartbeat@'' @ host, Payload = marshal (AObj [(''n'', AInt64 n)])\<rparr>"

definition fakeokEmit ::
  "(any \<Rightarrow> string) \<Rightarrow> string \<Rightarrow> instant \<Rightarrow> fakeok \<Rightarrow> ('w, 'x) supervisor \<Rightarrow> (unit res \<times> fakeok \<times> ('w, 'x) supervisor) option" where
  "fakeokEmit marshal typ now p sv =
     (case Mark now (fkHb p) of
        ((n, t), hb) \<Rightarrow>
          map_option (\<lambda>(r, sv'). (r, p\<lparr>fkHb := hb\<rparr>, sv')) (emitFor ''fakeok'' (fakeokEnvelope marshal (fkHost p) typ n t) sv))"

fun fakeokTicks ::
  "(any \<Rightarrow> string) \<Rightarrow> instant list \<Rightarrow> fakeok \<Rightarrow> ('w, 'x) supervisor \<Rightarrow> (start_end \<times> fakeok \<times> ('w, 'x) supervisor) option" where
  "fakeokTicks marshal [] p sv = Some (Returned, p, sv)"
| "fakeokTicks marshal (now # ts) p sv =
     (case fakeokEmit marshal ''fakeok.tick'' now p sv of
        None \<Rightarrow> None
      | Some (Inl e, p1, sv1) \<Rightarrow> Some (Failed e, p1, sv1)
      | Some (Inr _, p1, sv1) \<Rightarrow> fakeokTicks marshal ts p1 sv1)"

definition fakeokStart ::
  "(any \<Rightarrow> string) \<Rightarrow> instant \<Rightarrow> instant list \<Rightarrow> fakeok \<Rightarrow> ('w, 'x) supervisor \<Rightarrow> (start_end \<times> fakeok \<times> ('w, 'x) supervisor) option" where
  "fakeokStart marshal now ticks p sv =
     (case fakeokEmit marshal ''fakeok.hello'' now p sv of
        None \<Rightarrow> None
      | Some (Inl e, p1, sv1) \<Rightarrow> Some (Failed e, p1, sv1)
      | Some (Inr _, p1, sv1) \<Rightarrow> fakeokTicks marshal ticks p1 sv1)"

subsection \<open>fakeremote\<close>

text \<open>A seeded node is its key and the text of its body.\<close>

record fakeremote =
  frHost :: string
  frNodes :: "(string \<times> string) list"

definition seedOf :: "any \<Rightarrow> (string \<times> string) option" where
  "seedOf e =
     (case asObj e of
        None \<Rightarrow> None
      | Some m \<Rightarrow>
          let key = (case asStr (at m ''key'') of None \<Rightarrow> [] | Some s \<Rightarrow> s);
              body = (case asStr (at m ''body'') of None \<Rightarrow> [] | Some s \<Rightarrow> s)
          in if key \<noteq> [] then Some (key, body) else None)"

definition fakeremoteNew :: "PluginConfig \<Rightarrow> fakeremote" where
  "fakeremoteNew c =
     \<lparr>frHost = pcHostID c,
      frNodes = (case pcRaw c of None \<Rightarrow> []
                 | Some raw \<Rightarrow> (case asArr (at raw ''nodes'') of None \<Rightarrow> [] | Some l \<Rightarrow> List.map_filter seedOf l))\<rparr>"

text \<open>\<open>Start\<close> ignores the result of its one emit and returns when the context is done; \<open>None\<close> is a panic of the bus.\<close>

definition fakeremoteStart :: "instant \<Rightarrow> fakeremote \<Rightarrow> ('w, 'x) supervisor \<Rightarrow> (start_end \<times> ('w, 'x) supervisor) option" where
  "fakeremoteStart now p sv =
     map_option (\<lambda>(_, sv'). (Returned, sv'))
       (emitFor ''fakeremote'' \<lparr>TS = now, Source = ''fakeremote'', EType = ''fakeremote.hello'', V = 1,
          Key = ''fakeremote:hello@'' @ frHost p, Payload = ''{}''\<rparr> sv)"

text \<open>The executor route. \<open>encode\<close> is the encoder of \<open>{"nodes": [{"key", "node"}]}\<close>; it fails, and the body stays empty, when
  a seeded body is not JSON. The request only goes to the log.\<close>

definition fakeremoteHandle :: "((string \<times> string) list \<Rightarrow> string option) \<Rightarrow> fakeremote \<Rightarrow> 'u handler" where
  "fakeremoteHandle encode p r w =
     (\<lparr>rsStatus = 200, rsHeaders = [(''Content-Type'', ''application/json'')],
       rsBody = (case encode (frNodes p) of None \<Rightarrow> [] | Some b \<Rightarrow> b)\<rparr>, w)"

definition fakeremoteRoutes :: "((string \<times> string) list \<Rightarrow> string option) \<Rightarrow> fakeremote \<Rightarrow> (string \<times> 'u handler) list" where
  "fakeremoteRoutes encode p = [(''graphql'', fakeremoteHandle encode p)]"

subsection \<open>Lemmas\<close>

interpretation fb: beating "''fakeok''" fkHb "\<lambda>h p. p\<lparr>fkHb := h\<rparr>" "\<lambda>p typ. fakeokEnvelope marshal (fkHost p) typ"
    "fakeokEmit marshal" "''fakeok.tick''" "fakeokTicks marshal" for marshal
  by unfold_locales (auto simp: fakeokEmit_def fakeokEnvelope_def)

lemma fakeokStart_calm:
  assumes "calmSv ''fakeok'' tr es sv" "count (fkHb p) = 0" "list_all fourDigitYear (t0 # ts)" "int (length ts) < 2 ^ 62"
  shows "\<exists>p' sv'. fakeokStart marshal t0 ts p sv = Some (Returned, p', sv') \<and> othersSame ''fakeok'' sv sv'
    \<and> lastEventAt (entry ''fakeok'' (health sv')) = Some (List.last (t0 # ts))"
proof -
  let ?p = "p\<lparr>fkHb := \<lparr>count = 1, last = Some t0\<rparr>\<rparr>"
  obtain sv1 e where e: "fakeokEmit marshal ''fakeok.hello'' t0 p sv = Some (Inr (), ?p, sv1)"
    "calmSv ''fakeok'' (EvPublish e # tr) (es @ [e]) sv1" "othersSame ''fakeok'' sv sv1" "lastEventAt (entry ''fakeok'' (health sv1)) = Some t0"
    using fb.emit_calm [OF assms(1), of p t0 _ marshal "''fakeok.hello''"] assms(2,3) by (auto simp: in64_def)
  have "0 \<le> count (fkHb ?p)" "in64 (count (fkHb ?p) + int (length ts))" using assms(4) by (simp_all add: in64_def)
  from fb.ticks_calm [OF e(2) this _ e(4), of marshal] assms(3) obtain p' sv' where
    "fakeokTicks marshal ts ?p sv1 = Some (Returned, p', sv')" "othersSame ''fakeok'' sv1 sv'"
    "lastEventAt (entry ''fakeok'' (health sv')) = Some (List.last (t0 # ts))" by auto
  with e(1,3) show ?thesis by (auto simp: fakeokStart_def intro: othersSame_trans)
qed

lemma templateStart_panics:
  assumes "calmSv ''template'' tr es sv" "tlPanic p" "count (tlHb p) = 0" "fourDigitYear t0"
  shows "\<exists>e x p' sv'. templateStart marshal t0 ts p sv = Some (Panicked x, p', sv') \<and> calmSv ''template'' (EvPublish e # tr) (es @ [e]) sv'
    \<and> othersSame ''template'' sv sv'"
  using templateEmit_calm [OF assms(1) _ assms(4) refl, of p marshal "''template.hello''" "''hello''"] assms(2,3)
  by (auto simp: templateStart_def in64_def)

lemma tracked_nondefault: "lastEventAt (entry n h) \<noteq> None \<or> forcedStale (entry n h) \<Longrightarrow> (n, entry n h) \<in> set (plugins h)"
  by (rule tracked_entry) (auto simp: entry_def tblHas_get split: option.splits prod.splits dest: tblGet_fst)

lemma calm_other: "calmSv n tr es sv \<Longrightarrow> calmSv m tr' fs sv' \<Longrightarrow> disk sv' n = disk sv n \<Longrightarrow> calmSv n tr' es sv'"
  by (simp add: calmSv_def)

text \<open>A plugin that panics in its \<open>Start\<close> leaves its sibling healthy: the template plugin, told to panic, ends in the panic it was told, the fakeok plugin
  runs its hello and its ticks to the end of its context, and a snapshot taken within the threshold of its last tick shows the one stale and the other ok.\<close>

theorem panic_isolated:
  fixes sv :: "('w, 'x) supervisor"
  assumes "calmSv ''template'' tr es sv" and "calmSv ''fakeok'' tr fs sv" and "tlPanic p" and "count (tlHb p) = 0"
    and "tblGet fst ''template'' (svPlugins sv) = Some (''template'', pl)" and "plName pl = ''template''"
    and "\<not> forcedStale (entry ''fakeok'' (health sv))"
    and "list_all fourDigitYear (t0 # u0 # us)" and "int (length us) < 2 ^ 62"
  shows "\<exists>x p' sv1 q' sv2. templateStart marshal t0 ts p sv = Some (Panicked x, p', sv1)
    \<and> fakeokStart marshal u0 us (fakeokNew c) (runPluginEnd ''template'' (Panicked x) sv1) = Some (Returned, q', sv2)
    \<and> (\<forall>now w. timeSub now (List.last (u0 # us)) \<le> threshold (health sv) \<longrightarrow>
         (\<exists>s \<in> set (Snapshot now w (health sv2)). hsPlugin s = ''fakeok'' \<and> hsState s = HealthOK)
         \<and> (\<exists>s \<in> set (Snapshot now w (health sv2)). hsPlugin s = ''template'' \<and> hsState s = HealthStale))"
proof -
  obtain e x p' sv1 where t: "templateStart marshal t0 ts p sv = Some (Panicked x, p', sv1)"
      "calmSv ''template'' (EvPublish e # tr) (es @ [e]) sv1" "othersSame ''template'' sv sv1"
    using templateStart_panics [OF assms(1,3,4)] assms(8) by fastforce
  define sve where "sve = runPluginEnd ''template'' (Panicked x) sv1"
  have sve: "sve = sv1\<lparr>running := remove1 ''template'' (running sv1), health := MarkStale ''template'' (health sv1)\<rparr>"
    using t(3) assms(5,6) by (simp add: sve_def runPluginEnd_def stopDead_def othersSame_def)
  have "calmSv ''fakeok'' (EvPublish e # tr) fs sv1"
    using calm_other [OF assms(2) t(2)] t(3) by (simp add: othersSame_def)
  then have "calmSv ''fakeok'' (EvPublish e # tr) fs sve" by (simp add: sve calmSv_def)
  from fakeokStart_calm [OF this, of "fakeokNew c" u0 us marshal] assms(8,9) obtain q' sv2 where
    f: "fakeokStart marshal u0 us (fakeokNew c) sve = Some (Returned, q', sv2)" "othersSame ''fakeok'' sve sv2"
      "lastEventAt (entry ''fakeok'' (health sv2)) = Some (List.last (u0 # us))" by (auto simp: fakeokNew_def)
  let ?h = "health sv2"
  have e: "forcedStale (entry ''template'' ?h)" "\<not> forcedStale (entry ''fakeok'' ?h)" "threshold ?h = threshold (health sv)"
    using f(2) t(3) assms(7) by (simp_all add: othersSame_def sve MarkStale_def)
  have "(\<exists>s \<in> set (Snapshot now w ?h). hsPlugin s = ''fakeok'' \<and> hsState s = HealthOK)
      \<and> (\<exists>s \<in> set (Snapshot now w ?h). hsPlugin s = ''template'' \<and> hsState s = HealthStale)"
    if "timeSub now (List.last (u0 # us)) \<le> threshold (health sv)" for now w
  proof
    show "\<exists>s \<in> set (Snapshot now w ?h). hsPlugin s = ''fakeok'' \<and> hsState s = HealthOK"
      using that f(3) e(2,3) tracked_nondefault [of "''fakeok''" ?h] unfolding set_Snapshot
      by (intro bexI [OF _ imageI]) (simp_all add: statusOf_state)
    show "\<exists>s \<in> set (Snapshot now w ?h). hsPlugin s = ''template'' \<and> hsState s = HealthStale"
      using e(1) tracked_nondefault [of "''template''" ?h] unfolding set_Snapshot
      by (intro bexI [OF _ imageI]) (simp_all add: statusOf_state)
  qed
  with t(1) f(1) show ?thesis unfolding sve_def by blast
qed

definition demoPair :: "(unit, unit) supervisor" where
  "demoPair = (NewSupervisor (demoConfig [] []) [] (NewHealthAggregator 5) NewBus (\<lambda>_. freshDb [] \<lparr>ringCapacity := 5\<rparr>))
     \<lparr>svPlugins := [(''template'', demoPlugin ''template'')], running := [''template'', ''fakeok'']\<rparr>"

theorem panic_isolated_witness:
  "let p = templateNew True \<lparr>pcHostID = ''h'', pcDataDir = [], pcRaw = None\<rparr> in
   \<exists>x p' sv1 q' sv2. templateStart (\<lambda>_. []) 0 [] p demoPair = Some (Panicked x, p', sv1)
     \<and> fakeokStart (\<lambda>_. []) 1 [] (fakeokNew \<lparr>pcHostID = ''h'', pcDataDir = [], pcRaw = None\<rparr>) (runPluginEnd ''template'' (Panicked x) sv1) = Some (Returned, q', sv2)
     \<and> (\<exists>s \<in> set (Snapshot 3 () (health sv2)). hsPlugin s = ''fakeok'' \<and> hsState s = HealthOK)"
proof -
  let ?p = "templateNew True \<lparr>pcHostID = ''h'', pcDataDir = [], pcRaw = None\<rparr>"
  have c: "calmSv n [] [] demoPair" for n
    using busInv_init by (simp add: calmSv_def demoPair_def NewSupervisor_def freshDb_def coreInv_def ringOf_def lastN_def)
  have p: "tlPanic ?p" "count (tlHb ?p) = 0" by (simp_all add: templateNew_def)
  have g: "tblGet fst ''template'' (svPlugins demoPair) = Some (''template'', demoPlugin ''template'')" "plName (demoPlugin ''template'') = ''template''"
    "\<not> forcedStale (entry ''fakeok'' (health demoPair))" "threshold (health demoPair) = 5"
    by (simp_all add: demoPair_def demoPlugin_def NewSupervisor_def NewHealthAggregator_def entry_def)
  have y: "list_all fourDigitYear [0, 1]" by code_simp
  have n: "timeSub 3 (List.last [1 :: instant]) \<le> 5" by code_simp
  have l: "int (length ([] :: instant list)) < 2 ^ 62" by simp
  from panic_isolated [OF c c p g(1,2,3) y l, of "\<lambda>_. []" "[]" "\<lparr>pcHostID = ''h'', pcDataDir = [], pcRaw = None\<rparr>"]
  show ?thesis unfolding Let_def g(4) using n by (elim exE conjE) (intro exI conjI, assumption, assumption, simp)
qed

end
