(* ===== verification/Federation.thy ===== *)
theory Federation
  imports Peer Harness
begin

text \<open>
  Two machines: the peer plugin of one (\<open>plugins/peer\<close>) pulls from the server of the other (\<open>server/server.go\<close>), whose
  plugin answers on its executor route. The wire between a client and a server is here, too.
\<close>

subsection \<open>The wire\<close>

text \<open>What the server at \<open>listen\<close> receives when a client sends a request to \<open>http://listen/path\<close>, and the transport that
  delivers it there.\<close>

definition overHttp :: "string \<Rightarrow> request \<Rightarrow> httpReq" where
  "overHttp listen r = \<lparr>rqMethod = reqMethod r, rqPath = drop (length (''http://'' @ listen)) (reqURL r),
     rqAuth = header (reqHeaders r) ''Authorization'', rqBody = reqBody r\<rparr>"

definition toServer :: "string \<Rightarrow> 'w handler \<Rightarrow> request \<Rightarrow> 'w \<Rightarrow> response option \<times> 'w" where
  "toServer listen h r w =
     (case h (overHttp listen r) w of (p, w') \<Rightarrow> (Some \<lparr>respStatus = rsStatus p, respHeaders = rsHeaders p, respBody = rsBody p\<rparr>, w'))"

lemma serverHandler_open:
  "serverHandler c gql hlth routes plugs r w =
     (if ListenIsLoopback (Listen c) \<or> (\<exists>t \<in> snd ` set (Tokens c). rqAuth r = ''Bearer '' @ t)
      then serverMux gql hlth routes plugs r w
      else ((httpError ''unauthorized'' 401)\<lparr>rsHeaders := [(''WWW-Authenticate'', ''Bearer'')]\<rparr>, w))"
  unfolding serverHandler_def Let_def bearerAuth_def bearer_iff [symmetric] by simp

lemma drop_url: "drop (length (''http://'' @ l)) (''http://'' @ l @ p) = p"
  by simp

subsection \<open>The executor route of a peer\<close>

lemma remote_path:
  "cleanPath ''/plugins/fakeremote/graphql'' = ''/plugins/fakeremote/graphql''"
  "pathMatches ''/graphql'' ''/plugins/fakeremote/graphql'' = False"
  "pathMatches ''/health'' ''/plugins/fakeremote/graphql'' = False"
  "pathMatches ''/plugins/'' ''/plugins/fakeremote/graphql'' = True"
  "hasSuffix ''/plugins/fakeremote/graphql'' ''/'' = False"
  "pathMatches ''/graphql'' ''/plugins/fakeremote/graphql/'' = False"
  "pathMatches ''/health'' ''/plugins/fakeremote/graphql/'' = False"
  "pathMatches ''/plugins/'' ''/plugins/fakeremote/graphql/'' = True"
  "pathMatches ''/plugins/fakeremote/graphql'' ''/plugins/fakeremote/graphql'' = True"
  "pathMatches ''/plugins/fakeremote/graphql'' ''/plugins/fakeremote/graphql/'' = False"
  "cut (CHR ''/'') (trimPrefix ''/plugins/fakeremote/graphql'' ''/plugins/'') = (''fakeremote'', ''graphql'', True)"
  "trimPrefix ''graphql'' ''/'' = ''graphql''"
  by code_simp+

lemma remote_routed:
  assumes "rqPath r = ''/plugins/fakeremote/graphql''" "rqMethod r = ''POST''"
    "tblGet fst ''fakeremote'' plugs = Some (''fakeremote'', q)" "routes q = Some [(''graphql'', h)]"
  shows "serverMux gql hlth routes plugs r w = h r w"
proof -
  have "pluginRoutesHandler routes plugs r w = h r w"
    unfolding pluginRoutesHandler_def assms(1) remote_path prod.case assms(3,4)
    using assms(1,2) by (simp add: serveMux_def Let_def methodMatches_def exactMatch_def remote_path assms(4))
  then show ?thesis
    using assms(1,2) by (simp add: serverMux_def serveMux_def Let_def methodMatches_def exactMatch_def remote_path)
qed

text \<open>With no failing statement the mirror keeps exactly the rows of its peer, in order.\<close>

definition keptNodes :: "string \<Rightarrow> instant \<Rightarrow> (string \<times> string) list \<Rightarrow> mirroredNode list" where
  "keptNodes host now ns = map (\<lambda>(k, b). \<lparr>mnKey = k, mnHost = host, mnJSON = b, mnLastSeenAt = now\<rparr>) (filter (\<lambda>(k, b). hostOf k = host) ns)"

lemma mirrorNodes_kept:
  assumes "faults (pdb p) = []" "host \<noteq> hostID (pcfg E)"
  shows "\<exists>p'. mirrorNodes E host now ns p = (Inr (keptNodes host now ns), p') \<and> pnet p' = pnet p
    \<and> pdb p' = (pdb p)\<lparr>peerNodes := fold (\<lambda>n. tblUpsert mrKey (mnRow n)) (keptNodes host now ns) (peerNodes (pdb p))\<rparr>"
  using assms(1)
proof (induction ns arbitrary: p)
  case Nil
  then show ?case by (simp add: keptNodes_def)
next
  case (Cons x ns)
  obtain k b where x: "x = (k, b)" by (cases x)
  show ?case
  proof (cases "hostOf k = host")
    case False
    then show ?thesis using Cons by (simp add: x keptNodes_def)
  next
    case True
    let ?n = "\<lparr>mnKey = k, mnHost = host, mnJSON = b, mnLastSeenAt = now\<rparr>"
    let ?q = "emitMirrored E ?n (p\<lparr>pdb := (pdb p)\<lparr>peerNodes := tblUpsert mrKey (mnRow ?n) (peerNodes (pdb p))\<rparr>\<rparr>)"
    have "onPdb (upsertNode ?n) p = (Inr (), p\<lparr>pdb := (pdb p)\<lparr>peerNodes := tblUpsert mrKey (mnRow ?n) (peerNodes (pdb p))\<rparr>\<rparr>)"
      using Cons.prems by (simp add: onPdb_def upsertNode_def)
    moreover obtain p' where "mirrorNodes E host now ns ?q = (Inr (keptNodes host now ns), p')" "pnet p' = pnet ?q"
        "pdb p' = (pdb ?q)\<lparr>peerNodes := fold (\<lambda>n. tblUpsert mrKey (mnRow n)) (keptNodes host now ns) (peerNodes (pdb ?q))\<rparr>"
      using Cons.IH [of ?q] Cons.prems by (auto simp: emitMirrored_def)
    ultimately show ?thesis using True assms(2) by (simp add: x keptNodes_def emitMirrored_def)
  qed
qed

text \<open>What the peer's server receives for a pull, and what it answers.\<close>

lemma trimRight_none: "xs \<noteq> [] \<Longrightarrow> List.last xs \<noteq> c \<Longrightarrow> trimRightByte c xs = xs"
  by (cases xs rule: rev_cases) (simp_all add: trimRightByte_def)

definition admits :: "Config \<Rightarrow> string \<Rightarrow> bool" where
  "admits c tok \<longleftrightarrow> ListenIsLoopback (Listen c) \<or> tok \<noteq> [] \<and> tok \<in> snd ` set (Tokens c)"

lemma postOp_remote:
  fixes E :: "'u peerEnv"
  assumes "pcURL pr = ''http://'' @ listen" "listen \<noteq> []" "List.last listen \<noteq> CHR ''/''"
    and "pDo E = toServer listen (serverHandler c gql hlth routes plugs)"
    and "tblGet fst ''fakeremote'' plugs = Some (''fakeremote'', q)" "routes q = Some (fakeremoteRoutes encode fr)"
    and "encode (frNodes fr) = Some b" "decodeResult E (take maxRespBytes b) = Some (frNodes fr)" "length (frNodes fr) \<le> maxNodes"
  shows "postOp E pr ''fakeremote'' op vars p =
    (if admits c (pcToken pr) then Inr (frNodes fr) else Inl (errUnauthorized (peerCfg.pcHostID pr)), p)"
proof -
  define body where "body = pMarshal E (AObj [(''op'', AStr op), (''variables'', AObj vars)])"
  define req where "req = peerAuthorize (pcToken pr) \<lparr>reqMethod = ''POST'', reqURL = ''http://'' @ listen @ ''/plugins/fakeremote/graphql'',
      reqHeaders = [(''Content-Type'', ''application/json'')], reqBody = body\<rparr>"
  have url: "trimRightByte CHR ''/'' (pcURL pr) = ''http://'' @ listen"
    unfolding assms(1) using assms(2,3) by (intro trimRight_none) simp_all
  define r where "r = overHttp listen req"
  have r: "rqMethod r = ''POST''" "rqPath r = ''/plugins/fakeremote/graphql''" "rqAuth r = (if pcToken pr = [] then [] else ''Bearer '' @ pcToken pr)"
    by (simp_all add: r_def overHttp_def req_def peerAuthorize_def header_def)
  have route: "serverMux gql hlth routes plugs r w = fakeremoteHandle encode fr r w" for w
    by (rule remote_routed [OF r(2,1) assms(5)]) (simp add: assms(6) fakeremoteRoutes_def)
  have adm: "ListenIsLoopback (Listen c) \<or> (\<exists>t \<in> snd ` set (Tokens c). rqAuth r = ''Bearer '' @ t) \<longleftrightarrow> admits c (pcToken pr)"
    unfolding r(3) admits_def by auto
  have "postOp E pr ''fakeremote'' op vars p = (case toServer listen (serverHandler c gql hlth routes plugs) req (pnet p) of (resp, u) \<Rightarrow>
      (case resp of None \<Rightarrow> (Inl (errOther ''transport''), p\<lparr>pnet := u\<rparr>)
      | Some x \<Rightarrow> if respStatus x = 401 then (Inl (errUnauthorized (peerCfg.pcHostID pr)), p\<lparr>pnet := u\<rparr>)
          else if respStatus x \<noteq> 200 then (Inl (errOther ''status''), p\<lparr>pnet := u\<rparr>)
          else (case decodeResult E (take maxRespBytes (respBody x)) of None \<Rightarrow> (Inl (errOther ''decode''), p\<lparr>pnet := u\<rparr>)
                | Some ns \<Rightarrow> (Inr (take maxNodes ns), p\<lparr>pnet := u\<rparr>))))"
    unfolding postOp_def Let_def url req_def body_def assms(4) by (simp add: case_prod_unfold)
  then show ?thesis
    unfolding toServer_def r_def [symmetric] serverHandler_open adm route
    using assms(7-) by (simp add: fakeremoteHandle_def httpError_def)
qed


text \<open>A remote configured with one row of its own and one planted for a third machine, asked with its token.\<close>

definition demoSeeds :: fakeremote where
  "demoSeeds = fakeremoteNew \<lparr>pcHostID = ''b'', pcDataDir = [], pcRaw = Some [(''nodes'', AArr
     [AObj [(''key'', AStr ''pane:x@b''), (''body'', AStr ''1'')], AStr ''no node'', AObj [(''key'', AStr ''pane:y@c''), (''body'', AStr ''2'')]])]\<rparr>"

lemma demoSeeds_nodes: "frNodes demoSeeds = [(''pane:x@b'', ''1''), (''pane:y@c'', ''2'')]"
  by code_simp

definition demoPull :: "unit peerEnv" where
  "demoPull = demoPeerEnv\<lparr>pDo := toServer ''b'' (serverHandler (demoConfig ''0.0.0.0:80'' [(''a'', ''t'')]) NotFound NotFound
       (\<lambda>_ :: unit. Some (fakeremoteRoutes (\<lambda>_. Some ''x'') demoSeeds)) [(''fakeremote'', ())]),
     decodeResult := (\<lambda>_. Some (frNodes demoSeeds))\<rparr>"


end
