(* ===== verification/Spec2Isabelle.thy ===== *)
theory Spec2Isabelle
  imports Graph Serve OsService Federation
begin

text \<open>
  Verification of supergraph, the per-machine daemon that runs data-source plugins, caches what they see in SQLite and
  serves it over GraphQL.

  \<^bold>\<open>The program.\<close> \<open>cmd/supergraph\<close> loads a configuration (\<open>core/config.go\<close>), builds the supervisor over the registered plugins
  (\<open>core/supervisor.go\<close>) and the HTTP server (\<open>server/server.go\<close>). A plugin owns a store (\<open>core/store.go\<close>) and emits envelopes: the
  supervisor appends each to the ring of the plugin's store, stamps its health (\<open>core/health.go\<close>) and publishes it on the bus
  (\<open>core/bus.go\<close>). The server routes \<open>/graphql\<close>, \<open>/health\<close> and \<open>/plugins/<name>/\<close>, behind bearer tokens when it does not bind
  loopback; the resolvers (\<open>graph\<close>) read the plugins' tables and join them. The plugins are GitHub (a read-through cache kept
  fresh by webhooks, notifications and reconciliation), tmux, git, claude (hooks, state files and transcripts of Claude Code
  sessions), peer (a mirror of other machines) and template (the reference plugin).

  \<^bold>\<open>The theories.\<close>
  \<^item> \<open>Prelude\<close>: Go's strings, 64-bit integers and keyed tables; \<open>Interfaces\<close>: the contracts shared by components, as locales
    (keyed tables and stores, key formats, stale marks, capped backoff), each interpreted where it is provided.
  \<^item> \<open>GoTime\<close>, \<open>GoValue\<close>, \<open>GoNet\<close>, \<open>GoHttp\<close>: what the source uses of \<open>time\<close>, of decoded JSON and TOML values, of \<open>net\<close>, \<open>net/url\<close>
    and \<open>path\<close>, and of \<open>net/http\<close>, with \<open>plugins/internal/pluginconfig\<close> and \<open>single\<close>.
  \<^item> \<open>CoreStore\<close>, \<open>CoreBus\<close>, \<open>CoreHealth\<close>, \<open>CoreConfig\<close>, \<open>Supervisor\<close>: \<open>core\<close>. A database is a record of its tables; a list of booleans
    in it says which of the coming statements succeed, so every theorem about a statement holds under any failures. The bus is a heap of channels, where sending on a closed one or closing it
    twice is \<open>None\<close>. The interleaving of plugins is an inductive step relation.
  \<^item> \<open>GithubKeys\<close>, \<open>GithubStore\<close>, \<open>GithubClient\<close>, \<open>GithubProxy\<close>, \<open>GithubExecutor\<close>, \<open>GithubWebhook\<close>, \<open>GithubSync\<close>, \<open>GithubQuery\<close>: the files of
    \<open>plugins/github\<close> in that order (\<open>GithubSync\<close> is \<open>ingest.go\<close> and \<open>reconcile.go\<close>); \<open>IssueKey\<close>: \<open>internal/issuekey\<close>.
  \<^item> \<open>PeerStore\<close>, \<open>Peer\<close>; \<open>TmuxKeys\<close>, \<open>TmuxStore\<close>, \<open>Tmux\<close>; \<open>GitParse\<close>, \<open>Git\<close>; \<open>ClaudeStore\<close>, \<open>Claude\<close>: the other plugins, for each its tables and
    statements, then its configuration, loops and reads. \<open>Template\<close>: the reference plugin run through the supervisor, with the
    locale of a plugin that emits with a heartbeat; \<open>Harness\<close>: the two plugins of the end-to-end tests (\<open>fakeok\<close>, \<open>fakeremote\<close>).
  \<^item> \<open>Server\<close>: \<open>server/server.go\<close> with \<open>http.ServeMux\<close>; \<open>Graph\<close>: the resolvers, relays and joins of \<open>graph\<close>.
  \<^item> \<open>Cli\<close>: the client commands of \<open>cmd/supergraph\<close>; \<open>OsService\<close>: the systemd and launchd managers of \<open>core/service\<close>, with the
    locale of what both promise about their unit file.
  \<^item> \<open>Serve\<close>: the process of the \<open>serve\<close> command, a step relation over the supervisor, the emits cut into append, stamp and publish, the event
    streams and the shutdown; a trace of labels records what happened.
  \<^item> \<open>Federation\<close>: the wire between a client and a server, and the peer plugin of one machine pulling from the server of another.
  \<^item> This theory: how the commands, the server and the claude plugin fit together.

  \<^bold>\<open>What is shown.\<close> Core: an append is atomic and keeps the newest events; an emit stores, stamps and publishes or does none; a plugin
  that fails is reported stale and disturbs no other; publishing never blocks or panics, and a subscriber reads a subsequence of
  what was published. The running process: a stream client gets what was stored and published, in order; every reachable state is well formed;
  the process returns what the sequential \<open>runServe\<close> says, stores nothing after \<open>Stop\<close>, and can always still end cleanly. GitHub: concurrent misses share one fetch; each upstream answer has its one effect; a webhook without a valid
  signature has none, and a signed one evicts its keys and the lists over them; keys print and parse back; discovery ends.
  Peer: only first-hop rows are mirrored, an outage is dated once, and a pull over the wire mirrors exactly the rows of the
  remote machine or is refused. The harness: a plugin that panics leaves its sibling ok. Tmux and git: a poll leaves exactly what was listed; a failing
  root touches no other; the porcelain parser inverts the printer. Claude: a transcript is folded exactly once however it is
  cut; hooks are applied once, never overridden by state files, and their text is private; tables are bounded. Server, graph and commands: nothing is
  served without a token off the machine; the forwarder's request gets through to its handler; joins depend on the data alone;
  \<open>subscribe\<close> sends only allowlisted documents, has the documented exit codes and rides out drops; the hook installer is
  additive and idempotent; a unit file is exact after any history. Some theorems show a defect: a delivery or a hook
  whose work failed is taken for a duplicate when it is sent again; a removal is never announced; a crashed plugin is never pushed as lagging; \<open>status\<close> sends no token.

  \<^bold>\<open>Time, loops and fuel.\<close> An \<open>instant\<close> counts nanoseconds and the clock is an argument. The endless loops of the plugins are modelled by
  one turn each, and the theorems quantify over sequences of turns. Paging over GitHub is the one loop that may not end: it
  takes fuel, and a theorem of \<open>GithubSync\<close> shows that it returns once a page is short, given more fuel than pages. All other recursions are proved total.

  \<^bold>\<open>Arguments of the model.\<close> HTTP and websocket transports, HMAC, the GraphQL document parser, the TOML and JSON codecs, the
  git, tmux, systemctl and launchctl processes and the file system are arguments of the definitions that use them.

  \<^bold>\<open>Not modelled.\<close> \<open>graph/generated.go\<close> and \<open>graph/model\<close> (generated by gqlgen); flag parsing and \<open>main.go\<close> (cobra); the blank imports
  that register plugins; the fake GitHub server \<open>fakegh\<close>, a test fixture; \<open>scripts/spikeharness\<close>; logging; the SQLite driver below the statements.
\<close>

subsection \<open>The commands, the server and the claude plugin\<close>

text \<open>The route of the claude plugin; the text of its answers is not modelled.\<close>

definition claudeRoutes :: "claudeEnv \<Rightarrow> instant \<Rightarrow> (string \<times> claudeSt handler) list" where
  "claudeRoutes E now = [(''hook'', \<lambda>r p. case handleHook E now (Inr (rqBody r)) p of (st, q) \<Rightarrow> (\<lparr>rsStatus = st, rsHeaders = [], rsBody = []\<rparr>, q))]"

text \<open>C1. For every configuration that loads, a request is routed exactly when the bind is loopback or the request carries one of the configured tokens,
  and a bind off the machine has tokens; every other request is answered 401 without effect, whatever its method and path.\<close>

theorem api_guarded:
  assumes "LoadConfig decoder hm (Some b) = Inr c"
  shows "serverHandler c gql hlth routes plugs r w =
      (if ListenIsLoopback (Listen c) \<or> (\<exists>t \<in> snd ` set (Tokens c). rqAuth r = ''Bearer '' @ t)
       then serverMux gql hlth routes plugs r w
       else ((httpError ''unauthorized'' 401)\<lparr>rsHeaders := [(''WWW-Authenticate'', ''Bearer'')]\<rparr>, w))
    \<and> (ListenIsLoopback (Listen c) \<or> Tokens c \<noteq> [])"
  using assms unfolding serverHandler_open LoadConfig_cases by blast

lemma hook_path:
  "cleanPath ''/plugins/claude/hook'' = ''/plugins/claude/hook''"
  "pathMatches ''/graphql'' ''/plugins/claude/hook'' = False"
  "pathMatches ''/health'' ''/plugins/claude/hook'' = False"
  "pathMatches ''/plugins/'' ''/plugins/claude/hook'' = True"
  "hasSuffix ''/plugins/claude/hook'' ''/'' = False"
  "pathMatches ''/graphql'' ''/plugins/claude/hook/'' = False"
  "pathMatches ''/health'' ''/plugins/claude/hook/'' = False"
  "pathMatches ''/plugins/'' ''/plugins/claude/hook/'' = True"
  "pathMatches ''/plugins/claude/hook'' ''/plugins/claude/hook'' = True"
  "pathMatches ''/plugins/claude/hook'' ''/plugins/claude/hook/'' = False"
  "cut (CHR ''/'') (trimPrefix ''/plugins/claude/hook'' ''/plugins/'') = (''claude'', ''hook'', True)"
  "trimPrefix ''hook'' ''/'' = ''hook''"
  by code_simp+

lemma hook_routed:
  assumes "rqPath r = ''/plugins/claude/hook''" "rqMethod r = ''POST''" "tblGet fst ''claude'' plugs = Some (''claude'', p)"
    "routes p = Some [(''hook'', h)]"
  shows "serverMux gql hlth routes plugs r w = h r w"
proof -
  have "pluginRoutesHandler routes plugs r w = h r w"
    unfolding pluginRoutesHandler_def assms(1) hook_path prod.case assms(3,4)
    using assms(1,2) by (simp add: serveMux_def Let_def methodMatches_def exactMatch_def hook_path assms(4))
  then show ?thesis
    using assms(1,2) by (simp add: serverMux_def serveMux_def Let_def methodMatches_def exactMatch_def hook_path)
qed

theorem api_guarded_witness:
  "\<exists>c. LoadConfig (\<lambda>_. Some (demoConfig ''0.0.0.0:80'' [(''a'', ''t'')])) None (Some ''f'') = Inr c
     \<and> serverHandler c NotFound NotFound (\<lambda>_ :: unit. None) [] \<lparr>rqMethod = ''GET'', rqPath = ''/health'', rqAuth = ''Bearer u'', rqBody = []\<rparr> ()
         = ((httpError ''unauthorized'' 401)\<lparr>rsHeaders := [(''WWW-Authenticate'', ''Bearer'')]\<rparr>, ())"
proof -
  let ?c = "applyDefaults None (demoConfig ''0.0.0.0:80'' [(''a'', ''t'')])"
  have n: "\<not> ListenIsLoopback (Listen ?c)" "Tokens ?c = [(''a'', ''t'')]" by code_simp+
  have ok: "LoadConfig (\<lambda>_. Some (demoConfig ''0.0.0.0:80'' [(''a'', ''t'')])) None (Some ''f'') = Inr ?c" by code_simp
  with api_guarded [OF ok, of NotFound NotFound "\<lambda>_ :: unit. None" "[]"
      "\<lparr>rqMethod = ''GET'', rqPath = ''/health'', rqAuth = ''Bearer u'', rqBody = []\<rparr>" "()"] n
  show ?thesis by (intro exI [of _ ?c]) simp
qed

lemma firstToken_ex: "ts \<noteq> [] \<Longrightarrow> \<exists>t. firstToken ts = Some t"
proof -
  assume "ts \<noteq> []"
  then obtain n ns where "sort (map fst ts) = n # ns" by (metis list.exhaust length_0_conv length_map length_sort)
  moreover from this have "n \<in> set (map fst ts)" by (metis list.set_intros(1) set_sort)
  ultimately show ?thesis by (auto simp: firstToken_def intro: weak_map_of_SomeI)
qed

lemma hookEndpoint_loaded:
  "loadConfig E path = Inr c \<Longrightarrow> Listen c \<noteq> [] \<Longrightarrow>
     hookEndpoint E path = (''http://'' @ Listen c @ ''/plugins/claude/hook'', case firstToken (Tokens c) of None \<Rightarrow> [] | Some t \<Rightarrow> t)"
  by (simp add: hookEndpoint_def)

lemma forward_over_http:
  assumes "loadConfig E path = Inr c" "Listen c \<noteq> []"
  shows "overHttp (Listen c) (forwardClaudeHook E path stdin pane ppid) =
    \<lparr>rqMethod = ''POST'', rqPath = ''/plugins/claude/hook'',
     rqAuth = (case firstToken (Tokens c) of None \<Rightarrow> [] | Some t \<Rightarrow> if t = [] then [] else ''Bearer '' @ t),
     rqBody = ceMarshal E (AObj (forwardPayload E stdin pane ppid))\<rparr>"
  unfolding forwardClaudeHook_def hookEndpoint_loaded [OF assms] overHttp_def prod.case request.simps drop_url
  by (simp add: header_def split: option.split)

text \<open>C17. The hook that Claude Code runs on this machine gets through: for every configuration that loads, loopback or not, the request the forwarder sends passes the token check of the
  server with the same configuration and is answered by the hook handler of the claude plugin, on the payload it forwarded with the pane and process id added.
  The one exception is a first token that is the empty string.\<close>

theorem hook_gets_through:
  assumes "loadConfig E path = Inr c" and "ListenIsLoopback (Listen c) \<or> firstToken (Tokens c) \<noteq> Some []"
    and "tblGet fst ''claude'' plugs = Some (''claude'', p)" and "routes p = Some (claudeRoutes CE now)"
  shows "let (resp, w') = serverHandler c gql hlth routes plugs (overHttp (Listen c) (forwardClaudeHook E path stdin pane ppid)) w;
             payload = forwardPayload E stdin pane ppid in
      (rsStatus resp, w') = handleHook CE now (Inr (ceMarshal E (AObj payload))) w
      \<and> at payload ''pid'' = AInt ppid \<and> (pane \<noteq> [] \<longrightarrow> at payload ''tmux_pane'' = AStr pane)"
proof -
  obtain c0 where c0: "c = applyDefaults (ceHome E) c0" "ListenIsLoopback (Listen c) \<or> Tokens c \<noteq> []"
    using assms(1) by (auto simp: loadConfig_def LoadConfig_cases)
  have l: "Listen c \<noteq> []" by (simp add: c0(1) defaultListen_def)
  let ?r = "overHttp (Listen c) (forwardClaudeHook E path stdin pane ppid)"
  have "ListenIsLoopback (Listen c) \<or> (\<exists>t \<in> snd ` set (Tokens c). rqAuth ?r = ''Bearer '' @ t)"
  proof (cases "ListenIsLoopback (Listen c)")
    case False
    with c0(2) firstToken_ex obtain t where t: "firstToken (Tokens c) = Some t" by blast
    with False assms(2) have "rqAuth ?r = ''Bearer '' @ t" unfolding forward_over_http [OF assms(1) l] by simp
    with firstToken_mem [OF t] show ?thesis by blast
  qed simp
  then have "serverHandler c gql hlth routes plugs ?r w = serverMux gql hlth routes plugs ?r w"
    unfolding serverHandler_open by (simp only: if_True)
  also have "\<dots> = (case handleHook CE now (Inr (rqBody ?r)) w of (st, q) \<Rightarrow> (\<lparr>rsStatus = st, rsHeaders = [], rsBody = []\<rparr>, q))"
    by (rule hook_routed [OF _ _ assms(3)]) (simp_all only: forward_over_http [OF assms(1) l] httpReq.simps assms(4) claudeRoutes_def)
  finally show ?thesis
    unfolding forward_over_http [OF assms(1) l]
    by (simp add: case_prod_unfold Let_def forwardPayload_def)
qed

text \<open>C39. \<open>status\<close> and \<open>query\<close> send no token: against a running server that binds off the machine with the same configuration, \<open>status\<close> exits 3, not running, and no query reaches the
  GraphQL handler, although a request with a configured token is served.\<close>

theorem status_blind_behind_token:
  assumes "loadConfig E path = Inr c" and "\<not> ListenIsLoopback (Listen c)"
    and "ceDo E = toServer (Listen c) (serverHandler c gql hlth routes plugs)"
  shows "statusCode E rows path w = (3, w)
    \<and> snd (runQuery E (resolveEndpoint E defaultQueryEndpoint path) q w) = w
    \<and> (\<forall>t \<in> snd ` set (Tokens c). \<forall>r. rqAuth r = ''Bearer '' @ t \<longrightarrow>
          serverHandler c gql hlth routes plugs r w = serverMux gql hlth routes plugs r w)"
proof (intro conjI ballI allI impI)
  let ?u = "(httpError ''unauthorized'' 401)\<lparr>rsHeaders := [(''WWW-Authenticate'', ''Bearer'')]\<rparr>"
  have no: "rqAuth r = [] \<Longrightarrow> serverHandler c gql hlth routes plugs r w = (?u, w)" for r
    using assms(2) by (auto simp: serverHandler_open)
  show "statusCode E rows path w = (3, w)"
    by (simp add: statusCode_def assms(1,3) probeHealth_def toServer_def no overHttp_def header_def httpError_def)
  show "snd (runQuery E (resolveEndpoint E defaultQueryEndpoint path) q w) = w"
    by (simp add: runQuery_def postGraphQL_def assms(3) toServer_def no overHttp_def header_def)
  show "serverHandler c gql hlth routes plugs r w = serverMux gql hlth routes plugs r w"
    if "t \<in> snd ` set (Tokens c)" "rqAuth r = ''Bearer '' @ t" for t r
    using that unfolding serverHandler_open by (subst if_P) blast+
qed

definition demoBox :: "'u cliEnv \<Rightarrow> 'u cliEnv" where
  "demoBox E = E\<lparr>ceToml := (\<lambda>_. Some (demoConfig ''0.0.0.0:80'' [(''a'', ''t'')])), ceHome := None, ceRead := (\<lambda>_. Some ''f'')\<rparr>"

definition demoBoxConfig :: Config where
  "demoBoxConfig = applyDefaults None (demoConfig ''0.0.0.0:80'' [(''a'', ''t'')])"

lemma demoBox_loads: "loadConfig (demoBox E) path = Inr demoBoxConfig"
proof -
  have "LoadConfig (\<lambda>_. Some (demoConfig ''0.0.0.0:80'' [(''a'', ''t'')])) None (Some ''f'') = Inr demoBoxConfig" by code_simp
  then show ?thesis by (simp add: loadConfig_def demoBox_def)
qed

lemma demoBox_off: "\<not> ListenIsLoopback (Listen demoBoxConfig)" "firstToken (Tokens demoBoxConfig) = Some ''t''"
  by code_simp+

text \<open>A session start forwarded to a server that binds all interfaces: it is answered 200.\<close>

theorem hook_gets_through_witness:
  "let E = demoBox (demoCli (\<lambda>_. None))\<lparr>ceMarshal := (\<lambda>_. ''b'')\<rparr>; CE = Claude.demoEnv [(''b'', Claude.demoHook)];
       (resp, w') = serverHandler demoBoxConfig NotFound NotFound (\<lambda>_ :: unit. Some (claudeRoutes CE 0)) [(''claude'', ())]
         (overHttp (Listen demoBoxConfig) (forwardClaudeHook E ''c'' ''in'' ''%1'' 7)) (Claude.demoSt []) in
     rsStatus resp = 200"
proof -
  let ?E = "demoBox (demoCli (\<lambda>_. None))\<lparr>ceMarshal := (\<lambda>_. ''b'')\<rparr>" and ?CE = "Claude.demoEnv [(''b'', Claude.demoHook)]"
  have l: "loadConfig ?E ''c'' = Inr demoBoxConfig" using demoBox_loads [of "demoCli (\<lambda>_. None)"] by (simp add: loadConfig_def)
  have "fst (handleHook ?CE 0 (Inr (ceMarshal ?E (AObj (forwardPayload ?E ''in'' ''%1'' 7)))) (Claude.demoSt [])) = 200"
    using demo_200 by simp
  with hook_gets_through [OF l, of "[(''claude'', ())]" "()" "\<lambda>_ :: unit. Some (claudeRoutes ?CE 0)" ?CE 0 NotFound NotFound "''in''" "''%1''" 7 "Claude.demoSt []"]
  show ?thesis by (auto simp: demoBox_off Let_def case_prod_unfold prod_eq_iff)
qed

theorem status_blind_behind_token_witness:
  "let E = demoBox (demoCli (\<lambda>_. None)); h = serverHandler demoBoxConfig NotFound (\<lambda>r w. (\<lparr>rsStatus = 200, rsHeaders = [], rsBody = ''[]''\<rparr>, w)) (\<lambda>_ :: unit. None) [];
       E' = E\<lparr>ceDo := toServer (Listen demoBoxConfig) h\<rparr> in
     statusCode E' (\<lambda>s. Some s) ''c'' () = (3, ())
     \<and> rsStatus (fst (h \<lparr>rqMethod = ''GET'', rqPath = ''/health'', rqAuth = ''Bearer t'', rqBody = []\<rparr> ())) = 200"
proof -
  let ?hl = "\<lambda>r w. (\<lparr>rsStatus = 200, rsHeaders = [], rsBody = ''[]''\<rparr>, w)"
  let ?h = "serverHandler demoBoxConfig NotFound ?hl (\<lambda>_ :: unit. None) [] :: unit handler"
  let ?E = "demoBox (demoCli (\<lambda>_. None))\<lparr>ceDo := toServer (Listen demoBoxConfig) ?h\<rparr>"
  let ?r = "\<lparr>rqMethod = ''GET'', rqPath = ''/health'', rqAuth = ''Bearer t'', rqBody = []\<rparr>"
  have l: "loadConfig ?E ''c'' = Inr demoBoxConfig" using demoBox_loads [of "demoCli (\<lambda>_. None)"] by (simp add: loadConfig_def)
  have t: "''t'' \<in> snd ` set (Tokens demoBoxConfig)" using firstToken_mem demoBox_off(2) by blast
  have m: "rsStatus (fst (serverMux NotFound ?hl (\<lambda>_ :: unit. None) [] ?r ())) = 200" by code_simp
  note T = status_blind_behind_token [OF l demoBox_off(1), of NotFound ?hl "\<lambda>_ :: unit. None" "[]" "\<lambda>s. Some s" "()"]
  have s: "statusCode ?E (\<lambda>s. Some s) ''c'' () = (3, ())" by (rule conjunct1 [OF T]) simp
  have a: "?h ?r () = serverMux NotFound ?hl (\<lambda>_ :: unit. None) [] ?r ()"
    by (rule mp [OF spec [OF bspec [OF conjunct2 [OF conjunct2 [OF T]] t]]]) simp_all
  from s a m show ?thesis by (simp add: Let_def)
qed

end
